(* ===== verification/Prelude.thy ===== *)
theory Prelude
  imports Main "HOL-Library.Word" "HOL-Library.Monad_Syntax"
begin

text \<open>
  Shared vocabulary of the development.

  The Go program works on bytes, fixed-width unsigned integers and strings that are byte
  sequences. This theory names those types, models the parts of the Go standard library
  that move integers in and out of byte slices, and proves the generic facts (byte order
  round trips, list surgery) the component theories rely on.
\<close>

unbundle bit_operations_syntax

named_theorems wire_simps \<open>byte layout of headers and payload fields\<close>
named_theorems handler_defs \<open>definitions of the message handlers\<close>

type_synonym byte = "8 word"
type_synonym bytes = "8 word list"
type_synonym uint8 = "8 word"
type_synonym uint16 = "16 word"
type_synonym uint32 = "32 word"
type_synonym uint64 = "64 word"

section \<open>Go strings\<close>

text \<open>A Go string is a byte sequence; an ASCII literal of the source is converted by
  \<open>ascii\<close>.\<close>

definition ascii :: "string \<Rightarrow> bytes" where
  "ascii s = map of_char s"

lemma ascii_Nil [simp]: "ascii [] = []"
  by (simp add: ascii_def)

lemma ascii_Cons [simp]: "ascii (c # cs) = of_char c # ascii cs"
  by (simp add: ascii_def)

section \<open>Big-endian fields (encoding/binary)\<close>

definition BigEndian_Uint32 :: "bytes \<Rightarrow> uint32" where
  "BigEndian_Uint32 b =
     ucast (b ! 3) OR push_bit 8 (ucast (b ! 2)) OR
     push_bit 16 (ucast (b ! 1)) OR push_bit 24 (ucast (b ! 0))"

definition BigEndian_PutUint32 :: "uint32 \<Rightarrow> bytes" where
  "BigEndian_PutUint32 v =
     [ucast (drop_bit 24 v), ucast (drop_bit 16 v), ucast (drop_bit 8 v), ucast v]"

definition BigEndian_Uint64 :: "bytes \<Rightarrow> uint64" where
  "BigEndian_Uint64 b =
     ucast (b ! 7) OR push_bit 8 (ucast (b ! 6)) OR
     push_bit 16 (ucast (b ! 5)) OR push_bit 24 (ucast (b ! 4)) OR
     push_bit 32 (ucast (b ! 3)) OR push_bit 40 (ucast (b ! 2)) OR
     push_bit 48 (ucast (b ! 1)) OR push_bit 56 (ucast (b ! 0))"

definition BigEndian_PutUint64 :: "uint64 \<Rightarrow> bytes" where
  "BigEndian_PutUint64 v =
     [ucast (drop_bit 56 v), ucast (drop_bit 48 v), ucast (drop_bit 40 v),
      ucast (drop_bit 32 v), ucast (drop_bit 24 v), ucast (drop_bit 16 v),
      ucast (drop_bit 8 v), ucast v]"

lemma length_PutUint32 [simp]: "length (BigEndian_PutUint32 v) = 4"
  by (simp add: BigEndian_PutUint32_def)

lemma length_PutUint64 [simp]: "length (BigEndian_PutUint64 v) = 8"
  by (simp add: BigEndian_PutUint64_def)

text \<open>One octet of a word, shifted back to where it came from, contributes exactly its own
  eight bits.\<close>

lemma bit_octet:
  "bit (push_bit k (ucast (ucast (drop_bit k v) :: byte)) :: 'a::len word) n \<longleftrightarrow>
     k \<le> n \<and> n < k + 8 \<and> bit v n" for v :: "'a::len word"
  by (auto simp: bit_push_bit_iff bit_unsigned_iff bit_drop_bit_eq dest: bit_imp_le_length)

lemma bit_octet_low:
  "bit (ucast (ucast v :: byte) :: 'a::len word) n \<longleftrightarrow> n < 8 \<and> bit v n" for v :: "'a::len word"
  by (auto simp: bit_unsigned_iff dest: bit_imp_le_length)

lemma byte_bit_high [simp]: "8 \<le> k \<Longrightarrow> \<not> bit b (k + n)" for b :: byte
  by (auto dest: bit_imp_le_length)

lemmas octet_bits = bit_or_iff bit_push_bit_iff bit_unsigned_iff bit_drop_bit_eq comp_def

lemma Uint32_PutUint32 [simp, wire_simps]: "BigEndian_Uint32 (BigEndian_PutUint32 v) = v"
  unfolding BigEndian_Uint32_def BigEndian_PutUint32_def
  by (rule bit_word_eqI) (auto simp: bit_or_iff bit_octet bit_octet_low)

lemma Uint64_PutUint64 [simp, wire_simps]: "BigEndian_Uint64 (BigEndian_PutUint64 v) = v"
  unfolding BigEndian_Uint64_def BigEndian_PutUint64_def
  by (rule bit_word_eqI) (auto simp: bit_or_iff bit_octet bit_octet_low)

lemma length_4_conv: "length b = 4 \<longleftrightarrow> (\<exists>b0 b1 b2 b3. b = [b0, b1, b2, b3])"
  by (auto simp: numeral_eq_Suc length_Suc_conv)

lemma length_8_conv:
  "length b = 8 \<longleftrightarrow> (\<exists>b0 b1 b2 b3 b4 b5 b6 b7. b = [b0, b1, b2, b3, b4, b5, b6, b7])"
  by (auto simp: numeral_eq_Suc length_Suc_conv)

lemma PutUint32_Uint32 [wire_simps]:
  assumes "length b = 4"
  shows "BigEndian_PutUint32 (BigEndian_Uint32 b) = b"
  using assms unfolding length_4_conv
  by (auto simp: BigEndian_Uint32_def BigEndian_PutUint32_def octet_bits
      intro!: bit_word_eqI dest: bit_imp_le_length)

lemma PutUint64_Uint64 [wire_simps]:
  assumes "length b = 8"
  shows "BigEndian_PutUint64 (BigEndian_Uint64 b) = b"
  using assms unfolding length_8_conv
  by (auto simp: BigEndian_Uint64_def BigEndian_PutUint64_def octet_bits
      intro!: bit_word_eqI dest: bit_imp_le_length)

section \<open>List surgery\<close>

lemma take_append_exact [simp]: "length xs = n \<Longrightarrow> take n (xs @ ys) = xs"
  by simp

lemma drop_append_exact [simp]: "length xs = n \<Longrightarrow> drop n (xs @ ys) = ys"
  by simp

lemma take_2_nth: "2 \<le> length b \<Longrightarrow> take 2 b = [b ! 0, b ! 1]"
  by (auto simp: numeral_eq_Suc Suc_le_length_iff)

lemma take_4_nth: "4 \<le> length b \<Longrightarrow> take 4 b = [b ! 0, b ! 1, b ! 2, b ! 3]"
  by (auto simp: numeral_eq_Suc Suc_le_length_iff)

lemma append_take_drop_eq: "xs = ys @ zs \<Longrightarrow> ys = take (length ys) xs \<and> zs = drop (length ys) xs"
  by simp

lemma unat_of_nat_64: "n < 2 ^ 64 \<Longrightarrow> unat (of_nat n :: uint64) = n"
  by (simp add: unsigned_of_nat take_bit_nat_eq_self)

end
