(* ===== verification/Go_Errors.thy ===== *)
theory Go_Errors
  imports Prelude
begin

text \<open>
  Go error values.

  The sentinel errors of the \<open>protocol\<close> and \<open>server\<close> packages, the errors of the
  standard library the code compares with, and errors of devices and transports that this
  repository does not define. A Go error may wrap another; \<open>errors.Is\<close> looks through the
  chain, while \<open>==\<close> compares the outermost value only, and the source uses both.
\<close>

section \<open>Error values\<close>

datatype gerror =
    ErrShortBuffer | ErrInvalidPrologue | ErrUnknownMessageType | ErrReservedMessageType
  | ErrWrongChannel | ErrProtocolVersion | ErrMessageTooLarge | ErrPayloadLength
  | ErrSessionNotReady | ErrInvalidSession | ErrInvalidInitSequence | ErrInvalidSubAddress
  | ErrMaxClients | ErrLocked | ErrUnsupportedMode | ErrUnrecognizedControlCode
  | ErrInvalidConfig | ErrOverlapNotImplemented
  | ErrInvalidTransition | ErrInputQueuedRequired | ErrClientFatal
  | EOF | ErrUnexpectedEOF | ErrStreamClosed | ErrCanceled | NilPointer
  | OtherError bytes
  | Wrapped bytes gerror

text \<open>\<open>errors.Is(err, target)\<close>: the error itself or one it wraps.\<close>

fun errors_Is :: "gerror \<Rightarrow> gerror \<Rightarrow> bool" where
  "errors_Is (Wrapped t e) target \<longleftrightarrow> Wrapped t e = target \<or> errors_Is e target"
| "errors_Is e target \<longleftrightarrow> e = target"

lemma errors_Is_refl [simp]: "errors_Is e e"
  by (cases e) auto

text \<open>\<open>err.Error()\<close>: the text carried on the wire by an error report.\<close>

fun Error_text :: "gerror \<Rightarrow> bytes" where
  "Error_text ErrShortBuffer = ascii ''hislip: buffer too short''"
| "Error_text ErrInvalidPrologue = ascii ''hislip: invalid message prologue''"
| "Error_text ErrUnknownMessageType = ascii ''hislip: unknown message type''"
| "Error_text ErrReservedMessageType = ascii ''hislip: reserved message type''"
| "Error_text ErrWrongChannel = ascii ''hislip: message not legal on this channel''"
| "Error_text ErrProtocolVersion = ascii ''hislip: unsupported protocol version''"
| "Error_text ErrMessageTooLarge = ascii ''hislip: message exceeds maximum size''"
| "Error_text ErrPayloadLength = ascii ''hislip: payload length does not match header''"
| "Error_text ErrSessionNotReady = ascii ''hislip: session not ready, both channels required''"
| "Error_text ErrInvalidSession = ascii ''hislip: unknown or already paired session ID''"
| "Error_text ErrInvalidInitSequence = ascii ''hislip: invalid initialization sequence''"
| "Error_text ErrInvalidSubAddress = ascii ''hislip: unknown sub-address''"
| "Error_text ErrMaxClients = ascii ''hislip: maximum number of clients exceeded''"
| "Error_text ErrLocked = ascii ''hislip: locked by another session''"
| "Error_text ErrUnsupportedMode = ascii ''hislip: requested mode not supported''"
| "Error_text ErrUnrecognizedControlCode = ascii ''hislip: unrecognized control code''"
| "Error_text ErrInvalidConfig = ascii ''hislip: invalid server configuration''"
| "Error_text ErrOverlapNotImplemented = ascii ''hislip: overlap mode is not implemented''"
| "Error_text ErrInvalidTransition = ascii ''hislip: invalid transaction state transition''"
| "Error_text ErrInputQueuedRequired = ascii ''hislip: Response.InputQueued must be supplied to implement the interrupted check''"
| "Error_text ErrClientFatal = ascii ''hislip: peer reported a fatal error''"
| "Error_text EOF = ascii ''EOF''"
| "Error_text ErrUnexpectedEOF = ascii ''unexpected EOF''"
| "Error_text ErrStreamClosed = ascii ''use of closed network connection''"
| "Error_text ErrCanceled = ascii ''context canceled''"
| "Error_text NilPointer = ascii ''invalid memory address or nil pointer dereference''"
| "Error_text (OtherError t) = t"
| "Error_text (Wrapped t e) = t"

end
