(* ===== verification/Go_Strings.thy ===== *)
theory Go_Strings
  imports Prelude
begin

text \<open>
  The functions of Go's packages \<open>strings\<close> and \<open>strconv\<close> that the adapter and the example
  instrument call. A string is its bytes; characters outside ASCII are UTF-8 sequences.
\<close>

section \<open>White space\<close>

text \<open>The encodings of the characters \<open>unicode.IsSpace\<close> accepts.\<close>

definition space_runes :: "bytes list" where
  "space_runes =
     [[0x20], [0x09], [0x0A], [0x0B], [0x0C], [0x0D], [0xC2, 0x85], [0xC2, 0xA0], [0xE1, 0x9A, 0x80],
      [0xE2, 0x80, 0x80], [0xE2, 0x80, 0x81], [0xE2, 0x80, 0x82], [0xE2, 0x80, 0x83], [0xE2, 0x80, 0x84],
      [0xE2, 0x80, 0x85], [0xE2, 0x80, 0x86], [0xE2, 0x80, 0x87], [0xE2, 0x80, 0x88], [0xE2, 0x80, 0x89],
      [0xE2, 0x80, 0x8A], [0xE2, 0x80, 0xA8], [0xE2, 0x80, 0xA9], [0xE2, 0x80, 0xAF], [0xE2, 0x81, 0x9F],
      [0xE3, 0x80, 0x80]]"

definition HasPrefix :: "bytes \<Rightarrow> bytes \<Rightarrow> bool" where
  "HasPrefix s p \<longleftrightarrow> take (length p) s = p"

text \<open>The length of the first of some non-empty sequences a string starts with, or 0.\<close>

definition prefix_len :: "bytes list \<Rightarrow> bytes \<Rightarrow> nat" where
  "prefix_len qs s = (case List.find (HasPrefix s) qs of None \<Rightarrow> 0 | Some q \<Rightarrow> length q)"

lemma prefix_len_le: "prefix_len qs s \<le> length s"
proof (cases "List.find (HasPrefix s) qs")
  case (Some q)
  then have "take (length q) s = q" by (auto simp: find_Some_iff HasPrefix_def)
  then have "length q \<le> length s" using length_take [of "length q" s] by simp
  with Some show ?thesis by (simp add: prefix_len_def)
qed (simp add: prefix_len_def)

function strip :: "bytes list \<Rightarrow> bytes \<Rightarrow> bytes" where
  "strip qs s = (if prefix_len qs s = 0 then s else strip qs (drop (prefix_len qs s) s))"
  by pat_completeness auto
termination
proof (relation "measure (\<lambda>(qs, s). length s)", goal_cases)
  case (2 qs s)
  then show ?case using prefix_len_le [of qs s] by simp
qed simp

declare strip.simps [simp del]

definition TrimSpace :: "bytes \<Rightarrow> bytes" where
  "TrimSpace s = rev (strip (map rev space_runes) (rev (strip space_runes s)))"

function Fields_loop :: "bytes \<Rightarrow> bytes \<Rightarrow> bytes list" where
  "Fields_loop acc [] = (if acc = [] then [] else [acc])"
| "Fields_loop acc (c # cs) =
     (if prefix_len space_runes (c # cs) = 0 then Fields_loop (acc @ [c]) cs
      else (if acc = [] then [] else [acc]) @ Fields_loop [] (drop (prefix_len space_runes (c # cs)) (c # cs)))"
  by pat_completeness auto
termination
  by (relation "measure (\<lambda>(acc, s). length s)") auto

definition Fields :: "bytes \<Rightarrow> bytes list" where
  "Fields s = Fields_loop [] s"

section \<open>Cutting and changing case\<close>

definition TrimRight :: "bytes \<Rightarrow> bytes \<Rightarrow> bytes" where
  "TrimRight s cutset = rev (dropWhile (\<lambda>c. c \<in> set cutset) (rev s))"

text \<open>\<open>strings.SplitSeq\<close> with a separator of one byte.\<close>

fun Split_loop :: "byte \<Rightarrow> bytes \<Rightarrow> bytes \<Rightarrow> bytes list" where
  "Split_loop sep acc [] = [acc]"
| "Split_loop sep acc (c # cs) =
     (if c = sep then acc # Split_loop sep [] cs else Split_loop sep (acc @ [c]) cs)"

definition SplitSeq :: "bytes \<Rightarrow> byte \<Rightarrow> bytes list" where
  "SplitSeq s sep = Split_loop sep [] s"

text \<open>\<open>strings.ToUpper\<close> up to characters outside ASCII: the dotless i and the long s are the only ones
  whose upper case is an ASCII letter, and the others are left as they are, which no comparison
  with an ASCII literal can tell.\<close>

fun ToUpper :: "bytes \<Rightarrow> bytes" where
  "ToUpper (a # b # s) =
     (if a = 0xC4 \<and> b = 0xB1 then 0x49 # ToUpper s
      else if a = 0xC5 \<and> b = 0xBF then 0x53 # ToUpper s
      else (if 0x61 \<le> a \<and> a \<le> 0x7A then a - 0x20 else a) # ToUpper (b # s))"
| "ToUpper [a] = [if 0x61 \<le> a \<and> a \<le> 0x7A then a - 0x20 else a]"
| "ToUpper [] = []"

section \<open>Numbers\<close>

fun Itoa :: "nat \<Rightarrow> bytes" where
  "Itoa n = (if n < 10 then [0x30 + of_nat n] else Itoa (n div 10) @ [0x30 + of_nat (n mod 10)])"

declare Itoa.simps [simp del]

text \<open>The value of a string of decimal digits.\<close>

definition decimal :: "bytes \<Rightarrow> nat" where
  "decimal s = foldl (\<lambda>v c. 10 * v + (unat c - 48)) 0 s"

lemma decimal_snoc: "decimal (s @ [c]) = 10 * decimal s + (unat c - 48)"
  by (simp add: decimal_def)

lemma digit_unat: "d < 10 \<Longrightarrow> unat (0x30 + of_nat d :: byte) - 48 = d"
proof -
  assume "d < 10"
  then have "d = 0 \<or> d = 1 \<or> d = 2 \<or> d = 3 \<or> d = 4 \<or> d = 5 \<or> d = 6 \<or> d = 7 \<or> d = 8 \<or> d = 9" by arith
  then show ?thesis by (elim disjE) simp_all
qed

lemma decimal_Itoa: "decimal (Itoa n) = n"
proof (induction n rule: Itoa.induct)
  case (1 n)
  show ?case
  proof (cases "n < 10")
    case True
    then show ?thesis by (subst Itoa.simps) (simp add: decimal_def digit_unat del: One_nat_def)
  next
    case False
    then show ?thesis using 1 by (subst Itoa.simps) (simp add: decimal_snoc digit_unat)
  qed
qed

end
