(* ===== verification/Message_Types.thy ===== *)
theory Message_Types
  imports Go_Errors Go_Strings
begin

text \<open>
  Message types, channels and error codes: \<open>protocol/constants.go\<close>,
  \<open>protocol/version.go\<close> and \<open>protocol/errors.go\<close>.

  A message type is any byte (the decoder accepts all 256); the table \<open>messages\<close> gives the
  properties of the 39 types IVI-6.1 defines.
\<close>

section \<open>Protocol versions (version.go)\<close>

datatype Version = Version (vMajor: uint8) (vMinor: uint8)

definition Version10 :: Version where [simp]: "Version10 = Version 1 0"
definition Version11 :: Version where [simp]: "Version11 = Version 1 1"
definition Version20 :: Version where [simp]: "Version20 = Version 2 0"

definition Version_String :: "Version \<Rightarrow> bytes" where
  "Version_String v = Itoa (unat (vMajor v)) @ [0x2E] @ Itoa (unat (vMinor v))"

text \<open>The zero value of the struct, which the source uses as ``no version''.\<close>

definition zero_Version :: Version where [simp]: "zero_Version = Version 0 0"

definition Version_Less :: "Version \<Rightarrow> Version \<Rightarrow> bool" where
  "Version_Less v other =
     (if vMajor v \<noteq> vMajor other then vMajor v < vMajor other else vMinor v < vMinor other)"

definition Version_AtLeast :: "Version \<Rightarrow> Version \<Rightarrow> bool" where
  "Version_AtLeast v other = (\<not> Version_Less v other)"

definition Negotiate :: "Version \<Rightarrow> Version \<Rightarrow> Version" where
  "Negotiate client server = (if Version_Less client server then client else server)"

definition upperWord :: "Version \<Rightarrow> uint32" where
  "upperWord v = push_bit 24 (ucast (vMajor v)) OR push_bit 16 (ucast (vMinor v))"

definition versionFromParameter :: "uint32 \<Rightarrow> Version" where
  "versionFromParameter p = Version (ucast (drop_bit 24 p)) (ucast (drop_bit 16 p))"

definition EncodeInitializeParameter :: "Version \<Rightarrow> byte \<times> byte \<Rightarrow> uint32" where
  "EncodeInitializeParameter v vendorID =
     upperWord v OR push_bit 8 (ucast (fst vendorID)) OR ucast (snd vendorID)"

definition DecodeInitializeParameter :: "uint32 \<Rightarrow> Version \<times> (byte \<times> byte)" where
  "DecodeInitializeParameter p =
     (versionFromParameter p, (ucast (drop_bit 8 p), ucast p))"

definition EncodeInitializeResponseParameter :: "Version \<Rightarrow> uint16 \<Rightarrow> uint32" where
  "EncodeInitializeResponseParameter v sessionID = upperWord v OR ucast sessionID"

definition DecodeInitializeResponseParameter :: "uint32 \<Rightarrow> Version \<times> uint16" where
  "DecodeInitializeResponseParameter p = (versionFromParameter p, ucast p)"

section \<open>Message types, channels and codes (constants.go)\<close>

type_synonym MessageType = uint8

definition Initialize :: MessageType where [simp]: "Initialize = 0"
definition InitializeResponse :: MessageType where [simp]: "InitializeResponse = 1"
definition FatalError :: MessageType where [simp]: "FatalError = 2"
definition Error :: MessageType where [simp]: "Error = 3"
definition AsyncLock :: MessageType where [simp]: "AsyncLock = 4"
definition AsyncLockResponse :: MessageType where [simp]: "AsyncLockResponse = 5"
definition Data :: MessageType where [simp]: "Data = 6"
definition DataEnd :: MessageType where [simp]: "DataEnd = 7"
definition DeviceClearComplete :: MessageType where [simp]: "DeviceClearComplete = 8"
definition DeviceClearAcknowledge :: MessageType where [simp]: "DeviceClearAcknowledge = 9"
definition AsyncRemoteLocalControl :: MessageType where [simp]: "AsyncRemoteLocalControl = 10"
definition AsyncRemoteLocalResponse :: MessageType where [simp]: "AsyncRemoteLocalResponse = 11"
definition Trigger :: MessageType where [simp]: "Trigger = 12"
definition Interrupted :: MessageType where [simp]: "Interrupted = 13"
definition AsyncInterrupted :: MessageType where [simp]: "AsyncInterrupted = 14"
definition AsyncMaximumMessageSize :: MessageType where [simp]: "AsyncMaximumMessageSize = 15"
definition AsyncMaximumMessageSizeResponse :: MessageType where [simp]: "AsyncMaximumMessageSizeResponse = 16"
definition AsyncInitialize :: MessageType where [simp]: "AsyncInitialize = 17"
definition AsyncInitializeResponse :: MessageType where [simp]: "AsyncInitializeResponse = 18"
definition AsyncDeviceClear :: MessageType where [simp]: "AsyncDeviceClear = 19"
definition AsyncServiceRequest :: MessageType where [simp]: "AsyncServiceRequest = 20"
definition AsyncStatusQuery :: MessageType where [simp]: "AsyncStatusQuery = 21"
definition AsyncStatusResponse :: MessageType where [simp]: "AsyncStatusResponse = 22"
definition AsyncDeviceClearAcknowledge :: MessageType where [simp]: "AsyncDeviceClearAcknowledge = 23"
definition AsyncLockInfo :: MessageType where [simp]: "AsyncLockInfo = 24"
definition AsyncLockInfoResponse :: MessageType where [simp]: "AsyncLockInfoResponse = 25"
definition GetDescriptors :: MessageType where [simp]: "GetDescriptors = 26"
definition GetDescriptorsResponse :: MessageType where [simp]: "GetDescriptorsResponse = 27"
definition StartTLS :: MessageType where [simp]: "StartTLS = 28"
definition AsyncStartTLS :: MessageType where [simp]: "AsyncStartTLS = 29"
definition AsyncStartTLSResponse :: MessageType where [simp]: "AsyncStartTLSResponse = 30"
definition EndTLS :: MessageType where [simp]: "EndTLS = 31"
definition AsyncEndTLS :: MessageType where [simp]: "AsyncEndTLS = 32"
definition AsyncEndTLSResponse :: MessageType where [simp]: "AsyncEndTLSResponse = 33"
definition GetSaslMechanismList :: MessageType where [simp]: "GetSaslMechanismList = 34"
definition GetSaslMechanismListResponse :: MessageType where [simp]: "GetSaslMechanismListResponse = 35"
definition AuthenticationStart :: MessageType where [simp]: "AuthenticationStart = 36"
definition AuthenticationExchange :: MessageType where [simp]: "AuthenticationExchange = 37"
definition AuthenticationResult :: MessageType where [simp]: "AuthenticationResult = 38"
definition ReservedMin :: MessageType where [simp]: "ReservedMin = 39"
definition VendorSpecificMin :: MessageType where [simp]: "VendorSpecificMin = 128"
definition VendorSpecificMax :: MessageType where [simp]: "VendorSpecificMax = 255"

datatype Channel = ChannelNone | ChannelSynchronous | ChannelAsynchronous | ChannelEither

datatype Capability = CapabilityGeneral | CapabilitySecureConnection

definition ControlRMTDelivered :: uint8 where [simp]: "ControlRMTDelivered = 1"
definition ControlPreferOverlap :: uint8 where [simp]: "ControlPreferOverlap = 1"

definition FeatureOverlapped :: uint8 where [simp]: "FeatureOverlapped = 1"
definition FeatureEncryptionMandatory :: uint8 where [simp]: "FeatureEncryptionMandatory = 2"
definition FeatureInitialEncryption :: uint8 where [simp]: "FeatureInitialEncryption = 4"

type_synonym FatalErrorCode = uint8
type_synonym ErrorCode = uint8

definition FatalUnidentified :: FatalErrorCode where [simp]: "FatalUnidentified = 0"
definition FatalPoorlyFormedHeader :: FatalErrorCode where [simp]: "FatalPoorlyFormedHeader = 1"
definition FatalChannelsNotEstablished :: FatalErrorCode where [simp]: "FatalChannelsNotEstablished = 2"
definition FatalInvalidInitSequence :: FatalErrorCode where [simp]: "FatalInvalidInitSequence = 3"
definition FatalMaxClientsExceeded :: FatalErrorCode where [simp]: "FatalMaxClientsExceeded = 4"
definition FatalSecureConnectionFailed :: FatalErrorCode where [simp]: "FatalSecureConnectionFailed = 5"
definition FatalReservedMin :: FatalErrorCode where [simp]: "FatalReservedMin = 6"
definition FatalDeviceDefinedMin :: FatalErrorCode where [simp]: "FatalDeviceDefinedMin = 128"

definition NonFatalUnidentified :: ErrorCode where [simp]: "NonFatalUnidentified = 0"
definition NonFatalUnrecognizedMessageType :: ErrorCode where [simp]: "NonFatalUnrecognizedMessageType = 1"
definition NonFatalUnrecognizedControlCode :: ErrorCode where [simp]: "NonFatalUnrecognizedControlCode = 2"
definition NonFatalUnrecognizedVendorMsg :: ErrorCode where [simp]: "NonFatalUnrecognizedVendorMsg = 3"
definition NonFatalMessageTooLarge :: ErrorCode where [simp]: "NonFatalMessageTooLarge = 4"
definition NonFatalAuthenticationFailed :: ErrorCode where [simp]: "NonFatalAuthenticationFailed = 5"
definition NonFatalReservedMin :: ErrorCode where [simp]: "NonFatalReservedMin = 6"
definition NonFatalDeviceDefinedMin :: ErrorCode where [simp]: "NonFatalDeviceDefinedMin = 128"

definition DefaultPort :: nat where "DefaultPort = 4880"
definition DefaultSubAddress :: bytes where "DefaultSubAddress = ascii ''hislip0''"

record messageInfo =
  mi_name :: string
  mi_channel :: Channel
  mi_capability :: Capability
  mi_minVersion :: Version

abbreviation mi :: "string \<Rightarrow> Channel \<Rightarrow> Capability \<Rightarrow> Version \<Rightarrow> messageInfo" where
  "mi n ch cap v \<equiv> \<lparr>mi_name = n, mi_channel = ch, mi_capability = cap, mi_minVersion = v\<rparr>"

text \<open>The table is indexed by message type; entry \<open>i\<close> of the list is type \<open>i\<close>.\<close>

definition messages :: "messageInfo list" where
  "messages = [
    mi ''Initialize'' ChannelSynchronous CapabilityGeneral Version10,
    mi ''InitializeResponse'' ChannelSynchronous CapabilityGeneral Version10,
    mi ''FatalError'' ChannelEither CapabilityGeneral Version10,
    mi ''Error'' ChannelEither CapabilityGeneral Version10,
    mi ''AsyncLock'' ChannelAsynchronous CapabilityGeneral Version10,
    mi ''AsyncLockResponse'' ChannelAsynchronous CapabilityGeneral Version10,
    mi ''Data'' ChannelSynchronous CapabilityGeneral Version10,
    mi ''DataEnd'' ChannelSynchronous CapabilityGeneral Version10,
    mi ''DeviceClearComplete'' ChannelSynchronous CapabilityGeneral Version10,
    mi ''DeviceClearAcknowledge'' ChannelSynchronous CapabilityGeneral Version10,
    mi ''AsyncRemoteLocalControl'' ChannelAsynchronous CapabilityGeneral Version10,
    mi ''AsyncRemoteLocalResponse'' ChannelAsynchronous CapabilityGeneral Version10,
    mi ''Trigger'' ChannelSynchronous CapabilityGeneral Version10,
    mi ''Interrupted'' ChannelSynchronous CapabilityGeneral Version10,
    mi ''AsyncInterrupted'' ChannelAsynchronous CapabilityGeneral Version10,
    mi ''AsyncMaximumMessageSize'' ChannelAsynchronous CapabilityGeneral Version10,
    mi ''AsyncMaximumMessageSizeResponse'' ChannelAsynchronous CapabilityGeneral Version10,
    mi ''AsyncInitialize'' ChannelAsynchronous CapabilityGeneral Version10,
    mi ''AsyncInitializeResponse'' ChannelAsynchronous CapabilityGeneral Version10,
    mi ''AsyncDeviceClear'' ChannelAsynchronous CapabilityGeneral Version10,
    mi ''AsyncServiceRequest'' ChannelAsynchronous CapabilityGeneral Version10,
    mi ''AsyncStatusQuery'' ChannelAsynchronous CapabilityGeneral Version10,
    mi ''AsyncStatusResponse'' ChannelAsynchronous CapabilityGeneral Version10,
    mi ''AsyncDeviceClearAcknowledge'' ChannelAsynchronous CapabilityGeneral Version10,
    mi ''AsyncLockInfo'' ChannelAsynchronous CapabilityGeneral Version10,
    mi ''AsyncLockInfoResponse'' ChannelAsynchronous CapabilityGeneral Version10,
    mi ''GetDescriptors'' ChannelEither CapabilityGeneral Version20,
    mi ''GetDescriptorsResponse'' ChannelEither CapabilityGeneral Version20,
    mi ''StartTLS'' ChannelSynchronous CapabilitySecureConnection Version20,
    mi ''AsyncStartTLS'' ChannelAsynchronous CapabilitySecureConnection Version20,
    mi ''AsyncStartTLSResponse'' ChannelAsynchronous CapabilitySecureConnection Version20,
    mi ''EndTLS'' ChannelSynchronous CapabilitySecureConnection Version20,
    mi ''AsyncEndTLS'' ChannelAsynchronous CapabilitySecureConnection Version20,
    mi ''AsyncEndTLSResponse'' ChannelAsynchronous CapabilitySecureConnection Version20,
    mi ''GetSaslMechanismList'' ChannelSynchronous CapabilitySecureConnection Version20,
    mi ''GetSaslMechanismListResponse'' ChannelSynchronous CapabilitySecureConnection Version20,
    mi ''AuthenticationStart'' ChannelSynchronous CapabilitySecureConnection Version20,
    mi ''AuthenticationExchange'' ChannelSynchronous CapabilitySecureConnection Version20,
    mi ''AuthenticationResult'' ChannelSynchronous CapabilitySecureConnection Version20]"

definition MessageType_Defined :: "MessageType \<Rightarrow> bool" where
  "MessageType_Defined t \<longleftrightarrow>
     unat t < length messages \<and> mi_channel (messages ! unat t) \<noteq> ChannelNone"

definition MessageType_VendorSpecific :: "MessageType \<Rightarrow> bool" where
  "MessageType_VendorSpecific t \<longleftrightarrow> t \<ge> VendorSpecificMin"

definition MessageType_Reserved :: "MessageType \<Rightarrow> bool" where
  "MessageType_Reserved t \<longleftrightarrow> t \<ge> ReservedMin \<and> t < VendorSpecificMin"

definition MessageType_Channel :: "MessageType \<Rightarrow> Channel" where
  "MessageType_Channel t =
     (if MessageType_VendorSpecific t then ChannelEither
      else if \<not> MessageType_Defined t then ChannelNone
      else mi_channel (messages ! unat t))"

definition MessageType_LegalOn :: "MessageType \<Rightarrow> Channel \<Rightarrow> bool" where
  "MessageType_LegalOn t c =
     (if c \<noteq> ChannelSynchronous \<and> c \<noteq> ChannelAsynchronous then False
      else MessageType_Channel t = ChannelEither \<or> MessageType_Channel t = c)"

definition MessageType_MinVersion :: "MessageType \<Rightarrow> Version" where
  "MessageType_MinVersion t =
     (if \<not> MessageType_Defined t then zero_Version else mi_minVersion (messages ! unat t))"

definition MessageType_Capability :: "MessageType \<Rightarrow> Capability" where
  "MessageType_Capability t =
     (if \<not> MessageType_Defined t then CapabilityGeneral else mi_capability (messages ! unat t))"

definition MessageType_String :: "MessageType \<Rightarrow> string" where
  "MessageType_String t =
     (if MessageType_Defined t then mi_name (messages ! unat t)
      else if MessageType_VendorSpecific t then ''VendorSpecific''
      else ''Reserved'')"

section \<open>Error codes for errors (errors.go)\<close>

definition FatalCodeFor :: "gerror \<Rightarrow> FatalErrorCode \<times> bool" where
  "FatalCodeFor err =
     (if errors_Is err ErrInvalidPrologue \<or> errors_Is err ErrShortBuffer
        then (FatalPoorlyFormedHeader, True)
      else if errors_Is err ErrProtocolVersion then (FatalInvalidInitSequence, True)
      else (FatalUnidentified, False))"

definition ErrorCodeFor :: "gerror \<Rightarrow> ErrorCode" where
  "ErrorCodeFor err =
     (if errors_Is err ErrUnknownMessageType \<or> errors_Is err ErrReservedMessageType
         \<or> errors_Is err ErrWrongChannel
        then NonFatalUnrecognizedMessageType
      else if errors_Is err ErrMessageTooLarge then NonFatalMessageTooLarge
      else NonFatalUnidentified)"

section \<open>The order of versions\<close>

text \<open>Versions are linearly ordered by \<open>Version.Less\<close>, so the library's order reasoning
  applies to them, and negotiation is the minimum.\<close>

instantiation Version :: linorder
begin

definition less_Version :: "Version \<Rightarrow> Version \<Rightarrow> bool" where
  "less_Version v w \<longleftrightarrow> Version_Less v w"

definition less_eq_Version :: "Version \<Rightarrow> Version \<Rightarrow> bool" where
  "less_eq_Version v w \<longleftrightarrow> v = w \<or> Version_Less v w"

instance
  by standard
    (auto simp: less_Version_def less_eq_Version_def Version_Less_def Version.expand
      split: if_splits)

end

lemma Version_Less_less: "Version_Less v w \<longleftrightarrow> v < w"
  by (simp add: less_Version_def)

lemma Version_AtLeast_le: "Version_AtLeast v w \<longleftrightarrow> w \<le> v"
  by (auto simp: Version_AtLeast_def Version_Less_less)

lemma Negotiate_min: "Negotiate client server = min client server"
  by (auto simp: Negotiate_def Version_Less_less min_def)

lemma zero_Version_le [simp]: "Version 0 0 \<le> v"
  by (cases v) (auto simp: less_eq_Version_def Version_Less_def word_gt_0)

section \<open>The message table\<close>

lemma length_messages [simp]: "length messages = 39"
  by (simp add: messages_def)

lemma messages_have_channel: "m \<in> set messages \<Longrightarrow> mi_channel m \<noteq> ChannelNone"
  by (auto simp: messages_def)

lemma messages_min_version: "m \<in> set messages \<Longrightarrow> mi_minVersion m \<in> {Version10, Version20}"
  by (auto simp: messages_def)

lemma unat_less_39: "unat t < 39 \<longleftrightarrow> t < 39" for t :: uint8
  by (simp add: word_less_nat_alt)

lemma MessageType_Defined_iff: "MessageType_Defined t \<longleftrightarrow> t < 39"
  by (auto simp: MessageType_Defined_def unat_less_39 messages_have_channel)

lemmas MessageType_ranges =
  MessageType_Defined_iff MessageType_VendorSpecific_def MessageType_Reserved_def

text \<open>The three ranges partition the byte values: every type a header can carry is exactly one
  of defined, reserved and vendor-specific.\<close>

lemma MessageType_partition:
  "(MessageType_Defined t \<or> MessageType_Reserved t \<or> MessageType_VendorSpecific t) \<and>
   \<not> (MessageType_Defined t \<and> MessageType_Reserved t) \<and>
   \<not> (MessageType_Defined t \<and> MessageType_VendorSpecific t) \<and>
   \<not> (MessageType_Reserved t \<and> MessageType_VendorSpecific t)"
  by (simp add: MessageType_ranges word_less_nat_alt word_le_nat_alt) linarith

lemma MessageType_LegalOn_not_reserved: "MessageType_LegalOn t c \<Longrightarrow> \<not> MessageType_Reserved t"
  using MessageType_partition [of t]
  by (auto simp: MessageType_LegalOn_def MessageType_Channel_def split: if_splits)

lemma MessageType_legal_somewhere:
  "(\<exists>c. MessageType_LegalOn t c) \<longleftrightarrow> \<not> MessageType_Reserved t"
proof
  assume "\<not> MessageType_Reserved t"
  then have "MessageType_VendorSpecific t \<or> MessageType_Defined t"
    using MessageType_partition [of t] by blast
  then have "MessageType_Channel t \<noteq> ChannelNone"
    by (auto simp: MessageType_Channel_def messages_have_channel MessageType_Defined_def)
  then show "\<exists>c. MessageType_LegalOn t c"
    by (cases "MessageType_Channel t") (auto simp: MessageType_LegalOn_def)
qed (auto dest: MessageType_LegalOn_not_reserved)

lemmas message_lookup =
  MessageType_LegalOn_def MessageType_Channel_def MessageType_ranges messages_def
  MessageType_MinVersion_def

section \<open>Initialization parameters\<close>

lemma DecodeInitializeParameter_Encode:
  "DecodeInitializeParameter (EncodeInitializeParameter v vid) = (v, vid)"
  by (cases v; cases vid)
    (auto simp: DecodeInitializeParameter_def EncodeInitializeParameter_def
      versionFromParameter_def upperWord_def octet_bits intro!: bit_word_eqI
      dest: bit_imp_le_length)

lemma bit_high_16: "16 \<le> k \<Longrightarrow> \<not> bit b (k + n)" for b :: uint16
  by (auto dest: bit_imp_le_length)

lemma DecodeInitializeResponseParameter_Encode:
  "DecodeInitializeResponseParameter (EncodeInitializeResponseParameter v sid) = (v, sid)"
  by (cases v)
    (auto simp: DecodeInitializeResponseParameter_def EncodeInitializeResponseParameter_def
      versionFromParameter_def upperWord_def octet_bits bit_high_16 intro!: bit_word_eqI
      dest: bit_imp_le_length)

lemma EncodeInitializeParameter_Decode:
  "EncodeInitializeParameter (fst (DecodeInitializeParameter p)) (snd (DecodeInitializeParameter p))
     = p"
  unfolding DecodeInitializeParameter_def EncodeInitializeParameter_def
    versionFromParameter_def upperWord_def
  by (rule bit_word_eqI) (auto simp: bit_or_iff bit_octet bit_octet_low)

section \<open>Properties\<close>

text \<open>
  The initialization parameters are lossless in both directions: a server decodes from
  the Initialize parameter exactly the version and vendor ID the client encoded, any 32-bit
  parameter is re-encoded unchanged, and a client decodes from the InitializeResponse
  parameter exactly the version and session ID the server encoded.
\<close>

lemma initialize_parameters_roundtrip:
  "DecodeInitializeParameter (EncodeInitializeParameter v vid) = (v, vid) \<and>
   EncodeInitializeParameter (fst (DecodeInitializeParameter p)) (snd (DecodeInitializeParameter p)) = p \<and>
   DecodeInitializeResponseParameter (EncodeInitializeResponseParameter v sid) = (v, sid)"
  by (simp add: DecodeInitializeParameter_Encode EncodeInitializeParameter_Decode
      DecodeInitializeResponseParameter_Encode)

end
