(* ===== verification/Message_Id.thy ===== *)
theory Message_Id
  imports Message_Types
begin

text \<open>
  MessageID arithmetic: \<open>protocol/messageid.go\<close>.

  A MessageID is a 32-bit value that wraps. The counter is the client's; a server compares
  the values the counter produces with each other and with \<open>NoMessageID\<close>.
\<close>

section \<open>MessageIDs and the counter\<close>

type_synonym MessageID = uint32

definition InitialMessageID :: MessageID where "InitialMessageID = 0xffffff00"
definition NoMessageID :: MessageID where "NoMessageID = 0xffffffff"
definition StatusQueryInitialMessageID :: MessageID where
  "StatusQueryInitialMessageID = 0xfffffefe"
definition messageIDIncrement :: MessageID where "messageIDIncrement = 2"

definition MessageID_Next :: "MessageID \<Rightarrow> MessageID" where
  "MessageID_Next m = m + messageIDIncrement"

definition MessageID_Previous :: "MessageID \<Rightarrow> MessageID" where
  "MessageID_Previous m = m - messageIDIncrement"

record Counter =
  cnt_current :: MessageID
  cnt_started :: bool

definition zero_Counter :: Counter where
  "zero_Counter = \<lparr>cnt_current = 0, cnt_started = False\<rparr>"

definition Counter_Reset :: "Counter \<Rightarrow> Counter" where
  "Counter_Reset c = c\<lparr>cnt_current := InitialMessageID, cnt_started := True\<rparr>"

definition NewCounter :: Counter where
  "NewCounter = Counter_Reset zero_Counter"

text \<open>\<open>Current\<close> resets an unstarted counter, so it returns the counter too.\<close>

definition Counter_Current :: "Counter \<Rightarrow> Counter \<times> MessageID" where
  "Counter_Current c =
     (let c' = (if \<not> cnt_started c then Counter_Reset c else c) in (c', cnt_current c'))"

definition Counter_Take :: "Counter \<Rightarrow> Counter \<times> MessageID" where
  "Counter_Take c =
     (let (c', i) = Counter_Current c in (c'\<lparr>cnt_current := MessageID_Next i\<rparr>, i))"

definition Counter_Last :: "Counter \<Rightarrow> Counter \<times> MessageID" where
  "Counter_Last c = (let (c', i) = Counter_Current c in (c', MessageID_Previous i))"

text \<open>The IDs returned by successive calls of \<open>Take\<close>.\<close>

fun take_ids :: "nat \<Rightarrow> Counter \<Rightarrow> Counter \<times> MessageID list" where
  "take_ids 0 c = (c, [])"
| "take_ids (Suc n) c =
     (let (c', i) = Counter_Take c; (c'', is) = take_ids n c' in (c'', i # is))"

section \<open>Lemmas\<close>

lemmas message_id_defs =
  MessageID_Next_def MessageID_Previous_def messageIDIncrement_def InitialMessageID_def
  NoMessageID_def StatusQueryInitialMessageID_def

lemma Previous_Next [simp]: "MessageID_Previous (MessageID_Next m) = m"
  by (simp add: message_id_defs)

lemma Next_Previous [simp]: "MessageID_Next (MessageID_Previous m) = m"
  by (simp add: message_id_defs)

lemma Counter_Take_started:
  "cnt_started c \<Longrightarrow>
   Counter_Take c = (c\<lparr>cnt_current := MessageID_Next (cnt_current c)\<rparr>, cnt_current c)"
  by (simp add: Counter_Take_def Counter_Current_def)

lemma take_ids_started:
  "cnt_started c \<Longrightarrow>
   snd (take_ids n c) = map (\<lambda>k. cnt_current c + 2 * of_nat k) [0..<n] \<and>
   fst (take_ids n c) = c\<lparr>cnt_current := cnt_current c + 2 * of_nat n\<rparr>"
proof (induction n arbitrary: c)
  case 0
  then show ?case by simp
next
  case (Suc n)
  let ?c = "c\<lparr>cnt_current := MessageID_Next (cnt_current c)\<rparr>"
  have split: "[0..<Suc n] = 0 # map Suc [0..<n]"
    by (simp add: upt_conv_Cons map_Suc_upt del: upt_Suc)
  from Suc.IH [of ?c] Suc.prems show ?case
    by (simp add: Counter_Take_started split_beta Let_def split message_id_defs comp_def
        algebra_simps del: upt_Suc)
qed

lemma even_plus_twice: "even (a + 2 * b) \<longleftrightarrow> even a" for a b :: uint32
  by simp

section \<open>Properties\<close>

text \<open>
  A fresh counter numbers messages as IVI-6.1 prescribes: the \<open>n\<close>-th ID taken is
  \<open>0xffffff00 + 2n\<close> modulo \<open>2^32\<close>, the ID a status query reports is the last one taken, and
  before any message is taken it is \<open>StatusQueryInitialMessageID\<close>. No ID that is ever taken is
  \<open>NoMessageID\<close>, so a client can always tell the server's ``no message'' value apart.
\<close>

lemma counter_sequence:
  "snd (take_ids n NewCounter) = map (\<lambda>k. InitialMessageID + 2 * of_nat k) [0..<n] \<and>
   snd (Counter_Last NewCounter) = StatusQueryInitialMessageID \<and>
   snd (Counter_Last (fst (take_ids (Suc n) NewCounter))) = InitialMessageID + 2 * of_nat n \<and>
   NoMessageID \<notin> set (snd (take_ids n NewCounter))"
proof -
  have st: "cnt_started NewCounter" "cnt_current NewCounter = InitialMessageID"
    by (simp_all add: NewCounter_def Counter_Reset_def)
  note ids = take_ids_started [OF st(1), unfolded st(2)]
  have even_ids: "even (InitialMessageID + 2 * of_nat k)" for k
    by (simp add: InitialMessageID_def even_plus_twice)
  have "odd NoMessageID" by (simp add: NoMessageID_def)
  with even_ids have "NoMessageID \<noteq> InitialMessageID + 2 * of_nat k" for k by metis
  moreover have "snd (Counter_Last (fst (take_ids (Suc n) NewCounter))) = InitialMessageID + 2 * of_nat n"
    using ids [of "Suc n"] st
    by (simp add: Counter_Last_def Counter_Current_def message_id_defs del: take_ids.simps)
  moreover have "snd (Counter_Last NewCounter) = StatusQueryInitialMessageID"
    using st by (simp add: Counter_Last_def Counter_Current_def message_id_defs)
  ultimately show ?thesis using ids [of n] by auto
qed

end
