(* ===== verification/Streams.thy ===== *)
theory Streams
  imports Go_Errors
begin

text \<open>
  Byte streams: the \<open>Stream\<close> interface of \<open>server/stream.go\<close>, the standard library's
  \<open>io.ReadFull\<close>, and the in-memory streams of \<open>internal/teststream\<close>.

  A read function \<open>rd s n\<close> is \<open>Stream.Read\<close> with a buffer of \<open>n\<close> bytes: it returns the new
  stream state, the bytes delivered and the error, or \<open>None\<close> when the call blocks for ever.
  The locale \<open>byte_source\<close> states what the codec relies on: reads deliver a prefix of the
  pending content, in pieces of any size, and report the final error once it is exhausted.
  The transport of a real connection is a \<^verbatim>\<open>transport\<close>: an arbitrary script of what the
  network delivers and of which writes fail, so a statement for every transport is a
  statement for every behaviour of the peer.
\<close>

section \<open>io.ReadFull\<close>

type_synonym 's read_fun = "'s \<Rightarrow> nat \<Rightarrow> ('s \<times> bytes \<times> gerror option) option"

text \<open>The loop of \<open>io.ReadAtLeast\<close> with \<open>min = len(buf)\<close>; \<open>acc\<close> is what has been read.\<close>

partial_function (option) ReadFull_loop ::
  "'s read_fun \<Rightarrow> 's \<Rightarrow> nat \<Rightarrow> bytes \<Rightarrow> ('s \<times> bytes \<times> gerror option) option" where
  "ReadFull_loop rd s want acc =
     (if want \<le> length acc then Some (s, acc, None)
      else Option.bind (rd s (want - length acc)) (\<lambda>(s', bs, err).
        case err of
          None \<Rightarrow> ReadFull_loop rd s' want (acc @ bs)
        | Some e \<Rightarrow>
            Some (s', acc @ bs,
              if want \<le> length (acc @ bs) then None
              else if acc @ bs \<noteq> [] \<and> e = EOF then Some ErrUnexpectedEOF
              else Some e)))"

definition ReadFull :: "'s read_fun \<Rightarrow> 's \<Rightarrow> nat \<Rightarrow> ('s \<times> bytes \<times> gerror option) option" where
  "ReadFull rd s want = ReadFull_loop rd s want []"

section \<open>Transports\<close>

record transport =
  tr_in :: "bytes list"
  tr_end :: "gerror option"
  tr_out :: bytes
  tr_wfaults :: "(nat \<times> gerror) option list"
  tr_closed :: bool

fun Stream_Read :: "transport read_fun" where
  "Stream_Read s n =
     (if tr_closed s then Some (s, [], Some ErrStreamClosed)
      else case tr_in s of
        [] \<Rightarrow> map_option (\<lambda>e. (s, [], Some e)) (tr_end s)
      | seg # segs \<Rightarrow>
          if length seg \<le> n then Some (s\<lparr>tr_in := segs\<rparr>, seg, None)
          else Some (s\<lparr>tr_in := drop n seg # segs\<rparr>, take n seg, None))"

text \<open>A write either succeeds or, where the script says so, delivers a prefix and fails.\<close>

definition Stream_Write :: "transport \<Rightarrow> bytes \<Rightarrow> transport \<times> gerror option" where
  "Stream_Write s p =
     (if tr_closed s then (s, Some ErrStreamClosed)
      else case tr_wfaults s of
        [] \<Rightarrow> (s\<lparr>tr_out := tr_out s @ p\<rparr>, None)
      | None # fs \<Rightarrow> (s\<lparr>tr_out := tr_out s @ p, tr_wfaults := fs\<rparr>, None)
      | Some (k, e) # fs \<Rightarrow>
          (s\<lparr>tr_out := tr_out s @ take k p, tr_wfaults := fs\<rparr>, Some e))"

text \<open>Closing a connection twice is reported, as a network connection does.\<close>

definition Stream_Close :: "transport \<Rightarrow> transport \<times> gerror option" where
  "Stream_Close s = (s\<lparr>tr_closed := True\<rparr>, if tr_closed s then Some ErrStreamClosed else None)"

definition tr_content :: "transport \<Rightarrow> bytes" where
  "tr_content s = (if tr_closed s then [] else concat (tr_in s))"

definition tr_fin :: "transport \<Rightarrow> gerror option" where
  "tr_fin s = (if tr_closed s then Some ErrStreamClosed else tr_end s)"

definition tr_meas :: "transport \<Rightarrow> nat" where
  "tr_meas s = length (tr_in s) + length (concat (tr_in s))"

section \<open>Test streams (internal/teststream)\<close>

record Canned =
  cn_in :: bytes
  cn_out :: bytes
  cn_closed :: bool
  cn_ReadErr :: "gerror option"
  cn_WriteErr :: "gerror option"
  cn_MaxRead :: int

definition ErrClosed :: gerror where
  "ErrClosed = OtherError (ascii ''teststream: stream is closed'')"

definition NewCanned :: "bytes \<Rightarrow> Canned" where
  "NewCanned input = \<lparr>cn_in = input, cn_out = [], cn_closed = False,
     cn_ReadErr = None, cn_WriteErr = None, cn_MaxRead = 0\<rparr>"

definition Canned_Read :: "Canned read_fun" where
  "Canned_Read c n =
     (if cn_closed c then Some (c, [], Some ErrClosed)
      else case cn_ReadErr c of
        Some e \<Rightarrow> Some (c, [], Some e)
      | None \<Rightarrow>
          let n' = (if cn_MaxRead c > 0 \<and> int n > cn_MaxRead c then nat (cn_MaxRead c) else n)
          in if cn_in c = [] then Some (c, [], Some EOF)
             else Some (c\<lparr>cn_in := drop n' (cn_in c)\<rparr>, take n' (cn_in c), None))"

definition Canned_Write :: "Canned \<Rightarrow> bytes \<Rightarrow> Canned \<times> gerror option" where
  "Canned_Write c p =
     (if cn_closed c then (c, Some ErrClosed)
      else (c\<lparr>cn_out := cn_out c @ p\<rparr>, cn_WriteErr c))"

definition Canned_Close :: "Canned \<Rightarrow> Canned" where
  "Canned_Close c = c\<lparr>cn_closed := True\<rparr>"

definition Canned_Written :: "Canned \<Rightarrow> bytes" where
  "Canned_Written c = cn_out c"

definition Canned_Unread :: "Canned \<Rightarrow> bytes" where
  "Canned_Unread c = cn_in c"

definition Canned_ResetOutput :: "Canned \<Rightarrow> Canned" where
  "Canned_ResetOutput c = c\<lparr>cn_out := []\<rparr>"

definition cn_content :: "Canned \<Rightarrow> bytes" where
  "cn_content c = (if cn_closed c \<or> cn_ReadErr c \<noteq> None then [] else cn_in c)"

definition cn_fin :: "Canned \<Rightarrow> gerror option" where
  "cn_fin c = (if cn_closed c then Some ErrClosed
     else case cn_ReadErr c of Some e \<Rightarrow> Some e | None \<Rightarrow> Some EOF)"

text \<open>One direction of a \<open>Pipe\<close>: a blocking byte queue.\<close>

record pipe_buffer =
  pb_data :: bytes
  pb_closed :: bool

definition buffer_Write :: "pipe_buffer \<Rightarrow> bytes \<Rightarrow> pipe_buffer \<times> gerror option" where
  "buffer_Write b p =
     (if pb_closed b then (b, Some ErrClosed) else (b\<lparr>pb_data := pb_data b @ p\<rparr>, None))"

definition buffer_Read :: "pipe_buffer read_fun" where
  "buffer_Read b n =
     (if pb_data b = [] then (if pb_closed b then Some (b, [], Some EOF) else None)
      else Some (b\<lparr>pb_data := drop n (pb_data b)\<rparr>, take n (pb_data b), None))"

definition buffer_close :: "pipe_buffer \<Rightarrow> pipe_buffer" where
  "buffer_close b = b\<lparr>pb_closed := True\<rparr>"

definition newBuffer :: pipe_buffer where
  "newBuffer = \<lparr>pb_data = [], pb_closed = False\<rparr>"

text \<open>An end of a pipe holds the addresses of two buffers in a store. \<open>co_once\<close> is whether its
  \<open>sync.Once\<close> has run.\<close>

record Conn =
  co_read :: nat
  co_write :: nat
  co_once :: bool

type_synonym buffers = "nat \<Rightarrow> pipe_buffer"

text \<open>The new buffers are at \<open>n\<close> and \<open>n + 1\<close>.\<close>

definition Pipe :: "buffers \<Rightarrow> nat \<Rightarrow> buffers \<times> Conn \<times> Conn" where
  "Pipe h n =
     (let a2b = n; b2a = n + 1 in
      (h(a2b := newBuffer, b2a := newBuffer),
       \<lparr>co_read = b2a, co_write = a2b, co_once = False\<rparr>, \<lparr>co_read = a2b, co_write = b2a, co_once = False\<rparr>))"

definition Conn_Read :: "buffers \<Rightarrow> Conn \<Rightarrow> nat \<Rightarrow> (buffers \<times> bytes \<times> gerror option) option" where
  "Conn_Read h c n = map_option (\<lambda>(b, bs, err). (h(co_read c := b), bs, err)) (buffer_Read (h (co_read c)) n)"

definition Conn_Write :: "buffers \<Rightarrow> Conn \<Rightarrow> bytes \<Rightarrow> buffers \<times> gerror option" where
  "Conn_Write h c p = (let (b, err) = buffer_Write (h (co_write c)) p in (h(co_write c := b), err))"

definition Conn_Close :: "buffers \<Rightarrow> Conn \<Rightarrow> buffers \<times> Conn \<times> gerror option" where
  "Conn_Close h c =
     (if co_once c then (h, c, None)
      else let h = h(co_write c := buffer_close (h (co_write c)));
               h = h(co_read c := buffer_close (h (co_read c)))
           in (h, c\<lparr>co_once := True\<rparr>, None))"

definition Conn_SetDeadline :: "Conn \<Rightarrow> gerror option" where
  "Conn_SetDeadline c = None"

definition pb_fin :: "pipe_buffer \<Rightarrow> gerror option" where
  "pb_fin b = (if pb_closed b then Some EOF else None)"

section \<open>The contract of a reader\<close>

locale byte_source =
  fixes rd :: "'s read_fun"
    and content :: "'s \<Rightarrow> bytes"
    and fin :: "'s \<Rightarrow> gerror option"
    and meas :: "'s \<Rightarrow> nat"
  assumes rd_step:
    "0 < n \<Longrightarrow>
       (\<exists>s' bs. rd s n = Some (s', bs, None) \<and> length bs \<le> n \<and>
          content s = bs @ content s' \<and> fin s' = fin s \<and> meas s' < meas s) \<or>
       (content s = [] \<and>
          (case fin s of
             None \<Rightarrow> rd s n = None
           | Some e \<Rightarrow> \<exists>s'. rd s n = Some (s', [], Some e) \<and> content s' = [] \<and> fin s' = fin s))"
begin

lemma ReadFull_loop_full:
  assumes "length acc \<le> want" and "want \<le> length acc + length (content s)"
  shows "\<exists>s'. ReadFull_loop rd s want acc =
           Some (s', acc @ take (want - length acc) (content s), None) \<and>
         content s' = drop (want - length acc) (content s) \<and> fin s' = fin s"
  using assms
proof (induction "meas s" arbitrary: s acc rule: less_induct)
  case less
  show ?case
  proof (cases "length acc = want")
    case True
    then show ?thesis by (subst ReadFull_loop.simps) simp
  next
    case False
    with less.prems have pos: "0 < want - length acc" and "content s \<noteq> []" by auto
    with rd_step [OF pos, of s] obtain s' bs where
      rd: "rd s (want - length acc) = Some (s', bs, None)" and
      len: "length bs \<le> want - length acc" and
      c: "content s = bs @ content s'" and f: "fin s' = fin s" and m: "meas s' < meas s"
      by blast
    have "length (acc @ bs) \<le> want" "want \<le> length (acc @ bs) + length (content s')"
      using less.prems len c by auto
    from less.hyps [OF m this] obtain s'' where
      "ReadFull_loop rd s' want (acc @ bs) =
         Some (s'', (acc @ bs) @ take (want - length (acc @ bs)) (content s'), None)"
      "content s'' = drop (want - length (acc @ bs)) (content s')" "fin s'' = fin s'"
      by blast
    with pos rd c f len show ?thesis
      by (subst ReadFull_loop.simps) (simp add: take_append drop_append)
  qed
qed

lemma ReadFull_loop_short:
  assumes "length acc + length (content s) < want" and "fin s = Some e"
  shows "\<exists>s'. ReadFull_loop rd s want acc =
           Some (s', acc @ content s,
             Some (if acc @ content s \<noteq> [] \<and> e = EOF then ErrUnexpectedEOF else e)) \<and>
         content s' = [] \<and> fin s' = fin s"
  using assms
proof (induction "meas s" arbitrary: s acc rule: less_induct)
  case less
  then have pos: "0 < want - length acc" by simp
  from rd_step [OF pos, of s] show ?case
  proof (elim disjE exE conjE)
    fix s' bs
    assume rd: "rd s (want - length acc) = Some (s', bs, None)"
      and c: "content s = bs @ content s'" and f: "fin s' = fin s" and m: "meas s' < meas s"
    have "length (acc @ bs) + length (content s') < want" "fin s' = Some e"
      using less.prems c f by auto
    from less.hyps [OF m this] obtain s'' where
      "ReadFull_loop rd s' want (acc @ bs) = Some (s'', (acc @ bs) @ content s',
         Some (if (acc @ bs) @ content s' \<noteq> [] \<and> e = EOF then ErrUnexpectedEOF else e))"
      "content s'' = []" "fin s'' = fin s'" by blast
    with pos rd c f show ?thesis
      by (subst ReadFull_loop.simps) auto
  next
    assume "content s = []" and "case fin s of None \<Rightarrow> rd s (want - length acc) = None
      | Some e \<Rightarrow> \<exists>s'. rd s (want - length acc) = Some (s', [], Some e) \<and>
          content s' = [] \<and> fin s' = fin s"
    with less.prems pos show ?thesis
      by (subst ReadFull_loop.simps) auto
  qed
qed

lemma ReadFull_loop_blocks:
  assumes "length acc + length (content s) < want" and "fin s = None"
  shows "ReadFull_loop rd s want acc = None"
  using assms
proof (induction "meas s" arbitrary: s acc rule: less_induct)
  case less
  then have pos: "0 < want - length acc" by simp
  from rd_step [OF pos, of s] show ?case
  proof (elim disjE exE conjE)
    fix s' bs
    assume rd: "rd s (want - length acc) = Some (s', bs, None)"
      and c: "content s = bs @ content s'" and f: "fin s' = fin s" and m: "meas s' < meas s"
    have "length (acc @ bs) + length (content s') < want" "fin s' = None"
      using less.prems c f by auto
    from less.hyps [OF m this] pos rd show ?thesis
      by (subst ReadFull_loop.simps) simp
  next
    assume "case fin s of None \<Rightarrow> rd s (want - length acc) = None
      | Some e \<Rightarrow> \<exists>s'. rd s (want - length acc) = Some (s', [], Some e) \<and>
          content s' = [] \<and> fin s' = fin s"
    with less.prems pos show ?thesis
      by (subst ReadFull_loop.simps) simp
  qed
qed

lemmas ReadFull_full = ReadFull_loop_full [of "[]", simplified, folded ReadFull_def]
lemmas ReadFull_short = ReadFull_loop_short [of "[]", simplified, folded ReadFull_def]
lemmas ReadFull_blocks = ReadFull_loop_blocks [of "[]", simplified, folded ReadFull_def]

text \<open>What \<open>io.ReadFull\<close> returns depends on the pending bytes and the final error only, not on
  how the transport cuts the bytes into reads.\<close>

lemma ReadFull_spec:
  "map_option (\<lambda>(s', bs, err). (content s', bs, err)) (ReadFull rd s n) =
     (if n \<le> length (content s) then Some (drop n (content s), take n (content s), None)
      else map_option (\<lambda>e. ([], content s,
        Some (if content s \<noteq> [] \<and> e = EOF then ErrUnexpectedEOF else e))) (fin s))"
proof (cases "n \<le> length (content s)")
  case True
  then show ?thesis using ReadFull_full [of n s] by auto
next
  case False
  then have "length (content s) < n" by simp
  then show ?thesis
    using ReadFull_short [of s n] ReadFull_blocks [of s n] False by (cases "fin s") auto
qed

end

text \<open>Each stream of the repository keeps the contract.\<close>

lemma Stream_Read_progress:
  assumes "0 < n" "\<not> tr_closed s" "tr_in s = seg # segs"
  shows "\<exists>s' bs. Stream_Read s n = Some (s', bs, None) \<and> length bs \<le> n \<and>
    tr_content s = bs @ tr_content s' \<and> tr_fin s' = tr_fin s \<and> tr_meas s' < tr_meas s"
  using assms by (cases "length seg \<le> n") (simp_all add: tr_content_def tr_fin_def tr_meas_def)

interpretation tr: byte_source Stream_Read tr_content tr_fin tr_meas
proof
  fix n :: nat and s :: transport
  assume "0 < n"
  show "(\<exists>s' bs. Stream_Read s n = Some (s', bs, None) \<and> length bs \<le> n \<and>
      tr_content s = bs @ tr_content s' \<and> tr_fin s' = tr_fin s \<and> tr_meas s' < tr_meas s) \<or>
    (tr_content s = [] \<and> (case tr_fin s of None \<Rightarrow> Stream_Read s n = None
      | Some e \<Rightarrow> \<exists>s'. Stream_Read s n = Some (s', [], Some e) \<and> tr_content s' = [] \<and>
          tr_fin s' = tr_fin s))"
  proof (cases "tr_closed s \<or> tr_in s = []")
    case True
    then show ?thesis
      by (auto simp: tr_content_def tr_fin_def split: option.splits)
  next
    case False
    then show ?thesis
      using Stream_Read_progress [OF \<open>0 < n\<close>, of s] by (cases "tr_in s") blast+
  qed
qed

lemma Canned_Read_progress:
  assumes "0 < n" "\<not> cn_closed c" "cn_ReadErr c = None" "cn_in c \<noteq> []"
  shows "\<exists>c' bs. Canned_Read c n = Some (c', bs, None) \<and> length bs \<le> n \<and>
    cn_content c = bs @ cn_content c' \<and> cn_fin c' = cn_fin c \<and> length (cn_in c') < length (cn_in c)"
  using assms by (auto simp: Canned_Read_def cn_content_def cn_fin_def Let_def)

interpretation cn: byte_source Canned_Read cn_content cn_fin "\<lambda>c. length (cn_in c)"
proof
  fix n :: nat and c :: Canned
  assume "0 < n"
  show "(\<exists>c' bs. Canned_Read c n = Some (c', bs, None) \<and> length bs \<le> n \<and>
      cn_content c = bs @ cn_content c' \<and> cn_fin c' = cn_fin c \<and>
      length (cn_in c') < length (cn_in c)) \<or>
    (cn_content c = [] \<and> (case cn_fin c of None \<Rightarrow> Canned_Read c n = None
      | Some e \<Rightarrow> \<exists>c'. Canned_Read c n = Some (c', [], Some e) \<and> cn_content c' = [] \<and>
          cn_fin c' = cn_fin c))"
  proof (cases "cn_closed c \<or> cn_ReadErr c \<noteq> None \<or> cn_in c = []")
    case True
    then have "cn_content c = [] \<and> (\<exists>e. cn_fin c = Some e \<and> Canned_Read c n = Some (c, [], Some e))"
      by (cases "cn_ReadErr c") (auto simp: Canned_Read_def cn_content_def cn_fin_def Let_def)
    then show ?thesis by auto
  next
    case False
    then show ?thesis
      using Canned_Read_progress [OF \<open>0 < n\<close>, of c] by blast
  qed
qed

interpretation pb: byte_source buffer_Read pb_data pb_fin "\<lambda>b. length (pb_data b)"
proof
  fix n :: nat and b :: pipe_buffer
  assume "0 < n"
  then show "(\<exists>b' bs. buffer_Read b n = Some (b', bs, None) \<and> length bs \<le> n \<and>
      pb_data b = bs @ pb_data b' \<and> pb_fin b' = pb_fin b \<and>
      length (pb_data b') < length (pb_data b)) \<or>
    (pb_data b = [] \<and> (case pb_fin b of None \<Rightarrow> buffer_Read b n = None
      | Some e \<Rightarrow> \<exists>b'. buffer_Read b n = Some (b', [], Some e) \<and> pb_data b' = [] \<and>
          pb_fin b' = pb_fin b))"
    by (cases "pb_data b = []") (simp_all add: buffer_Read_def pb_fin_def)
qed

section \<open>Properties\<close>

text \<open>
  \<open>io.ReadFull\<close> reassembles the byte stream however it is segmented: on a connection, on
  the canned test stream (whatever \<open>MaxRead\<close>) and on a pipe, reading \<open>n\<close> bytes returns the
  first \<open>n\<close> pending bytes and leaves the rest; if fewer arrive before the stream ends it
  returns them with the stream's error, a clean end after a partial read being reported as
  \<open>io.ErrUnexpectedEOF\<close>; and it blocks only if the stream neither ends nor delivers enough.
\<close>

lemma read_full_any_segmentation:
  "map_option (\<lambda>(s', bs, err). (tr_content s', bs, err)) (ReadFull Stream_Read s n) =
     (if n \<le> length (tr_content s) then Some (drop n (tr_content s), take n (tr_content s), None)
      else map_option (\<lambda>e. ([], tr_content s,
        Some (if tr_content s \<noteq> [] \<and> e = EOF then ErrUnexpectedEOF else e))) (tr_fin s)) \<and>
   map_option (\<lambda>(c', bs, err). (cn_content c', bs, err)) (ReadFull Canned_Read c n) =
     (if n \<le> length (cn_content c) then Some (drop n (cn_content c), take n (cn_content c), None)
      else map_option (\<lambda>e. ([], cn_content c,
        Some (if cn_content c \<noteq> [] \<and> e = EOF then ErrUnexpectedEOF else e))) (cn_fin c)) \<and>
   map_option (\<lambda>(b', bs, err). (pb_data b', bs, err)) (ReadFull buffer_Read b n) =
     (if n \<le> length (pb_data b) then Some (drop n (pb_data b), take n (pb_data b), None)
      else map_option (\<lambda>e. ([], pb_data b,
        Some (if pb_data b \<noteq> [] \<and> e = EOF then ErrUnexpectedEOF else e))) (pb_fin b))"
  by (intro conjI tr.ReadFull_spec cn.ReadFull_spec pb.ReadFull_spec)

section \<open>The pipe\<close>

text \<open>
  Both ends of a pipe in any interleaving, with what each has written and read. The last
  components are the bytes end \<open>a\<close> has written, end \<open>b\<close> has read, and the same in the other direction.
\<close>

type_synonym pipe_state = "buffers \<times> Conn \<times> Conn \<times> bytes \<times> bytes \<times> bytes \<times> bytes"

inductive pipe_step :: "pipe_state \<Rightarrow> pipe_state \<Rightarrow> bool" where
  a_writes: "Conn_Write h a p = (h', None) \<Longrightarrow> pipe_step (h, a, b, wa, rb, wb, ra) (h', a, b, wa @ p, rb, wb, ra)"
| b_writes: "Conn_Write h b p = (h', None) \<Longrightarrow> pipe_step (h, a, b, wa, rb, wb, ra) (h', a, b, wa, rb, wb @ p, ra)"
| a_reads: "Conn_Read h a n = Some (h', bs, err) \<Longrightarrow> pipe_step (h, a, b, wa, rb, wb, ra) (h', a, b, wa, rb, wb, ra @ bs)"
| b_reads: "Conn_Read h b n = Some (h', bs, err) \<Longrightarrow> pipe_step (h, a, b, wa, rb, wb, ra) (h', a, b, wa, rb @ bs, wb, ra)"
| a_closes: "Conn_Close h a = (h', a', err) \<Longrightarrow> pipe_step (h, a, b, wa, rb, wb, ra) (h', a', b, wa, rb, wb, ra)"
| b_closes: "Conn_Close h b = (h', b', err) \<Longrightarrow> pipe_step (h, a, b, wa, rb, wb, ra) (h', a, b', wa, rb, wb, ra)"

definition crossed :: "pipe_state \<Rightarrow> bool" where
  "crossed = (\<lambda>(h, a, b, wa, rb, wb, ra). co_read b = co_write a \<and> co_read a = co_write b \<and> co_write a \<noteq> co_write b \<and>
     wa = rb @ pb_data (h (co_write a)) \<and> wb = ra @ pb_data (h (co_write b)))"

lemma Conn_Write_ok: "Conn_Write h c p = (h', None) \<Longrightarrow>
    h' = h(co_write c := (h (co_write c))\<lparr>pb_data := pb_data (h (co_write c)) @ p\<rparr>)"
  by (auto simp: Conn_Write_def buffer_Write_def Let_def split: if_splits)

lemma Conn_Read_ok: "Conn_Read h c n = Some (h', bs, err) \<Longrightarrow>
    \<exists>b. h' = h(co_read c := b) \<and> pb_data (h (co_read c)) = bs @ pb_data b"
  by (auto simp: Conn_Read_def buffer_Read_def split: if_splits intro!: exI [of _ "h' (co_read c)"])

lemma Conn_Close_ok: "Conn_Close h c = (h', c', err) \<Longrightarrow>
    co_read c' = co_read c \<and> co_write c' = co_write c \<and> (\<forall>i. pb_data (h' i) = pb_data (h i))"
  by (auto simp: Conn_Close_def buffer_close_def Let_def split: if_splits)

lemma crossed_step: "pipe_step s s' \<Longrightarrow> crossed s \<Longrightarrow> crossed s'"
proof (induction rule: pipe_step.induct)
qed (auto simp: crossed_def dest!: Conn_Write_ok Conn_Read_ok Conn_Close_ok)

text \<open>A pipe carries the bytes of each end to the other in order, none lost and none repeated, however reads,
  writes and the closing of either end interleave.\<close>

lemma pipe_carries_in_order:
  assumes "Pipe h n = (h0, a, b)" "pipe_step\<^sup>*\<^sup>* (h0, a, b, [], [], [], []) (h', a', b', wa, rb, wb, ra)"
  shows "wa = rb @ pb_data (h' (co_read b')) \<and> wb = ra @ pb_data (h' (co_read a'))"
proof -
  have "crossed (h0, a, b, [], [], [], [])" using assms(1) by (auto simp: Pipe_def crossed_def newBuffer_def Let_def)
  with assms(2) have "crossed (h', a', b', wa, rb, wb, ra)"
    by (induction rule: rtranclp_induct) (auto intro: crossed_step)
  then show ?thesis by (simp add: crossed_def)
qed

end
