(* ===== verification/Codec.thy ===== *)
theory Codec
  imports Message_Id Streams "HOL-Library.Sublist"
begin

text \<open>
  The header codec and the payload streaming of \<open>protocol/header.go\<close> and
  \<open>protocol/codec.go\<close>.

  The codec works on any \<open>io.Reader\<close> and \<open>io.Writer\<close>: a read function and a write function
  are arguments of the definitions. \<open>None\<close> means a read that never returns.
\<close>

section \<open>Headers (header.go)\<close>

definition HeaderSize :: nat where [simp]: "HeaderSize = 16"

definition Prologue :: bytes where [simp]: "Prologue = ascii ''HS''"

record Header =
  hType :: MessageType
  hControl :: uint8
  hParameter :: uint32
  hLength :: uint64

definition zero_Header :: Header where
  "zero_Header = \<lparr>hType = 0, hControl = 0, hParameter = 0, hLength = 0\<rparr>"

definition DecodeHeader :: "bytes \<Rightarrow> gerror + Header" where
  "DecodeHeader b =
     (if length b < HeaderSize then Inl ErrShortBuffer
      else if b ! 0 \<noteq> Prologue ! 0 \<or> b ! 1 \<noteq> Prologue ! 1 then Inl ErrInvalidPrologue
      else Inr \<lparr>hType = b ! 2, hControl = b ! 3,
                hParameter = BigEndian_Uint32 (take 4 (drop 4 b)),
                hLength = BigEndian_Uint64 (take 8 (drop 8 b))\<rparr>)"

definition header_bytes :: "Header \<Rightarrow> bytes" where
  "header_bytes h =
     Prologue @ [hType h, hControl h] @ BigEndian_PutUint32 (hParameter h)
       @ BigEndian_PutUint64 (hLength h)"

definition Header_Encode :: "Header \<Rightarrow> bytes \<Rightarrow> gerror + bytes" where
  "Header_Encode h b =
     (if length b < HeaderSize then Inl ErrShortBuffer
      else Inr (header_bytes h @ drop HeaderSize b))"

definition ReadHeader :: "'s read_fun \<Rightarrow> 's \<Rightarrow> ('s \<times> (gerror + Header)) option" where
  "ReadHeader rd s =
     Option.bind (ReadFull rd s HeaderSize) (\<lambda>(s', buf, err).
       case err of
         Some e \<Rightarrow> Some (s', Inl e)
       | None \<Rightarrow> Some (s', DecodeHeader buf))"

text \<open>A writer returns its new state and an error; the byte count of \<open>io.Writer\<close> is ignored by
  the code. The header buffer is an argument and a result because the caller owns it.\<close>

type_synonym 'w writer = "'w \<Rightarrow> bytes \<Rightarrow> 'w \<times> gerror option"

definition WriteHeader :: "'w writer \<Rightarrow> 'w \<Rightarrow> Header \<Rightarrow> bytes \<Rightarrow> 'w \<times> bytes \<times> gerror option" where
  "WriteHeader wr w h buf =
     (case Header_Encode h buf of
        Inl e \<Rightarrow> (w, buf, Some e)
      | Inr buf' \<Rightarrow> let (w', err) = wr w buf' in (w', buf', err))"

definition Header_MessageID :: "Header \<Rightarrow> MessageID" where
  "Header_MessageID h = hParameter h"

definition Header_RMTDelivered :: "Header \<Rightarrow> bool" where
  "Header_RMTDelivered h \<longleftrightarrow> hControl h AND ControlRMTDelivered \<noteq> 0"

section \<open>Payloads (codec.go)\<close>

definition CheckLength :: "uint64 \<Rightarrow> uint64 \<Rightarrow> gerror option" where
  "CheckLength n limit = (if limit \<noteq> 0 \<and> n > limit then Some ErrMessageTooLarge else None)"

text \<open>
  \<open>ReadPayload\<close> reads \<open>n\<close> bytes in chunks through \<open>scratch\<close>. The callback \<open>consume\<close> may be
  nil; it transforms a state \<open>'c\<close> and may fail. The result carries the stream, the callback's
  state, the final contents of the scratch buffer and the error.
\<close>

partial_function (option) ReadPayload_loop ::
  "'s read_fun \<Rightarrow> ('c \<Rightarrow> bytes \<Rightarrow> 'c \<times> gerror option) option \<Rightarrow>
   's \<Rightarrow> 'c \<Rightarrow> nat \<Rightarrow> bytes \<Rightarrow> ('s \<times> 'c \<times> bytes \<times> gerror option) option" where
  "ReadPayload_loop rd consume s c remaining scratch =
     (if remaining = 0 then Some (s, c, scratch, None)
      else let chunk = min remaining (length scratch) in
        Option.bind (ReadFull rd s chunk) (\<lambda>(s', bs, err).
          let scratch' = bs @ drop (length bs) scratch in
          case err of
            Some e \<Rightarrow> Some (s', c, scratch', Some e)
          | None \<Rightarrow>
              (case consume of
                 None \<Rightarrow> ReadPayload_loop rd consume s' c (remaining - chunk) scratch'
               | Some f \<Rightarrow>
                   (case f c (take chunk scratch') of
                      (c', Some e) \<Rightarrow> Some (s', c', scratch', Some e)
                    | (c', None) \<Rightarrow>
                        ReadPayload_loop rd consume s' c' (remaining - chunk) scratch'))))"

definition ReadPayload ::
  "'s read_fun \<Rightarrow> ('c \<Rightarrow> bytes \<Rightarrow> 'c \<times> gerror option) option \<Rightarrow>
   's \<Rightarrow> 'c \<Rightarrow> uint64 \<Rightarrow> bytes \<Rightarrow> ('s \<times> 'c \<times> bytes \<times> gerror option) option" where
  "ReadPayload rd consume s c n scratch =
     (if scratch = [] then Some (s, c, scratch, Some ErrShortBuffer)
      else ReadPayload_loop rd consume s c (unat n) scratch)"

definition DiscardPayload ::
  "'s read_fun \<Rightarrow> 's \<Rightarrow> uint64 \<Rightarrow> bytes \<Rightarrow> ('s \<times> bytes \<times> gerror option) option" where
  "DiscardPayload rd s n scratch =
     map_option (\<lambda>(s', _, scratch', err). (s', scratch', err)) (ReadPayload rd None s () n scratch)"

definition WriteMessage ::
  "'w writer \<Rightarrow> 'w \<Rightarrow> Header \<Rightarrow> bytes \<Rightarrow> bytes \<Rightarrow> 'w \<times> bytes \<times> gerror option" where
  "WriteMessage wr w h payload buf =
     (if hLength h \<noteq> 0 \<and> hLength h \<noteq> of_nat (length payload) then (w, buf, Some ErrPayloadLength)
      else let h = h\<lparr>hLength := of_nat (length payload)\<rparr> in
        case WriteHeader wr w h buf of
          (w', buf', Some e) \<Rightarrow> (w', buf', Some e)
        | (w', buf', None) \<Rightarrow>
            if payload = [] then (w', buf', None)
            else let (w'', err) = wr w' payload in (w'', buf', err))"

text \<open>The chunks \<open>ReadPayload\<close> hands to its callback, and the callback folded over them.\<close>

function chunks :: "nat \<Rightarrow> bytes \<Rightarrow> bytes list" where
  "chunks k xs = (if xs = [] \<or> k = 0 then [] else take k xs # chunks k (drop k xs))"
  by pat_completeness auto
termination
  by (relation "measure (\<lambda>(k, xs). length xs)") auto

declare chunks.simps [simp del]

definition feed_chunk ::
  "('c \<Rightarrow> bytes \<Rightarrow> 'c \<times> gerror option) option \<Rightarrow> 'c \<Rightarrow> bytes \<Rightarrow> 'c" where
  "feed_chunk consume c b = (case consume of None \<Rightarrow> c | Some f \<Rightarrow> fst (f c b))"

definition never_fails :: "('c \<Rightarrow> bytes \<Rightarrow> 'c \<times> gerror option) option \<Rightarrow> bool" where
  "never_fails consume \<longleftrightarrow> (\<forall>f. consume = Some f \<longrightarrow> (\<forall>c b. snd (f c b) = None))"

text \<open>The bytes of a whole message on the wire.\<close>

definition frame :: "Header \<Rightarrow> bytes \<Rightarrow> bytes" where
  "frame h payload = header_bytes (h\<lparr>hLength := of_nat (length payload)\<rparr>) @ payload"

section \<open>Header lemmas\<close>

lemma length_header_bytes [simp]: "length (header_bytes h) = 16"
  by (simp add: header_bytes_def)

lemma DecodeHeader_header_bytes [simp]: "DecodeHeader (header_bytes h @ rest) = Inr h"
  by (simp add: DecodeHeader_def header_bytes_def nth_append)

lemma DecodeHeader_header_bytes_Nil [simp]: "DecodeHeader (header_bytes h) = Inr h"
  using DecodeHeader_header_bytes [of h "[]"] by simp

lemma take_split_16:
  assumes "16 \<le> length b"
  shows "take 16 b = [b ! 0, b ! 1, b ! 2, b ! 3] @ take 4 (drop 4 b) @ take 8 (drop 8 b)"
proof -
  have "take 4 b = [b ! 0, b ! 1, b ! 2, b ! 3]"
    using assms by (simp add: take_4_nth)
  moreover have "take 16 b = take 4 b @ take 4 (drop 4 b) @ take 8 (drop 8 b)"
    by (simp add: take_add [of 4 12 b, simplified] take_add [of 4 8 "drop 4 b", simplified])
  ultimately show ?thesis by simp
qed

lemma header_bytes_DecodeHeader:
  assumes "DecodeHeader b = Inr h"
  shows "header_bytes h = take 16 b"
proof -
  from assms have len: "16 \<le> length b" and p: "b ! 0 = Prologue ! 0" "b ! 1 = Prologue ! 1"
    and h: "h = \<lparr>hType = b ! 2, hControl = b ! 3,
                hParameter = BigEndian_Uint32 (take 4 (drop 4 b)),
                hLength = BigEndian_Uint64 (take 8 (drop 8 b))\<rparr>"
    by (auto simp: DecodeHeader_def split: if_splits)
  have "length (take 4 (drop 4 b)) = 4" "length (take 8 (drop 8 b)) = 8" using len by simp_all
  then show ?thesis
    using p by (simp add: header_bytes_def h take_split_16 [OF len] PutUint32_Uint32 PutUint64_Uint64)
qed

section \<open>Payload lemmas\<close>

lemma chunks_Nil [simp]: "chunks k [] = []"
  by (simp add: chunks.simps)

lemma concat_chunks: "0 < k \<Longrightarrow> concat (chunks k xs) = xs"
proof (induction k xs rule: chunks.induct)
  case (1 k xs)
  then show ?case by (cases "xs = []") (simp_all add: chunks.simps [of k xs])
qed

lemma length_chunks: "c \<in> set (chunks k xs) \<Longrightarrow> 0 < length c \<and> length c \<le> k"
proof (induction k xs rule: chunks.induct)
  case (1 k xs)
  then show ?case
    by (cases "xs = [] \<or> k = 0") (auto simp: chunks.simps [of k xs])
qed

lemma feed_chunk_Some:
  "never_fails (Some f) \<Longrightarrow> f c b = (feed_chunk (Some f) c b, None)"
  by (simp add: never_fails_def feed_chunk_def prod_eq_iff)

lemma feed_chunk_None [simp]: "feed_chunk None c b = c"
  by (simp add: feed_chunk_def)

lemma never_fails_None [simp]: "never_fails None"
  by (simp add: never_fails_def)

context byte_source
begin

text \<open>With enough bytes pending, exactly \<open>n\<close> of them are consumed, the callback sees them in
  order, and a scratch buffer that can hold them all ends up holding them.\<close>

lemma ReadPayload_loop_full:
  assumes "scratch \<noteq> []" and "remaining \<le> length (content s)" and "never_fails consume"
  shows "\<exists>s' scratch'. ReadPayload_loop rd consume s c remaining scratch =
      Some (s', foldl (feed_chunk consume) c (chunks (length scratch) (take remaining (content s))),
        scratch', None) \<and>
    content s' = drop remaining (content s) \<and> fin s' = fin s \<and> length scratch' = length scratch \<and>
    (remaining \<le> length scratch \<longrightarrow> take remaining scratch' = take remaining (content s))"
  using assms(1,2)
proof (induction remaining arbitrary: s c scratch rule: less_induct)
  case (less remaining)
  show ?case
  proof (cases "remaining = 0")
    case True
    then show ?thesis by (subst ReadPayload_loop.simps) simp
  next
    case False
    define k where "k = min remaining (length scratch)"
    define bs where "bs = take k (content s)"
    define scr where "scr = bs @ drop (length bs) scratch"
    have k: "0 < k" "k \<le> remaining" "k \<le> length scratch" "k \<le> length (content s)"
      using False less.prems by (auto simp: k_def)
    then have bs: "length bs = k" by (simp add: bs_def)
    obtain s1 where s1: "ReadFull rd s k = Some (s1, bs, None)"
      "content s1 = drop k (content s)" "fin s1 = fin s"
      using ReadFull_full [of k s] k bs_def by blast
    have scr: "length scr = length scratch" "take k scr = bs" "scr \<noteq> []"
      using bs k less.prems by (auto simp: scr_def)
    have "remaining - k < remaining" "remaining - k \<le> length (content s1)"
      using k less.prems s1 by auto
    from less.IH [OF this(1) scr(3) this(2), of "feed_chunk consume c bs"]
    obtain s2 scr2 where step:
      "ReadPayload_loop rd consume s1 (feed_chunk consume c bs) (remaining - k) scr =
         Some (s2, foldl (feed_chunk consume) (feed_chunk consume c bs)
           (chunks (length scratch) (take (remaining - k) (content s1))), scr2, None)"
      "content s2 = drop (remaining - k) (content s1)" "fin s2 = fin s1"
      "length scr2 = length scratch"
      "remaining - k \<le> length scratch \<longrightarrow>
         take (remaining - k) scr2 = take (remaining - k) (content s1)"
      by (auto simp: scr)
    have unfold: "ReadPayload_loop rd consume s c remaining scratch =
        ReadPayload_loop rd consume s1 (feed_chunk consume c bs) (remaining - k) scr"
      using False s1 scr bs assms(3)
      by (subst ReadPayload_loop.simps)
        (cases consume, simp_all add: Let_def feed_chunk_Some scr_def flip: k_def)
    have ch: "chunks (length scratch) (take remaining (content s)) =
        bs # chunks (length scratch) (take (remaining - k) (content s1))"
      using k False less.prems s1
      by (subst chunks.simps) (auto simp: bs_def k_def min_def drop_take)
    have "take remaining scr2 = take remaining (content s)" if "remaining \<le> length scratch"
    proof -
      from that have "k = remaining" by (simp add: k_def)
      with step unfold have "scr2 = scr"
        by (subst (asm) ReadPayload_loop.simps) simp
      with \<open>k = remaining\<close> scr show ?thesis by (simp add: bs_def)
    qed
    with unfold step s1 ch k show ?thesis by simp
  qed
qed

lemma ReadPayload_full:
  assumes "scratch \<noteq> []" and "unat n \<le> length (content s)" and "never_fails consume"
  shows "\<exists>s' scratch'. ReadPayload rd consume s c n scratch =
      Some (s', foldl (feed_chunk consume) c (chunks (length scratch) (take (unat n) (content s))),
        scratch', None) \<and>
    content s' = drop (unat n) (content s) \<and> fin s' = fin s \<and> length scratch' = length scratch \<and>
    (unat n \<le> length scratch \<longrightarrow> take (unat n) scratch' = take (unat n) (content s))"
  using ReadPayload_loop_full [OF assms] assms(1) by (simp add: ReadPayload_def)

lemma ReadHeader_full:
  assumes "content s = header_bytes h @ rest"
  shows "\<exists>s'. ReadHeader rd s = Some (s', Inr h) \<and> content s' = rest \<and> fin s' = fin s"
proof -
  from ReadFull_full [of 16 s] assms obtain s' where
    "ReadFull rd s 16 = Some (s', header_bytes h, None)" "content s' = rest" "fin s' = fin s"
    by auto
  then show ?thesis by (auto simp: ReadHeader_def)
qed

end

text \<open>A write delivers a prefix of its argument, all of it unless it reports an error.\<close>

lemma Stream_Write_prefix:
  assumes "Stream_Write w p = (w', err)"
  shows "\<exists>sent. tr_out w' = tr_out w @ sent \<and> prefix sent p \<and> (err = None \<longrightarrow> sent = p)"
  using assms
  by (auto simp: Stream_Write_def take_is_prefix split: if_splits list.splits option.splits prod.splits)

lemma Stream_Write_clean:
  assumes "\<not> tr_closed w" "tr_wfaults w = []"
  shows "Stream_Write w p = (w\<lparr>tr_out := tr_out w @ p\<rparr>, None)"
  using assms by (simp add: Stream_Write_def)

lemma WriteHeader_encode:
  "length buf = 16 \<Longrightarrow>
   WriteHeader wr w h buf = (let (w', err) = wr w (header_bytes h) in (w', header_bytes h, err))"
  by (simp add: WriteHeader_def Header_Encode_def)

section \<open>Properties\<close>

text \<open>
  C20. The header codec is a bijection between headers and 16-byte strings that begin with
  ``HS'': decoding an encoded header returns it whatever follows, and whatever decodes
  re-encodes to exactly the bytes it came from. Decoding fails on nothing but a short buffer
  or a wrong prologue.
\<close>

theorem header_codec_roundtrip:
  "DecodeHeader (header_bytes h @ rest) = Inr h \<and>
   (DecodeHeader b = Inr h' \<longleftrightarrow> 16 \<le> length b \<and> take 16 b = header_bytes h') \<and>
   (\<forall>e. DecodeHeader b = Inl e \<longleftrightarrow>
      (length b < 16 \<and> e = ErrShortBuffer) \<or>
      (16 \<le> length b \<and> take 2 b \<noteq> Prologue \<and> e = ErrInvalidPrologue))"
proof -
  have two: "take 2 b = [b ! 0, b ! 1]" if "16 \<le> length b"
    using that by (simp add: take_2_nth)
  have "DecodeHeader b = Inr h' \<longleftrightarrow> 16 \<le> length b \<and> take 16 b = header_bytes h'"
  proof
    assume "DecodeHeader b = Inr h'"
    then show "16 \<le> length b \<and> take 16 b = header_bytes h'"
      using header_bytes_DecodeHeader [of b h'] by (auto simp: DecodeHeader_def split: if_splits)
  next
    assume "16 \<le> length b \<and> take 16 b = header_bytes h'"
    then show "DecodeHeader b = Inr h'"
      using DecodeHeader_header_bytes [of h' "drop 16 b"] by (metis append_take_drop_id)
  qed
  moreover have "\<forall>e. DecodeHeader b = Inl e \<longleftrightarrow>
      (length b < 16 \<and> e = ErrShortBuffer) \<or>
      (16 \<le> length b \<and> take 2 b \<noteq> Prologue \<and> e = ErrInvalidPrologue)"
    using two by (auto simp: DecodeHeader_def)
  ultimately show ?thesis by simp
qed

text \<open>
  C22. Writing a message keeps the peer synchronised. A header whose non-zero length disagrees
  with the payload is refused and nothing is written. Otherwise what reaches the wire is a
  prefix of the frame (the header with the payload's length, then the payload), it is the
  whole frame whenever no error is reported, and on a connection that is open and whose
  writes succeed no error is reported.
\<close>

theorem write_message_frames:
  assumes "length buf = 16" and "WriteMessage Stream_Write w h payload buf = (w', buf', err)"
  shows "if hLength h \<noteq> 0 \<and> hLength h \<noteq> of_nat (length payload)
         then err = Some ErrPayloadLength \<and> w' = w
         else (\<exists>sent. tr_out w' = tr_out w @ sent \<and> prefix sent (frame h payload) \<and>
                 (err = None \<longrightarrow> sent = frame h payload)) \<and>
              (\<not> tr_closed w \<and> tr_wfaults w = [] \<longrightarrow> err = None)"
proof (cases "hLength h \<noteq> 0 \<and> hLength h \<noteq> of_nat (length payload)")
  case True
  with assms show ?thesis by (simp add: WriteMessage_def)
next
  case False
  define hb where "hb = header_bytes (h\<lparr>hLength := of_nat (length payload)\<rparr>)"
  obtain w1 e1 where w1: "Stream_Write w hb = (w1, e1)" by fastforce
  obtain s1 where s1: "tr_out w1 = tr_out w @ s1" "prefix s1 hb" "e1 = None \<longrightarrow> s1 = hb"
    using Stream_Write_prefix [OF w1] by blast
  have msg: "WriteMessage Stream_Write w h payload buf =
     (case e1 of Some e \<Rightarrow> (w1, hb, Some e)
      | None \<Rightarrow> if payload = [] then (w1, hb, None)
                else let (w2, err) = Stream_Write w1 payload in (w2, hb, err))"
    using False assms(1) w1
    by (auto simp: WriteMessage_def WriteHeader_encode hb_def split: option.splits)
  have sent: "\<exists>sent. tr_out w' = tr_out w @ sent \<and> prefix sent (hb @ payload) \<and>
      (err = None \<longrightarrow> sent = hb @ payload)"
  proof (cases "e1 = None \<and> payload \<noteq> []")
    case True
    then obtain w2 e2 where w2: "Stream_Write w1 payload = (w2, e2)" by fastforce
    with Stream_Write_prefix [OF w2] True msg assms(2) s1 show ?thesis by auto
  next
    case False
    with msg assms(2) s1 show ?thesis by (auto split: option.splits intro: prefix_prefix)
  qed
  have "err = None" if "\<not> tr_closed w" "tr_wfaults w = []"
    using that msg assms(2) w1 by (auto simp: Stream_Write_clean split: if_splits)
  with sent False show ?thesis by (auto simp: frame_def hb_def)
qed

theorem write_message_frames_witness:
  "\<exists>w' buf' err. WriteMessage Stream_Write
      \<lparr>tr_in = [], tr_end = None, tr_out = [], tr_wfaults = [], tr_closed = False\<rparr>
      \<lparr>hType = 7, hControl = 1, hParameter = 5, hLength = 0\<rparr> [1, 2] (replicate 16 0) = (w', buf', err) \<and>
    err = None"
proof -
  let ?w = "\<lparr>tr_in = [], tr_end = None, tr_out = [], tr_wfaults = [], tr_closed = False\<rparr>"
  let ?h = "\<lparr>hType = 7, hControl = 1, hParameter = 5, hLength = 0\<rparr>"
  obtain w' buf' err where r:
    "WriteMessage Stream_Write ?w ?h [1, 2] (replicate 16 0) = (w', buf', err)"
    by (cases "WriteMessage Stream_Write ?w ?h [1, 2] (replicate 16 0)") auto
  from write_message_frames [OF _ r] r show ?thesis by auto
qed



end
