(* ===== verification/Policy.thy ===== *)
theory Policy
  imports Codec
begin

text \<open>
  Response policies: \<open>server/policy.go\<close>.

  A policy decides, from the bytes of a program message fed in chunks, whether the instrument
  will answer. The locale \<open>response_policy\<close> states what the server relies on: feeding two
  chunks is feeding their concatenation, and after a reset a policy behaves as a new one.
  The SCPI scanner is a loop over the bytes of a chunk; it is shown equal to a byte-at-a-time
  machine, and right on every message composed of plain text, query marks, quoted strings and
  definite-length blocks.
\<close>

section \<open>Policies\<close>

datatype Disposition = NoResponseExpected | ResponseExpected | Unknown

fun Disposition_String :: "Disposition \<Rightarrow> string" where
  "Disposition_String NoResponseExpected = ''no response expected''"
| "Disposition_String ResponseExpected = ''response expected''"
| "Disposition_String Unknown = ''unknown''"

datatype scpiState =
  scpiNormal | scpiString | scpiStringQuote | scpiHash | scpiBlockLen | scpiBlockData

record SCPIQueryPolicy =
  sp_found :: bool
  sp_state :: scpiState
  sp_quote :: byte
  sp_digits :: int
  sp_length :: uint64
  sp_remain :: uint64

definition NewSCPIQueryPolicy :: SCPIQueryPolicy where
  "NewSCPIQueryPolicy = \<lparr>sp_found = False, sp_state = scpiNormal, sp_quote = 0, sp_digits = 0,
     sp_length = 0, sp_remain = 0\<rparr>"

definition SCPIQueryPolicy_Reset :: "SCPIQueryPolicy \<Rightarrow> SCPIQueryPolicy" where
  "SCPIQueryPolicy_Reset p = NewSCPIQueryPolicy"

definition SCPIQueryPolicy_Disposition :: "SCPIQueryPolicy \<Rightarrow> Disposition" where
  "SCPIQueryPolicy_Disposition p = (if sp_found p then ResponseExpected else NoResponseExpected)"

text \<open>The loop of \<open>Feed\<close>; the list is \<open>chunk[i:]\<close>. A state that re-examines its byte keeps it.\<close>

function SCPIQueryPolicy_Feed :: "SCPIQueryPolicy \<Rightarrow> bytes \<Rightarrow> SCPIQueryPolicy" where
  "SCPIQueryPolicy_Feed p [] = p"
| "SCPIQueryPolicy_Feed p (c # cs) =
     (if sp_found p then p
      else case sp_state p of
        scpiNormal \<Rightarrow>
          SCPIQueryPolicy_Feed
            (if c = of_char (CHR ''?'') then p\<lparr>sp_found := True\<rparr>
             else if c = of_char (CHR 0x27) \<or> c = of_char (CHR 0x22)
               then p\<lparr>sp_quote := c, sp_state := scpiString\<rparr>
             else if c = of_char (CHR ''#'') then p\<lparr>sp_state := scpiHash\<rparr>
             else p) cs
      | scpiString \<Rightarrow>
          SCPIQueryPolicy_Feed
            (if c = sp_quote p then p\<lparr>sp_state := scpiStringQuote\<rparr> else p) cs
      | scpiStringQuote \<Rightarrow>
          if c = sp_quote p then SCPIQueryPolicy_Feed (p\<lparr>sp_state := scpiString\<rparr>) cs
          else SCPIQueryPolicy_Feed (p\<lparr>sp_state := scpiNormal, sp_quote := 0\<rparr>) (c # cs)
      | scpiHash \<Rightarrow>
          if c \<ge> of_char (CHR ''1'') \<and> c \<le> of_char (CHR ''9'')
          then SCPIQueryPolicy_Feed
                 (p\<lparr>sp_digits := uint (c - of_char (CHR ''0'')), sp_length := 0,
                    sp_state := scpiBlockLen\<rparr>) cs
          else SCPIQueryPolicy_Feed (p\<lparr>sp_state := scpiNormal\<rparr>) (c # cs)
      | scpiBlockLen \<Rightarrow>
          if c < of_char (CHR ''0'') \<or> c > of_char (CHR ''9'')
          then SCPIQueryPolicy_Feed (p\<lparr>sp_state := scpiNormal\<rparr>) (c # cs)
          else let p = p\<lparr>sp_length := sp_length p * 10 + ucast (c - of_char (CHR ''0'')),
                         sp_digits := sp_digits p - 1\<rparr> in
               SCPIQueryPolicy_Feed
                 (if sp_digits p = 0
                  then let p = p\<lparr>sp_remain := sp_length p, sp_state := scpiBlockData\<rparr> in
                       if sp_remain p = 0 then p\<lparr>sp_state := scpiNormal\<rparr> else p
                  else p) cs
      | scpiBlockData \<Rightarrow>
          let skip = min (unat (sp_remain p)) (length (c # cs));
              p = p\<lparr>sp_remain := sp_remain p - of_nat skip\<rparr> in
          SCPIQueryPolicy_Feed
            (if sp_remain p = 0 then p\<lparr>sp_state := scpiNormal\<rparr> else p) (drop skip (c # cs)))"
  by pat_completeness auto

termination
proof (relation "measure (\<lambda>(p, cs). 2 * length cs + (if sp_state p = scpiNormal then 0 else 1))",
    goal_cases)
  case 1
  show ?case by simp
qed (auto simp: Let_def min_def unat_gt_0 split: if_splits)

declare SCPIQueryPolicy_Feed.simps [simp del]

text \<open>The two other policies have no state.\<close>

definition AlwaysReadPolicy_Disposition :: Disposition where
  "AlwaysReadPolicy_Disposition = ResponseExpected"

definition NeverReadPolicy_Disposition :: Disposition where
  "NeverReadPolicy_Disposition = NoResponseExpected"

text \<open>The values of the \<open>ResponsePolicy\<close> interface: the three implementations of the package, or
  one supplied by the application through \<open>Config.Policy\<close>.\<close>

record 'x policy_ops =
  po_Feed :: "'x \<Rightarrow> bytes \<Rightarrow> 'x"
  po_Disposition :: "'x \<Rightarrow> Disposition"
  po_Reset :: "'x \<Rightarrow> 'x"

datatype 'x ResponsePolicy =
  SCPIQuery SCPIQueryPolicy | AlwaysRead | NeverRead | CustomPolicy 'x

definition no_policy :: "unit policy_ops" where
  "no_policy = \<lparr>po_Feed = \<lambda>x c. x, po_Disposition = \<lambda>x. NoResponseExpected, po_Reset = id\<rparr>"

fun ResponsePolicy_Feed :: "'x policy_ops \<Rightarrow> 'x ResponsePolicy \<Rightarrow> bytes \<Rightarrow> 'x ResponsePolicy" where
  "ResponsePolicy_Feed ops (SCPIQuery p) chunk = SCPIQuery (SCPIQueryPolicy_Feed p chunk)"
| "ResponsePolicy_Feed ops AlwaysRead chunk = AlwaysRead"
| "ResponsePolicy_Feed ops NeverRead chunk = NeverRead"
| "ResponsePolicy_Feed ops (CustomPolicy x) chunk = CustomPolicy (po_Feed ops x chunk)"

fun ResponsePolicy_Disposition :: "'x policy_ops \<Rightarrow> 'x ResponsePolicy \<Rightarrow> Disposition" where
  "ResponsePolicy_Disposition ops (SCPIQuery p) = SCPIQueryPolicy_Disposition p"
| "ResponsePolicy_Disposition ops AlwaysRead = AlwaysReadPolicy_Disposition"
| "ResponsePolicy_Disposition ops NeverRead = NeverReadPolicy_Disposition"
| "ResponsePolicy_Disposition ops (CustomPolicy x) = po_Disposition ops x"

fun ResponsePolicy_Reset :: "'x policy_ops \<Rightarrow> 'x ResponsePolicy \<Rightarrow> 'x ResponsePolicy" where
  "ResponsePolicy_Reset ops (SCPIQuery p) = SCPIQuery (SCPIQueryPolicy_Reset p)"
| "ResponsePolicy_Reset ops AlwaysRead = AlwaysRead"
| "ResponsePolicy_Reset ops NeverRead = NeverRead"
| "ResponsePolicy_Reset ops (CustomPolicy x) = CustomPolicy (po_Reset ops x)"

section \<open>The scanner as a byte-at-a-time machine\<close>

definition scpi_text :: "SCPIQueryPolicy \<Rightarrow> byte \<Rightarrow> SCPIQueryPolicy" where
  "scpi_text p c =
     (if c = of_char (CHR ''?'') then p\<lparr>sp_found := True\<rparr>
      else if c = of_char (CHR 0x27) \<or> c = of_char (CHR 0x22)
        then p\<lparr>sp_quote := c, sp_state := scpiString\<rparr>
      else if c = of_char (CHR ''#'') then p\<lparr>sp_state := scpiHash\<rparr>
      else p)"

definition scpi_byte :: "SCPIQueryPolicy \<Rightarrow> byte \<Rightarrow> SCPIQueryPolicy" where
  "scpi_byte p c =
     (if sp_found p then p
      else case sp_state p of
        scpiNormal \<Rightarrow> scpi_text p c
      | scpiString \<Rightarrow> if c = sp_quote p then p\<lparr>sp_state := scpiStringQuote\<rparr> else p
      | scpiStringQuote \<Rightarrow>
          if c = sp_quote p then p\<lparr>sp_state := scpiString\<rparr>
          else scpi_text (p\<lparr>sp_state := scpiNormal, sp_quote := 0\<rparr>) c
      | scpiHash \<Rightarrow>
          if c \<ge> of_char (CHR ''1'') \<and> c \<le> of_char (CHR ''9'')
          then p\<lparr>sp_digits := uint (c - of_char (CHR ''0'')), sp_length := 0, sp_state := scpiBlockLen\<rparr>
          else scpi_text (p\<lparr>sp_state := scpiNormal\<rparr>) c
      | scpiBlockLen \<Rightarrow>
          if c < of_char (CHR ''0'') \<or> c > of_char (CHR ''9'')
          then scpi_text (p\<lparr>sp_state := scpiNormal\<rparr>) c
          else let p = p\<lparr>sp_length := sp_length p * 10 + ucast (c - of_char (CHR ''0'')),
                         sp_digits := sp_digits p - 1\<rparr> in
               if sp_digits p = 0
               then p\<lparr>sp_remain := sp_length p,
                      sp_state := (if sp_length p = 0 then scpiNormal else scpiBlockData)\<rparr>
               else p
      | scpiBlockData \<Rightarrow>
          p\<lparr>sp_remain := sp_remain p - 1,
            sp_state := (if sp_remain p = 1 then scpiNormal else scpiBlockData)\<rparr>)"

definition scpi_inv :: "SCPIQueryPolicy \<Rightarrow> bool" where
  "scpi_inv p \<longleftrightarrow> (sp_state p = scpiBlockData \<longrightarrow> sp_remain p \<noteq> 0)"

lemmas scpi_simps = scpi_byte_def scpi_text_def

lemma scpi_inv_new [simp]: "scpi_inv NewSCPIQueryPolicy"
  by (simp add: scpi_inv_def NewSCPIQueryPolicy_def)

lemma scpi_inv_text: "sp_state p = scpiNormal \<Longrightarrow> scpi_inv (scpi_text p c)"
  by (simp add: scpi_inv_def scpi_text_def)

lemma scpi_inv_byte: "scpi_inv p \<Longrightarrow> scpi_inv (scpi_byte p c)"
  by (cases "sp_state p") (auto simp: scpi_byte_def scpi_inv_text Let_def,
      auto simp: scpi_inv_def)

lemma scpi_inv_bytes: "scpi_inv p \<Longrightarrow> scpi_inv (foldl scpi_byte p bs)"
  by (induction bs arbitrary: p) (auto simp: scpi_inv_byte)

lemma Feed_Nil [simp]: "SCPIQueryPolicy_Feed p [] = p"
  by (simp add: SCPIQueryPolicy_Feed.simps)

lemma Feed_found: "sp_found p \<Longrightarrow> SCPIQueryPolicy_Feed p bs = p"
  by (cases bs) (simp_all add: SCPIQueryPolicy_Feed.simps)

lemma Feed_normal:
  "\<not> sp_found p \<Longrightarrow> sp_state p = scpiNormal \<Longrightarrow>
   SCPIQueryPolicy_Feed p (c # cs) = SCPIQueryPolicy_Feed (scpi_text p c) cs"
  by (simp add: SCPIQueryPolicy_Feed.simps scpi_text_def)

lemma unat_pred: "w \<noteq> 0 \<Longrightarrow> unat (w - 1) = unat w - 1" for w :: uint64
  by (metis unat_minus_one)

lemma Feed_skip:
  assumes "\<not> sp_found p" "sp_state p = scpiBlockData" "bs \<noteq> []"
    "k = min (unat (sp_remain p)) (length bs)"
  shows "SCPIQueryPolicy_Feed p bs =
    SCPIQueryPolicy_Feed (p\<lparr>sp_remain := sp_remain p - of_nat k,
      sp_state := (if sp_remain p = of_nat k then scpiNormal else scpiBlockData)\<rparr>) (drop k bs)"
proof -
  have upd: "p\<lparr>sp_remain := r, sp_state := scpiBlockData\<rparr> = p\<lparr>sp_remain := r\<rparr>" for r
    using assms(2) by (cases p) simp
  show ?thesis
    using assms by (cases bs) (simp_all add: SCPIQueryPolicy_Feed.simps(2) Let_def upd)
qed

lemma Feed_block:
  assumes "\<not> sp_found p" "sp_state p = scpiBlockData" "sp_remain p \<noteq> 0"
  shows "SCPIQueryPolicy_Feed p (c # cs) = SCPIQueryPolicy_Feed (scpi_byte p c) cs"
proof (cases "sp_remain p = 1 \<or> cs = []")
  case True
  have "min (unat (sp_remain p)) (length (c # cs)) = 1"
    using True assms(3) unat_gt_0 [of "sp_remain p"] by (auto simp: min_def)
  with Feed_skip [OF assms(1,2), of "c # cs" 1] show ?thesis
    using assms by (simp add: scpi_byte_def)
next
  case False
  let ?r = "sp_remain p"
  define k where "k = min (unat (?r - 1)) (length cs)"
  have r: "unat (?r - 1) = unat ?r - 1" "1 < unat ?r"
    using False assms(3) unat_pred [of ?r] unat_gt_0 [of ?r] word_unat_eq_iff [of ?r 1] by auto
  have "Suc k = min (unat ?r) (length (c # cs))"
    using r by (simp add: min_def k_def) linarith
  note l = Feed_skip [OF assms(1,2) _ this, simplified]
  have b: "scpi_byte p c = p\<lparr>sp_remain := ?r - 1, sp_state := scpiBlockData\<rparr>"
    using assms False by (simp add: scpi_byte_def)
  have eq: "?r = 1 + of_nat k \<longleftrightarrow> ?r - 1 = of_nat k" by (auto simp: algebra_simps)
  show ?thesis
    using Feed_skip [of "scpi_byte p c" cs k] False assms(1)
    by (simp add: l b k_def [symmetric] eq diff_diff_eq)
qed

lemma Feed_Cons:
  assumes "scpi_inv p"
  shows "SCPIQueryPolicy_Feed p (c # cs) = SCPIQueryPolicy_Feed (scpi_byte p c) cs"
proof (cases "sp_found p")
  case True
  then show ?thesis by (simp add: Feed_found scpi_byte_def)
next
  case False
  then show ?thesis
  proof (cases "sp_state p")
    case scpiBlockData
    with False assms show ?thesis by (simp add: Feed_block scpi_inv_def)
  qed (simp_all add: SCPIQueryPolicy_Feed.simps(2) [of p] Feed_normal scpi_byte_def Let_def
      del: One_nat_def, simp_all add: scpi_text_def)
qed

lemma Feed_foldl: "scpi_inv p \<Longrightarrow> SCPIQueryPolicy_Feed p bs = foldl scpi_byte p bs"
  by (induction bs arbitrary: p) (simp_all add: Feed_Cons scpi_inv_byte)

lemma Feed_append:
  "scpi_inv p \<Longrightarrow>
   SCPIQueryPolicy_Feed p (as @ bs) = SCPIQueryPolicy_Feed (SCPIQueryPolicy_Feed p as) bs"
  by (simp add: Feed_foldl scpi_inv_bytes)

section \<open>The contract of a response policy\<close>

text \<open>What the data path relies on: the chunks of a message may be split anywhere, and after a reset
  nothing of the earlier messages is left. The laws hold on the states that \<open>inv\<close> describes.
  The function \<open>classify\<close> is how a session uses a policy: feed the chunks of a message, ask for the
  disposition, reset.\<close>

fun classify :: "('p \<Rightarrow> bytes \<Rightarrow> 'p) \<Rightarrow> ('p \<Rightarrow> Disposition) \<Rightarrow> ('p \<Rightarrow> 'p) \<Rightarrow> 'p \<Rightarrow>
    bytes list list \<Rightarrow> Disposition list" where
  "classify feed disposition reset p [] = []"
| "classify feed disposition reset p (m # ms) =
     (let p = foldl feed p m in
      disposition p # classify feed disposition reset (reset p) ms)"

locale response_policy =
  fixes inv :: "'p \<Rightarrow> bool"
    and feed :: "'p \<Rightarrow> bytes \<Rightarrow> 'p"
    and disposition :: "'p \<Rightarrow> Disposition"
    and reset :: "'p \<Rightarrow> 'p"
  assumes inv_feed: "inv p \<Longrightarrow> inv (feed p c)"
    and inv_reset: "inv p \<Longrightarrow> inv (reset p)"
    and feed_Nil: "inv p \<Longrightarrow> feed p [] = p"
    and feed_append: "inv p \<Longrightarrow> feed p (a @ b) = feed (feed p a) b"
    and reset_feed: "inv p \<Longrightarrow> reset (feed p a) = reset p"
    and reset_idem: "inv p \<Longrightarrow> reset (reset p) = reset p"
begin

lemma feed_chunks: "inv p \<Longrightarrow> foldl feed p cs = feed p (concat cs)"
  by (induction cs arbitrary: p) (auto simp: feed_Nil feed_append inv_feed)

lemma inv_chunks: "inv p \<Longrightarrow> inv (foldl feed p cs)"
  by (induction cs arbitrary: p) (auto simp: inv_feed)

lemma reset_chunks: "inv p \<Longrightarrow> reset (foldl feed p cs) = reset p"
  by (simp add: feed_chunks reset_feed)

lemma classify_messages:
  "inv p \<Longrightarrow>
   classify feed disposition reset (reset p) ms = map (\<lambda>m. disposition (feed (reset p) (concat m))) ms"
proof (induction ms)
  case (Cons m ms)
  have "reset (foldl feed (reset p) m) = reset p"
    using Cons.prems by (simp add: reset_chunks inv_reset reset_idem)
  with Cons show ?case by (simp add: Let_def feed_chunks inv_reset)
qed simp

end

text \<open>The built-in policies keep the contract; for an application's own policy it is an assumption.\<close>

fun builtin_policy :: "'x ResponsePolicy \<Rightarrow> bool" where
  "builtin_policy (SCPIQuery p) = scpi_inv p"
| "builtin_policy (CustomPolicy x) = False"
| "builtin_policy p = True"

interpretation scpi: response_policy scpi_inv SCPIQueryPolicy_Feed SCPIQueryPolicy_Disposition
  SCPIQueryPolicy_Reset
  by unfold_locales (simp_all add: Feed_append Feed_foldl scpi_inv_bytes SCPIQueryPolicy_Reset_def)

interpretation builtin: response_policy builtin_policy "ResponsePolicy_Feed ops"
  "ResponsePolicy_Disposition ops" "ResponsePolicy_Reset ops" for ops
proof (unfold_locales, goal_cases)
  case (1 p c) then show ?case by (cases p) (simp_all add: scpi.inv_feed)
next
  case (2 p) then show ?case by (cases p) (simp_all add: scpi.inv_reset)
next
  case (3 p) then show ?case by (cases p) simp_all
next
  case (4 p a b) then show ?case by (cases p) (simp_all add: Feed_append)
next
  case (5 p a) then show ?case by (cases p) (simp_all add: scpi.reset_feed)
next
  case (6 p) then show ?case by (cases p) (simp_all add: scpi.reset_idem)
qed

section \<open>What the scanner recognises\<close>

text \<open>A reference grammar of program messages: ordinary bytes, the query mark, strings in either
  quote with the quote doubled inside, a \<open>#\<close> that opens no block (a non-decimal number), and
  definite-length blocks whose decimal length has one to nine digits.\<close>

datatype lexeme =
  Plain byte | Query | Quoted byte bytes | Sharp | Block "nat list" bytes

definition special :: "byte \<Rightarrow> bool" where
  "special c \<longleftrightarrow> c \<in> {of_char (CHR ''?''), of_char (CHR 0x27), of_char (CHR 0x22), of_char (CHR ''#'')}"

definition digit :: "nat \<Rightarrow> byte" where
  "digit d = of_char (CHR ''0'') + of_nat d"

definition dec :: "nat list \<Rightarrow> nat" where
  "dec = foldl (\<lambda>n d. n * 10 + d) 0"

fun render :: "lexeme \<Rightarrow> bytes" where
  "render (Plain c) = [c]"
| "render Query = [of_char (CHR ''?'')]"
| "render (Quoted q body) = q # concat (map (\<lambda>c. if c = q then [q, q] else [c]) body) @ [q]"
| "render Sharp = [of_char (CHR ''#'')]"
| "render (Block ds body) = of_char (CHR ''#'') # digit (length ds) # map digit ds @ body"

fun lexeme_ok :: "lexeme \<Rightarrow> bool" where
  "lexeme_ok (Plain c) \<longleftrightarrow> \<not> special c"
| "lexeme_ok Query \<longleftrightarrow> True"
| "lexeme_ok (Quoted q body) \<longleftrightarrow> q = of_char (CHR 0x27) \<or> q = of_char (CHR 0x22)"
| "lexeme_ok Sharp \<longleftrightarrow> True"
| "lexeme_ok (Block ds body) \<longleftrightarrow>
     1 \<le> length ds \<and> length ds \<le> 9 \<and> (\<forall>d\<in>set ds. d < 10) \<and> dec ds = length body"

fun may_follow :: "lexeme \<Rightarrow> lexeme \<Rightarrow> bool" where
  "may_follow (Quoted q _) l = (hd (render l) \<noteq> q)"
| "may_follow Sharp l = (\<not> (of_char (CHR ''1'') \<le> hd (render l) \<and> hd (render l) \<le> of_char (CHR ''9'')))"
| "may_follow _ l = True"

fun program_message :: "lexeme list \<Rightarrow> bool" where
  "program_message [] = True"
| "program_message [l] = lexeme_ok l"
| "program_message (l # l' # ls) = (lexeme_ok l \<and> may_follow l l' \<and> program_message (l' # ls))"

fun scpi_after :: "lexeme \<Rightarrow> SCPIQueryPolicy \<Rightarrow> bool" where
  "scpi_after (Quoted q _) p = (\<not> sp_found p \<and> sp_state p = scpiStringQuote \<and> sp_quote p = q)"
| "scpi_after Sharp p = (\<not> sp_found p \<and> sp_state p = scpiHash)"
| "scpi_after Query p = sp_found p"
| "scpi_after _ p = (\<not> sp_found p \<and> sp_state p = scpiNormal)"

text \<open>The scanner is ready to read \<open>c\<close> as program text.\<close>

definition ready :: "SCPIQueryPolicy \<Rightarrow> byte \<Rightarrow> bool" where
  "ready p c \<longleftrightarrow> \<not> sp_found p \<and>
     (sp_state p = scpiNormal \<or> sp_state p = scpiStringQuote \<and> c \<noteq> sp_quote p \<or>
      sp_state p = scpiHash \<and> \<not> (of_char (CHR ''1'') \<le> c \<and> c \<le> of_char (CHR ''9'')))"

lemma scpi_found_foldl: "sp_found p \<Longrightarrow> foldl scpi_byte p bs = p"
  by (induction bs) (simp_all add: scpi_byte_def)

lemma ready_byte:
  assumes "ready p c"
  obtains p' where "scpi_byte p c = scpi_text p' c" "\<not> sp_found p'" "sp_state p' = scpiNormal"
  using assms that [of p] that [of "p\<lparr>sp_state := scpiNormal\<rparr>"]
    that [of "p\<lparr>sp_state := scpiNormal, sp_quote := 0\<rparr>"]
  by (auto simp: ready_def scpi_byte_def)

lemma dec_snoc: "dec (ds @ [d]) = dec ds * 10 + d"
  by (simp add: dec_def)

lemma dec_bound: "\<forall>d\<in>set ds. d < 10 \<Longrightarrow> dec ds < 10 ^ length ds"
proof (induction ds rule: rev_induct)
  case (snoc d ds)
  then have "dec ds + 1 \<le> 10 ^ length ds" by simp
  then have "(dec ds + 1) * 10 \<le> 10 ^ length ds * 10" by (rule mult_le_mono1)
  with snoc show ?case by (simp add: dec_snoc)
qed (simp add: dec_def)

lemma digit_range:
  assumes "d < 10"
  shows "\<not> digit d < of_char (CHR ''0'')" "\<not> of_char (CHR ''9'') < digit d"
    "digit d - of_char (CHR ''0'') = of_nat d" "0 < d \<Longrightarrow> of_char (CHR ''1'') \<le> digit d"
proof -
  have "d \<in> {0, 1, 2, 3, 4, 5, 6, 7, 8, 9}" using assms by auto
  then show "\<not> digit d < of_char (CHR ''0'')" "\<not> of_char (CHR ''9'') < digit d"
    "digit d - of_char (CHR ''0'') = of_nat d" "0 < d \<Longrightarrow> of_char (CHR ''1'') \<le> digit d"
    by (auto simp: digit_def of_char_def)
qed

lemma scpi_digits:
  assumes "\<not> sp_found p" "sp_state p = scpiBlockLen" "sp_digits p = int (length ds)" "ds \<noteq> []"
    "\<forall>d\<in>set ds. d < 10"
  shows "\<exists>p'. foldl scpi_byte p (map digit ds) = p' \<and> \<not> sp_found p' \<and>
    sp_remain p' = foldl (\<lambda>n d. n * 10 + of_nat d) (sp_length p) ds \<and>
    sp_state p' = (if sp_remain p' = 0 then scpiNormal else scpiBlockData)"
  using assms
proof (induction ds arbitrary: p)
  case (Cons d ds)
  let ?p = "p\<lparr>sp_length := sp_length p * 10 + of_nat d, sp_digits := sp_digits p - 1\<rparr>"
  have d: "d < 10" using Cons.prems by simp
  have u: "ucast (of_nat d :: byte) = (of_nat d :: uint64)"
    using d by (simp add: unsigned_of_nat take_bit_nat_eq_self)
  have step: "scpi_byte p (digit d) =
      (if sp_digits ?p = 0 then ?p\<lparr>sp_remain := sp_length ?p,
         sp_state := (if sp_length ?p = 0 then scpiNormal else scpiBlockData)\<rparr> else ?p)"
    using Cons.prems(1,2) digit_range [OF d] by (simp add: scpi_byte_def u)
  show ?case
  proof (cases "ds = []")
    case True
    then show ?thesis using Cons.prems step by simp
  next
    case False
    then have "scpi_byte p (digit d) = ?p" using Cons.prems step by simp
    then show ?thesis using Cons.IH [of ?p] Cons.prems False by simp
  qed
qed simp

lemma scpi_block_data:
  assumes "\<not> sp_found p" "sp_state p = (if sp_remain p = 0 then scpiNormal else scpiBlockData)"
    "unat (sp_remain p) = length bs"
  shows "\<not> sp_found (foldl scpi_byte p bs) \<and> sp_state (foldl scpi_byte p bs) = scpiNormal"
  using assms
proof (induction bs arbitrary: p)
  case Nil
  then show ?case by (simp add: unat_eq_0)
next
  case (Cons b bs)
  then have nz: "sp_remain p \<noteq> 0" by auto
  with Cons.prems have "unat (sp_remain p - 1) = length bs" by (simp add: unat_pred)
  with Cons.prems nz show ?case
    by (simp, intro Cons.IH) (auto simp: scpi_byte_def)
qed

lemma foldl_of_nat: "foldl (\<lambda>n d. n * 10 + of_nat d) (0 :: uint64) ds = of_nat (dec ds)"
  by (induction ds rule: rev_induct) (simp_all add: dec_def)

lemma scpi_string_body:
  assumes "\<not> sp_found p" "sp_state p = scpiString" "sp_quote p = q"
  shows "\<exists>p'. foldl scpi_byte p (concat (map (\<lambda>c. if c = q then [q, q] else [c]) body)) = p' \<and>
    \<not> sp_found p' \<and> sp_state p' = scpiString \<and> sp_quote p' = q"
  using assms
proof (induction body arbitrary: p)
  case (Cons c body)
  let ?p = "foldl scpi_byte p (if c = q then [q, q] else [c])"
  have "\<not> sp_found ?p" "sp_state ?p = scpiString" "sp_quote ?p = q"
    using Cons.prems by (auto simp: scpi_byte_def)
  from Cons.IH [OF this] show ?case by simp
qed simp

lemma scpi_block:
  assumes "lexeme_ok (Block ds body)" "\<not> sp_found p" "sp_state p = scpiHash"
  shows "scpi_after (Block ds body) (foldl scpi_byte p (digit (length ds) # map digit ds @ body))"
proof -
  let ?p = "p\<lparr>sp_digits := int (length ds), sp_length := 0, sp_state := scpiBlockLen\<rparr>"
  have n: "length ds < 10" "0 < length ds" "ds \<noteq> []" using assms(1) by auto
  have "uint (of_nat (length ds) :: byte) = int (length ds)"
    using n by (simp add: unsigned_of_nat take_bit_nat_eq_self)
  then have p: "scpi_byte p (digit (length ds)) = ?p"
    using assms(2,3) digit_range [OF n(1)] n(2) by (simp add: scpi_byte_def not_less)
  obtain p' where p': "foldl scpi_byte ?p (map digit ds) = p'" "\<not> sp_found p'"
    "sp_remain p' = of_nat (dec ds)"
    "sp_state p' = (if sp_remain p' = 0 then scpiNormal else scpiBlockData)"
    using scpi_digits [of ?p ds] assms n by (auto simp: foldl_of_nat)
  have "dec ds < 10 ^ length ds" using assms(1) by (intro dec_bound) auto
  also have "\<dots> \<le> 10 ^ 9" using n by (intro power_increasing) auto
  finally have "unat (sp_remain p') = length body"
    using p'(3) assms(1) by (simp add: unsigned_of_nat take_bit_nat_eq_self)
  from scpi_block_data [OF p'(2,4) this] show ?thesis by (simp add: p p'(1))
qed

lemma scpi_lexeme:
  assumes "lexeme_ok l" "ready p (hd (render l))"
  shows "scpi_after l (foldl scpi_byte p (render l))"
proof -
  obtain p' where p': "scpi_byte p (hd (render l)) = scpi_text p' (hd (render l))"
      "\<not> sp_found p'" "sp_state p' = scpiNormal"
    using ready_byte [OF assms(2)] .
  show ?thesis
  proof (cases l)
    case (Quoted q body)
    let ?p = "p'\<lparr>sp_quote := q, sp_state := scpiString\<rparr>"
    obtain p'' where "foldl scpi_byte ?p (concat (map (\<lambda>c. if c = q then [q, q] else [c]) body)) = p''"
      "\<not> sp_found p''" "sp_state p'' = scpiString" "sp_quote p'' = q"
      using scpi_string_body [of ?p q body] p' by auto
    moreover have "scpi_byte p q = ?p"
      using p' assms(1) Quoted by (auto simp: scpi_text_def of_char_def)
    ultimately show ?thesis using Quoted by (simp add: scpi_byte_def)
  next
    case (Block ds body)
    have "scpi_byte p (hd (render l)) = p'\<lparr>sp_state := scpiHash\<rparr>"
      using p' Block by (simp add: scpi_text_def of_char_def)
    with scpi_block [of ds body "p'\<lparr>sp_state := scpiHash\<rparr>"] show ?thesis
      using Block assms(1) p' by simp
  qed (use assms(1) p' in \<open>auto simp: scpi_text_def special_def of_char_def\<close>)
qed

lemma scpi_after_ready:
  "scpi_after l p \<Longrightarrow> l \<noteq> Query \<Longrightarrow> may_follow l l' \<Longrightarrow> ready p (hd (render l'))"
  by (cases l) (auto simp: ready_def)

lemma scpi_message:
  assumes "program_message ls" "ls \<noteq> [] \<Longrightarrow> ready p (hd (render (hd ls)))" "\<not> sp_found p"
  shows "sp_found (foldl scpi_byte p (concat (map render ls))) \<longleftrightarrow> Query \<in> set ls"
  using assms
proof (induction ls arbitrary: p rule: program_message.induct)
  case (2 l)
  then show ?case using scpi_lexeme [of l p] by (cases l) auto
next
  case (3 l l' ls)
  let ?p = "foldl scpi_byte p (render l)"
  have after: "scpi_after l ?p" using 3 by (intro scpi_lexeme) auto
  show ?case
  proof (cases "l = Query")
    case True
    with after show ?thesis by (simp add: scpi_found_foldl)
  next
    case False
    moreover have "ready ?p (hd (render l'))"
      using after False 3 by (intro scpi_after_ready) auto
    ultimately show ?thesis using 3 by (auto simp: ready_def)
  qed
qed simp

lemma ready_new: "ready NewSCPIQueryPolicy c"
  by (simp add: ready_def NewSCPIQueryPolicy_def)

text \<open>C7. The SCPI query policy decides as the grammar of program messages does: for every message
  made of ordinary bytes, query marks, quoted strings, non-decimal number prefixes and
  definite-length blocks, a response is expected exactly when there is a query mark outside the
  strings and the blocks, however the message is cut into chunks.\<close>

theorem scpi_policy_correct:
  assumes "program_message ls" "concat cs = concat (map render ls)"
  shows "SCPIQueryPolicy_Disposition (foldl SCPIQueryPolicy_Feed NewSCPIQueryPolicy cs) =
    (if Query \<in> set ls then ResponseExpected else NoResponseExpected)"
  using scpi_message [OF assms(1), of NewSCPIQueryPolicy]
  by (simp add: scpi.feed_chunks assms(2) Feed_foldl SCPIQueryPolicy_Disposition_def ready_new)
    (simp add: NewSCPIQueryPolicy_def)

lemma scpi_example:
  "program_message [Plain 65, Quoted 0x27 [63, 0x27], Plain 44, Block [3] [63, 34, 35]]"
  by (simp add: special_def of_char_def dec_def)

theorem scpi_policy_correct_witness:
  "program_message [Plain 65, Quoted 0x27 [63, 0x27], Plain 44, Block [3] [63, 34, 35]] \<and>
   SCPIQueryPolicy_Disposition (foldl SCPIQueryPolicy_Feed NewSCPIQueryPolicy
     [[65, 0x27, 63, 0x27], [0x27, 0x27, 44, 35], [49, 51, 63], [34, 35]]) = NoResponseExpected"
  using scpi_policy_correct [OF scpi_example,
      of "[[65, 0x27, 63, 0x27], [0x27, 0x27, 44, 35], [49, 51, 63], [34, 35]]"] scpi_example
  by (simp add: of_char_def digit_def)

text \<open>A session that feeds the chunks of its messages to a built-in policy and resets it after
  each message classifies every message by its own bytes alone: neither the cut into chunks nor
  the earlier messages matter.\<close>

lemma builtin_policies_per_message:
  assumes "builtin_policy p"
  shows "classify (ResponsePolicy_Feed ops) (ResponsePolicy_Disposition ops) (ResponsePolicy_Reset ops)
      (ResponsePolicy_Reset ops p) ms =
    map (\<lambda>m. ResponsePolicy_Disposition ops
      (ResponsePolicy_Feed ops (ResponsePolicy_Reset ops p) (concat m))) ms"
  using assms by (rule builtin.classify_messages)

lemma builtin_policies_per_message_witness:
  "builtin_policy (SCPIQuery NewSCPIQueryPolicy :: unit ResponsePolicy) \<and>
   classify (ResponsePolicy_Feed no_policy) (ResponsePolicy_Disposition no_policy)
      (ResponsePolicy_Reset no_policy)
      (ResponsePolicy_Reset no_policy (SCPIQuery NewSCPIQueryPolicy)) [[[0x27], [63]], [[42], [63]]] =
    [NoResponseExpected, ResponseExpected]"
proof -
  have b: "builtin_policy (SCPIQuery NewSCPIQueryPolicy :: unit ResponsePolicy)" by simp
  show ?thesis
    unfolding builtin_policies_per_message [OF b]
    by (simp add: SCPIQueryPolicy_Reset_def NewSCPIQueryPolicy_def SCPIQueryPolicy_Feed.simps
        of_char_def SCPIQueryPolicy_Disposition_def scpi_inv_def)
qed

end
