(* ===== verification/Config.thy ===== *)
theory Config
  imports Policy Codec
begin

text \<open>
  The server configuration (\<open>server/config.go\<close>) and the mapping of errors to wire codes
  (\<open>server/errors.go\<close>).

  A policy factory is represented by the policy it returns, which may be nil; a nil factory is
  \<open>None\<close>. Go strings are byte lists.
\<close>

section \<open>Configuration\<close>

record 'x Config =
  cf_SubAddresses :: "bytes list"
  cf_MaxVersion :: Version
  cf_SupportsOverlap :: bool
  cf_MaxSessions :: int
  cf_MaxRxPayload :: uint64
  cf_MaxTxPayload :: uint64
  cf_Policy :: "'x ResponsePolicy option option"
  cf_VendorID :: "byte \<times> byte"

definition zero_Config :: "'x Config" where
  "zero_Config = \<lparr>cf_SubAddresses = [], cf_MaxVersion = zero_Version, cf_SupportsOverlap = False,
     cf_MaxSessions = 0, cf_MaxRxPayload = 0, cf_MaxTxPayload = 0, cf_Policy = None,
     cf_VendorID = (0, 0)\<rparr>"

definition DefaultMaxRxPayload :: uint64 where [simp]: "DefaultMaxRxPayload = 8192"
definition DefaultMaxTxPayload :: uint64 where [simp]: "DefaultMaxTxPayload = 8192"

definition Config_withDefaults :: "'x Config \<Rightarrow> 'x Config" where
  "Config_withDefaults c =
     (let c = (if length (cf_SubAddresses c) = 0 then c\<lparr>cf_SubAddresses := [DefaultSubAddress]\<rparr> else c);
          c = (if cf_MaxVersion c = zero_Version then c\<lparr>cf_MaxVersion := Version10\<rparr> else c);
          c = (if cf_MaxSessions c = 0 then c\<lparr>cf_MaxSessions := 1\<rparr> else c);
          c = (if cf_MaxRxPayload c = 0 then c\<lparr>cf_MaxRxPayload := DefaultMaxRxPayload\<rparr> else c);
          c = (if cf_MaxTxPayload c = 0 then c\<lparr>cf_MaxTxPayload := DefaultMaxTxPayload\<rparr> else c)
      in c)"

definition Config_validate :: "'x Config \<Rightarrow> gerror option" where
  "Config_validate c =
     (if cf_MaxSessions c < 1 then Some ErrInvalidConfig
      else if Version_Less (cf_MaxVersion c) Version10 then Some ErrInvalidConfig
      else if cf_MaxRxPayload c < of_nat HeaderSize \<or> cf_MaxTxPayload c < of_nat HeaderSize
        then Some ErrInvalidConfig
      else if cf_SupportsOverlap c then Some ErrOverlapNotImplemented
      else None)"

definition Config_acceptsSubAddress :: "'x Config \<Rightarrow> bytes \<Rightarrow> bool" where
  "Config_acceptsSubAddress c sub = (if sub = [] then True else sub \<in> set (cf_SubAddresses c))"

definition Config_preferOverlapBit :: "'x Config \<Rightarrow> uint8" where
  "Config_preferOverlapBit c = (if cf_SupportsOverlap c then ControlPreferOverlap else 0)"

definition Config_featureBitmap :: "'x Config \<Rightarrow> uint8 \<Rightarrow> uint8" where
  "Config_featureBitmap c clientRequest =
     (let out = 0;
          out = (if cf_SupportsOverlap c \<and> clientRequest AND FeatureOverlapped \<noteq> 0
                 then out OR FeatureOverlapped else out)
      in out)"

section \<open>Wire errors\<close>

definition CodeHandshakeTimeout :: ErrorCode where [simp]: "CodeHandshakeTimeout = 128"
definition CodeResponseTimeout :: ErrorCode where [simp]: "CodeResponseTimeout = 129"
definition CodeNoListener :: ErrorCode where [simp]: "CodeNoListener = 130"
definition CodeNoSerialPollResponse :: ErrorCode where [simp]: "CodeNoSerialPollResponse = 131"
definition CodeUndeterminedDisposition :: ErrorCode where [simp]: "CodeUndeterminedDisposition = 132"
definition CodeInterfaceRecovering :: ErrorCode where [simp]: "CodeInterfaceRecovering = 133"

record WireError =
  we_Fatal :: bool
  we_FatalCode :: FatalErrorCode
  we_Code :: ErrorCode

definition WireErrorFor :: "gerror \<Rightarrow> WireError" where
  "WireErrorFor err =
     (case FatalCodeFor err of
        (code, True) \<Rightarrow> \<lparr>we_Fatal = True, we_FatalCode = code, we_Code = 0\<rparr>
      | (_, False) \<Rightarrow>
          if errors_Is err ErrSessionNotReady
          then \<lparr>we_Fatal = True, we_FatalCode = FatalChannelsNotEstablished, we_Code = 0\<rparr>
          else if errors_Is err ErrInvalidSession \<or> errors_Is err ErrInvalidSubAddress
            \<or> errors_Is err ErrInvalidInitSequence
          then \<lparr>we_Fatal = True, we_FatalCode = FatalInvalidInitSequence, we_Code = 0\<rparr>
          else if errors_Is err ErrMaxClients
          then \<lparr>we_Fatal = True, we_FatalCode = FatalMaxClientsExceeded, we_Code = 0\<rparr>
          else if errors_Is err ErrUnrecognizedControlCode
          then \<lparr>we_Fatal = False, we_FatalCode = 0, we_Code = NonFatalUnrecognizedControlCode\<rparr>
          else \<lparr>we_Fatal = False, we_FatalCode = 0, we_Code = ErrorCodeFor err\<rparr>)"

section \<open>Lemmas\<close>

text \<open>What a server that was constructed knows of its configuration.\<close>

definition valid_Config :: "'x Config \<Rightarrow> bool" where
  "valid_Config c \<longleftrightarrow> 1 \<le> cf_MaxSessions c \<and> Version10 \<le> cf_MaxVersion c \<and>
     16 \<le> cf_MaxRxPayload c \<and> 16 \<le> cf_MaxTxPayload c \<and> \<not> cf_SupportsOverlap c"

lemma validate_valid: "Config_validate c = None \<longleftrightarrow> valid_Config c"
  by (auto simp: Config_validate_def valid_Config_def Version_Less_less not_less
      simp del: Version10_def)

lemma withDefaults_sel [simp]:
  "cf_SubAddresses (Config_withDefaults c) =
     (if cf_SubAddresses c = [] then [DefaultSubAddress] else cf_SubAddresses c)"
  "cf_MaxVersion (Config_withDefaults c) =
     (if cf_MaxVersion c = zero_Version then Version10 else cf_MaxVersion c)"
  "cf_MaxSessions (Config_withDefaults c) = (if cf_MaxSessions c = 0 then 1 else cf_MaxSessions c)"
  "cf_MaxRxPayload (Config_withDefaults c) = (if cf_MaxRxPayload c = 0 then 8192 else cf_MaxRxPayload c)"
  "cf_MaxTxPayload (Config_withDefaults c) = (if cf_MaxTxPayload c = 0 then 8192 else cf_MaxTxPayload c)"
  "cf_SupportsOverlap (Config_withDefaults c) = cf_SupportsOverlap c"
  "cf_Policy (Config_withDefaults c) = cf_Policy c"
  "cf_VendorID (Config_withDefaults c) = cf_VendorID c"
  by (simp_all add: Config_withDefaults_def Let_def)

lemma featureBitmap_sync: "\<not> cf_SupportsOverlap c \<Longrightarrow> Config_featureBitmap c r = 0"
  by (simp add: Config_featureBitmap_def Let_def)

lemma preferOverlapBit_sync: "\<not> cf_SupportsOverlap c \<Longrightarrow> Config_preferOverlapBit c = 0"
  by (simp add: Config_preferOverlapBit_def)

text \<open>The fatal errors are exactly these, wrapped or not.\<close>

lemma WireErrorFor_fatal_iff:
  "we_Fatal (WireErrorFor e) \<longleftrightarrow>
     (\<exists>t \<in> {ErrInvalidPrologue, ErrShortBuffer, ErrProtocolVersion, ErrSessionNotReady,
            ErrInvalidSession, ErrInvalidSubAddress, ErrInvalidInitSequence, ErrMaxClients}. errors_Is e t)"
  by (auto simp: WireErrorFor_def FatalCodeFor_def)

end
