(* ===== verification/Rmt.thy ===== *)
theory Rmt
  imports Codec
begin

text \<open>
  The RMT mechanism of Synchronized Mode: \<open>server/rmt.go\<close>.

  The tracker is one bit. Its specification is stated over the history of a session: a
  response terminator is outstanding exactly when a DataEnd was sent and neither a
  synchronous message, nor a flagged status query, nor a reset has been seen since.
\<close>

section \<open>The tracker\<close>

datatype Interrupted_kind =
  NotInterrupted | InterruptedRMTMismatch | InterruptedInputQueued

fun Interrupted_String :: "Interrupted_kind \<Rightarrow> string" where
  "Interrupted_String NotInterrupted = ''not interrupted''"
| "Interrupted_String InterruptedRMTMismatch = ''interrupted: RMT-delivered disagreed with RMT-expected''"
| "Interrupted_String InterruptedInputQueued = ''interrupted: response terminator offered with input queued''"

definition Interrupted_Notifies :: "Interrupted_kind \<Rightarrow> bool" where
  "Interrupted_Notifies i \<longleftrightarrow> i = InterruptedInputQueued"

record RMT =
  rmt_expected :: bool

definition zero_RMT :: RMT where
  "zero_RMT = \<lparr>rmt_expected = False\<rparr>"

definition RMT_SentDataEnd :: "RMT \<Rightarrow> RMT" where
  "RMT_SentDataEnd r = r\<lparr>rmt_expected := True\<rparr>"

definition RMT_ReceivedSyncMessage :: "RMT \<Rightarrow> bool \<Rightarrow> RMT \<times> Interrupted_kind" where
  "RMT_ReceivedSyncMessage r rmtDelivered =
     (let mismatch = (rmt_expected r \<noteq> rmtDelivered) in
      (r\<lparr>rmt_expected := False\<rparr>, if mismatch then InterruptedRMTMismatch else NotInterrupted))"

definition RMT_ReceivedStatusQuery :: "RMT \<Rightarrow> bool \<Rightarrow> RMT" where
  "RMT_ReceivedStatusQuery r rmtDelivered = (if rmtDelivered then r\<lparr>rmt_expected := False\<rparr> else r)"

definition RMT_Reset :: "RMT \<Rightarrow> RMT" where
  "RMT_Reset r = r\<lparr>rmt_expected := False\<rparr>"

lemmas rmt_defs = zero_RMT_def RMT_SentDataEnd_def RMT_ReceivedSyncMessage_def
  RMT_ReceivedStatusQuery_def RMT_Reset_def

lemma rmt_cleared_zero [simp]: "r\<lparr>rmt_expected := False\<rparr> = zero_RMT"
  by (cases r) (simp add: zero_RMT_def)

section \<open>Histories\<close>

datatype rmt_event = SentDataEnd | SyncMessage bool | StatusQuery bool | ResetRMT

fun rmt_step :: "RMT \<Rightarrow> rmt_event \<Rightarrow> RMT \<times> Interrupted_kind" where
  "rmt_step r SentDataEnd = (RMT_SentDataEnd r, NotInterrupted)"
| "rmt_step r (SyncMessage d) = RMT_ReceivedSyncMessage r d"
| "rmt_step r (StatusQuery d) = (RMT_ReceivedStatusQuery r d, NotInterrupted)"
| "rmt_step r ResetRMT = (RMT_Reset r, NotInterrupted)"

fun rmt_run :: "RMT \<Rightarrow> rmt_event list \<Rightarrow> RMT \<times> Interrupted_kind list" where
  "rmt_run r [] = (r, [])"
| "rmt_run r (e # es) =
     (let (r', i) = rmt_step r e; (r'', is) = rmt_run r' es in (r'', i # is))"

text \<open>Events that settle an outstanding terminator.\<close>

fun settles :: "rmt_event \<Rightarrow> bool" where
  "settles SentDataEnd = False"
| "settles (SyncMessage _) = True"
| "settles (StatusQuery d) = d"
| "settles ResetRMT = True"

definition outstanding :: "rmt_event list \<Rightarrow> bool" where
  "outstanding es \<longleftrightarrow>
     (\<exists>before since. es = before @ SentDataEnd # since \<and> (\<forall>e \<in> set since. \<not> settles e))"

section \<open>Lemmas\<close>

lemma rmt_run_append:
  "rmt_run r (es @ fs) =
     (let (r', is) = rmt_run r es; (r'', js) = rmt_run r' fs in (r'', is @ js))"
  by (induction es arbitrary: r) (auto simp: split_beta Let_def)

lemma outstanding_Nil [simp]: "\<not> outstanding []"
  by (simp add: outstanding_def)

lemma outstanding_snoc:
  "outstanding (es @ [e]) \<longleftrightarrow> e = SentDataEnd \<or> (\<not> settles e \<and> outstanding es)"
proof
  assume "outstanding (es @ [e])"
  then obtain bf sc where eq: "es @ [e] = bf @ SentDataEnd # sc" and un: "\<forall>e \<in> set sc. \<not> settles e"
    by (auto simp: outstanding_def)
  show "e = SentDataEnd \<or> (\<not> settles e \<and> outstanding es)"
  proof (cases sc rule: rev_cases)
    case Nil
    with eq show ?thesis by simp
  next
    case (snoc sc' x)
    with eq un have "es = bf @ SentDataEnd # sc'" "e = x" "\<forall>e \<in> set sc'. \<not> settles e" "\<not> settles x"
      by auto
    then show ?thesis by (auto simp: outstanding_def)
  qed
next
  assume "e = SentDataEnd \<or> (\<not> settles e \<and> outstanding es)"
  then show "outstanding (es @ [e])"
  proof
    assume "e = SentDataEnd"
    then show ?thesis
      unfolding outstanding_def by (intro exI [of _ es] exI [of _ "[]"]) simp
  next
    assume "\<not> settles e \<and> outstanding es"
    then obtain bf sc where "es = bf @ SentDataEnd # sc" "\<forall>e \<in> set sc. \<not> settles e" "\<not> settles e"
      by (auto simp: outstanding_def)
    then show ?thesis
      unfolding outstanding_def by (intro exI [of _ bf] exI [of _ "sc @ [e]"]) auto
  qed
qed

lemma rmt_expected_outstanding:
  "rmt_expected (fst (rmt_run zero_RMT es)) \<longleftrightarrow> outstanding es"
proof (induction es rule: rev_induct)
  case Nil
  then show ?case by (simp add: zero_RMT_def)
next
  case (snoc e es)
  then show ?case
    by (cases e) (auto simp: rmt_run_append outstanding_snoc rmt_defs split_beta Let_def)
qed

section \<open>Properties\<close>

text \<open>
  C39. The interrupted check of IVI-6.1 section 3.1.1 is exact. After any history, a
  synchronous message is reported as interrupted exactly when its RMT-delivered flag differs
  from whether a sent terminator is still outstanding; the report is never the kind that
  notifies the client; and one client mistake yields one report, because afterwards nothing
  is outstanding until another DataEnd is sent.
\<close>

theorem rmt_detects_interrupted:
  "rmt_run zero_RMT (es @ [SyncMessage d]) =
     (zero_RMT, snd (rmt_run zero_RMT es) @
        [if d \<noteq> outstanding es then InterruptedRMTMismatch else NotInterrupted]) \<and>
   \<not> Interrupted_Notifies (snd (RMT_ReceivedSyncMessage r d)) \<and>
   \<not> outstanding (es @ [SyncMessage d])"
proof -
  obtain r' iks where run: "rmt_run zero_RMT es = (r', iks)" by fastforce
  then have "rmt_expected r' \<longleftrightarrow> outstanding es"
    using rmt_expected_outstanding [of es] by simp
  then show ?thesis
    by (auto simp: rmt_run_append run RMT_ReceivedSyncMessage_def Interrupted_Notifies_def
        outstanding_snoc Let_def)
qed

end
