(* ===== verification/Status.thy ===== *)
theory Status
  imports Codec
begin

text \<open>
  Status byte, message-available bit and service-request latch: \<open>server/status.go\<close>.

  The constant \<open>StatusMAV\<close> is bit 4 and \<open>StatusRQS\<close> bit 6 of the status byte.
\<close>

section \<open>The tracker\<close>

definition StatusMAV :: byte where "StatusMAV = push_bit 4 1"
definition StatusRQS :: byte where "StatusRQS = push_bit 6 1"

record Status =
  st_lastReceived :: MessageID
  st_responsePending :: bool
  st_srqLatched :: bool
  st_srqStatus :: byte
  st_started :: bool

definition zero_Status :: Status where
  "zero_Status = \<lparr>st_lastReceived = 0, st_responsePending = False, st_srqLatched = False,
     st_srqStatus = 0, st_started = False\<rparr>"

definition Status_Reset :: "Status \<Rightarrow> Status" where
  "Status_Reset s = s\<lparr>st_lastReceived := StatusQueryInitialMessageID, st_responsePending := False,
     st_srqLatched := False, st_srqStatus := 0, st_started := True\<rparr>"

definition NewStatus :: Status where
  "NewStatus = Status_Reset zero_Status"

definition Status_ReceivedSyncMessage :: "Status \<Rightarrow> MessageID \<Rightarrow> Status" where
  "Status_ReceivedSyncMessage s i =
     (let s' = (if \<not> st_started s then Status_Reset s else s) in s'\<lparr>st_lastReceived := i\<rparr>)"

definition Status_LastReceived :: "Status \<Rightarrow> Status \<times> MessageID" where
  "Status_LastReceived s =
     (let s' = (if \<not> st_started s then Status_Reset s else s) in (s', st_lastReceived s'))"

definition Status_SetResponsePending :: "Status \<Rightarrow> bool \<Rightarrow> Status" where
  "Status_SetResponsePending s pending = s\<lparr>st_responsePending := pending\<rparr>"

definition Status_LatchServiceRequest :: "Status \<Rightarrow> byte \<Rightarrow> Status \<times> bool" where
  "Status_LatchServiceRequest s status =
     (if st_srqLatched s then (s, False)
      else (s\<lparr>st_srqLatched := True, st_srqStatus := status\<rparr>, True))"

definition Status_TakeServiceRequest :: "Status \<Rightarrow> Status \<times> bool" where
  "Status_TakeServiceRequest s =
     (s\<lparr>st_srqLatched := False, st_srqStatus := 0\<rparr>, st_srqLatched s)"

definition Status_MAV :: "Status \<Rightarrow> MessageID \<Rightarrow> bool \<Rightarrow> Status \<times> bool" where
  "Status_MAV s queryID rmtDelivered =
     (let (s', lst) = Status_LastReceived s in
      (s', if queryID \<noteq> lst then False else if rmtDelivered then False else st_responsePending s'))"

definition Status_Byte :: "Status \<Rightarrow> byte \<Rightarrow> MessageID \<Rightarrow> bool \<Rightarrow> Status \<times> byte" where
  "Status_Byte s device queryID rmtDelivered =
     (let (s', mav) = Status_MAV s queryID rmtDelivered in
      (s', if mav then device OR StatusMAV else device AND NOT StatusMAV))"

lemmas status_defs = NewStatus_def zero_Status_def Status_Reset_def Status_ReceivedSyncMessage_def
  Status_LastReceived_def Status_SetResponsePending_def Status_LatchServiceRequest_def
  Status_TakeServiceRequest_def Status_MAV_def Status_Byte_def

section \<open>Lemmas\<close>

lemma bit_StatusMAV: "bit StatusMAV n \<longleftrightarrow> n = 4"
  by (simp only: StatusMAV_def bit_push_bit_iff bit_1_iff possible_bit_word) auto

lemma bit_StatusRQS: "bit StatusRQS n \<longleftrightarrow> n = 6"
  by (simp only: StatusRQS_def bit_push_bit_iff bit_1_iff possible_bit_word) auto

lemma st_started_ops [simp]:
  "st_started s \<Longrightarrow> st_started (Status_ReceivedSyncMessage s i)"
  "st_started s \<Longrightarrow> st_started (Status_SetResponsePending s b)"
  "st_started (Status_Reset s)"
  "st_started NewStatus"
  "st_started s \<Longrightarrow> st_started (fst (Status_TakeServiceRequest s))"
  "st_started s \<Longrightarrow> st_started (fst (Status_LatchServiceRequest s x))"
  by (simp_all add: status_defs)

lemma Status_MAV_started:
  "st_started s \<Longrightarrow>
   Status_MAV s q d = (s, q = st_lastReceived s \<and> \<not> d \<and> st_responsePending s)"
  by (simp add: status_defs)

lemma Status_Byte_started:
  "st_started s \<Longrightarrow> Status_Byte s device q d =
     (s, if q = st_lastReceived s \<and> \<not> d \<and> st_responsePending s
         then device OR StatusMAV else device AND NOT StatusMAV)"
  by (simp add: Status_Byte_def Status_MAV_started)

section \<open>Service request histories\<close>

datatype srq_event = Latch byte | Take | ResetStatus

fun srq_step :: "Status \<Rightarrow> srq_event \<Rightarrow> Status \<times> bool" where
  "srq_step s (Latch b) = Status_LatchServiceRequest s b"
| "srq_step s Take = Status_TakeServiceRequest s"
| "srq_step s ResetStatus = (Status_Reset s, False)"

fun srq_run :: "Status \<Rightarrow> srq_event list \<Rightarrow> Status" where
  "srq_run s [] = s"
| "srq_run s (e # es) = srq_run (fst (srq_step s e)) es"

lemma srq_run_append: "srq_run s (es @ fs) = srq_run (srq_run s es) fs"
  by (induction es arbitrary: s) auto

lemma srq_run_latches: "\<forall>e \<in> set es. \<exists>b. e = Latch b \<Longrightarrow> st_srqLatched s \<Longrightarrow> srq_run s es = s"
  by (induction es arbitrary: s) (auto simp: Status_LatchServiceRequest_def)

section \<open>Properties\<close>

text \<open>
  The reported status byte differs from the device's in the MAV bit only, and that bit is
  set exactly when the query names the last synchronous message, does not report the response
  as delivered, and a response is pending. It is never a function of the device's own bit 4.
\<close>

lemma status_byte_mav_only:
  assumes "st_started s" and "Status_Byte s device q d = (s', b)"
  shows "s' = s \<and> (\<forall>n. n \<noteq> 4 \<longrightarrow> bit b n = bit device n) \<and>
         (bit b 4 \<longleftrightarrow> q = st_lastReceived s \<and> \<not> d \<and> st_responsePending s)"
proof -
  have low: "bit b n \<Longrightarrow> n < 8" for b :: byte and n by (auto dest: bit_imp_le_length)
  show ?thesis
    using assms by (auto simp: Status_Byte_started bit_StatusMAV bit_simps dest: low split: if_splits)
qed

text \<open>
  Service requests coalesce: a request is new exactly when none is outstanding, the byte
  captured is that of the first request, every further request until the client polls is
  absorbed without changing it, and the poll that takes it reports it once.
\<close>

lemma service_requests_coalesce:
  assumes "\<not> st_srqLatched s" and "\<forall>e \<in> set es. \<exists>b. e = Latch b"
  shows "let (s1, fresh) = Status_LatchServiceRequest s b; s2 = srq_run s1 es;
             (s3, had) = Status_TakeServiceRequest s2 in
         fresh \<and> s2 = s1 \<and> st_srqStatus s2 = b \<and> \<not> snd (Status_LatchServiceRequest s2 b') \<and>
         had \<and> \<not> st_srqLatched s3 \<and> snd (Status_LatchServiceRequest s3 b') \<and>
         \<not> snd (Status_TakeServiceRequest s3)"
  using assms srq_run_latches [OF assms(2)]
  by (simp add: Status_LatchServiceRequest_def Status_TakeServiceRequest_def)

lemma service_requests_coalesce_witness:
  "\<not> st_srqLatched NewStatus \<and>
   srq_run (fst (Status_LatchServiceRequest NewStatus 0x50)) [Latch 1, Latch 2]
     = fst (Status_LatchServiceRequest NewStatus 0x50)"
  using service_requests_coalesce [of NewStatus "[Latch 1, Latch 2]" "0x50" 0]
  by (simp add: status_defs)

end
