(* ===== verification/Transactions.thy ===== *)
theory Transactions
  imports Codec
begin

text \<open>
  The synchronized input/response state machine: \<open>server/transaction.go\<close>.
\<close>

section \<open>The machine\<close>

datatype TxState =
    TxIdle | TxReceivingInput | TxInputComplete | TxResponsePending | TxSendingResponse
  | TxInterrupted | TxClearing | TxClosed

fun TxState_String :: "TxState \<Rightarrow> string" where
  "TxState_String TxIdle = ''idle''"
| "TxState_String TxReceivingInput = ''receiving input''"
| "TxState_String TxInputComplete = ''input complete''"
| "TxState_String TxResponsePending = ''response pending''"
| "TxState_String TxSendingResponse = ''sending response''"
| "TxState_String TxInterrupted = ''interrupted''"
| "TxState_String TxClearing = ''clearing''"
| "TxState_String TxClosed = ''closed''"

fun txTransitions :: "TxState \<Rightarrow> TxState list" where
  "txTransitions TxIdle = [TxReceivingInput, TxInputComplete]"
| "txTransitions TxReceivingInput = [TxReceivingInput, TxInputComplete, TxInterrupted]"
| "txTransitions TxInputComplete = [TxResponsePending, TxIdle, TxReceivingInput, TxInterrupted]"
| "txTransitions TxResponsePending = [TxSendingResponse, TxIdle, TxInterrupted]"
| "txTransitions TxSendingResponse = [TxSendingResponse, TxIdle, TxInterrupted]"
| "txTransitions TxInterrupted = [TxIdle]"
| "txTransitions TxClearing = [TxIdle]"
| "txTransitions TxClosed = []"

record Transaction =
  tx_state :: TxState
  tx_id :: MessageID

definition zero_Transaction :: Transaction where
  "zero_Transaction = \<lparr>tx_state = TxIdle, tx_id = 0\<rparr>"

definition selfEdge :: "TxState \<Rightarrow> bool" where
  "selfEdge s \<longleftrightarrow> s = TxReceivingInput \<or> s = TxSendingResponse"

definition Transaction_To :: "Transaction \<Rightarrow> TxState \<Rightarrow> Transaction \<times> gerror option" where
  "Transaction_To t next =
     (if next = tx_state t \<and> \<not> selfEdge (tx_state t) then (t, Some ErrInvalidTransition)
      else if next = TxClearing \<or> next = TxClosed then (t\<lparr>tx_state := next\<rparr>, None)
      else if tx_state t = TxClosed then (t, Some ErrInvalidTransition)
      else if next \<in> set (txTransitions (tx_state t)) then (t\<lparr>tx_state := next\<rparr>, None)
      else (t, Some ErrInvalidTransition))"

definition Transaction_BeginInput :: "Transaction \<Rightarrow> Transaction \<times> gerror option" where
  "Transaction_BeginInput t = Transaction_To t TxReceivingInput"

definition Transaction_CompleteInput :: "Transaction \<Rightarrow> MessageID \<Rightarrow> Transaction \<times> gerror option" where
  "Transaction_CompleteInput t i =
     (case Transaction_To t TxInputComplete of
        (t', Some e) \<Rightarrow> (t', Some e)
      | (t', None) \<Rightarrow> (t'\<lparr>tx_id := i\<rparr>, None))"

definition Transaction_ExpectResponse :: "Transaction \<Rightarrow> Transaction \<times> gerror option" where
  "Transaction_ExpectResponse t = Transaction_To t TxResponsePending"

definition Transaction_BeginResponse :: "Transaction \<Rightarrow> Transaction \<times> gerror option" where
  "Transaction_BeginResponse t = Transaction_To t TxSendingResponse"

definition Transaction_Complete :: "Transaction \<Rightarrow> Transaction \<times> gerror option" where
  "Transaction_Complete t =
     (case Transaction_To t TxIdle of
        (t', Some e) \<Rightarrow> (t', Some e)
      | (t', None) \<Rightarrow> (t'\<lparr>tx_id := NoMessageID\<rparr>, None))"

definition Transaction_Interrupt :: "Transaction \<Rightarrow> Transaction \<times> gerror option" where
  "Transaction_Interrupt t = Transaction_To t TxInterrupted"

definition Transaction_Clear :: "Transaction \<Rightarrow> Transaction \<times> gerror option" where
  "Transaction_Clear t = Transaction_To t TxClearing"

definition Transaction_Reset :: "Transaction \<Rightarrow> Transaction" where
  "Transaction_Reset t = t\<lparr>tx_state := TxIdle, tx_id := NoMessageID\<rparr>"

definition Transaction_Close :: "Transaction \<Rightarrow> Transaction" where
  "Transaction_Close t = t\<lparr>tx_state := TxClosed, tx_id := NoMessageID\<rparr>"

lemmas tx_op_defs = Transaction_BeginInput_def Transaction_CompleteInput_def
  Transaction_ExpectResponse_def Transaction_BeginResponse_def Transaction_Complete_def
  Transaction_Interrupt_def Transaction_Clear_def Transaction_Reset_def Transaction_Close_def

lemmas tx_To = Transaction_To_def selfEdge_def

section \<open>Edges and paths\<close>

text \<open>The edges the machine really has.\<close>

inductive tx_edge :: "TxState \<Rightarrow> TxState \<Rightarrow> bool" where
  declared: "s' \<in> set (txTransitions s) \<Longrightarrow> tx_edge s s'"
| clearing: "s \<noteq> TxClearing \<Longrightarrow> tx_edge s TxClearing"
| closing: "s \<noteq> TxClosed \<Longrightarrow> tx_edge s TxClosed"

inductive_cases tx_edge_to_sending: "tx_edge s TxSendingResponse"
inductive_cases tx_edge_to_pending: "tx_edge s TxResponsePending"

text \<open>The states a transaction goes through when \<open>To\<close> is called with each of a list of
  targets and refused calls leave it where it is.\<close>

fun tx_path :: "Transaction \<Rightarrow> TxState list \<Rightarrow> TxState list" where
  "tx_path t [] = []"
| "tx_path t (n # ns) =
     (case Transaction_To t n of
        (t', None) \<Rightarrow> n # tx_path t' ns
      | (t', Some _) \<Rightarrow> tx_path t' ns)"

section \<open>Lemmas\<close>

lemma txTransitions_no_clear_close: "TxClearing \<notin> set (txTransitions s)" "TxClosed \<notin> set (txTransitions s)"
  by (cases s; simp)+

lemma txTransitions_self: "s \<in> set (txTransitions s) \<longleftrightarrow> selfEdge s"
  by (cases s) (simp_all add: selfEdge_def)

lemma tx_edge_iff:
  "tx_edge s s' \<longleftrightarrow> s' \<in> set (txTransitions s) \<or> (s' = TxClearing \<and> s \<noteq> TxClearing) \<or>
     (s' = TxClosed \<and> s \<noteq> TxClosed)"
  by (auto simp: tx_edge.simps)

lemma Transaction_To_edge:
  "Transaction_To t n =
     (if tx_edge (tx_state t) n then (t\<lparr>tx_state := n\<rparr>, None) else (t, Some ErrInvalidTransition))"
proof (cases "n = tx_state t")
  case True
  then show ?thesis
    by (cases "tx_state t") (simp_all add: Transaction_To_def tx_edge_iff selfEdge_def)
next
  case False
  then show ?thesis
    by (cases "tx_state t = TxClosed") (auto simp: Transaction_To_def tx_edge_iff)
qed

lemma sending_preds: "tx_edge s TxSendingResponse \<Longrightarrow> s = TxResponsePending \<or> s = TxSendingResponse"
  by (cases s) (auto simp: tx_edge_iff)

lemma pending_preds: "tx_edge s TxResponsePending \<Longrightarrow> s = TxInputComplete"
  by (cases s) (auto simp: tx_edge_iff)

lemma complete_preds: "tx_edge s TxInputComplete \<Longrightarrow> s = TxIdle \<or> s = TxReceivingInput"
  by (cases s) (auto simp: tx_edge_iff)

text \<open>A path is a chain of edges.\<close>

fun edges_from :: "TxState \<Rightarrow> TxState list \<Rightarrow> bool" where
  "edges_from s [] = True"
| "edges_from s (n # ns) \<longleftrightarrow> tx_edge s n \<and> edges_from n ns"

lemma tx_path_edges: "edges_from (tx_state t) (tx_path t ns)"
  by (induction t ns rule: tx_path.induct) (auto simp: Transaction_To_edge)

lemma edges_from_snoc:
  "edges_from s (ns @ [n]) \<longleftrightarrow> edges_from s ns \<and> tx_edge (last (s # ns)) n"
  by (induction ns arbitrary: s) auto

lemma edges_to_pending:
  assumes "edges_from TxIdle (ns @ [TxResponsePending])"
  shows "\<exists>bf. ns = bf @ [TxInputComplete]"
proof -
  from assms have "last (TxIdle # ns) = TxInputComplete"
    by (auto simp: edges_from_snoc dest: pending_preds)
  then show ?thesis by (cases ns rule: rev_cases) (auto split: if_splits)
qed

lemma edges_to_sending:
  "edges_from TxIdle (ns @ [TxSendingResponse]) \<Longrightarrow>
   \<exists>bf k. ns = bf @ [TxInputComplete, TxResponsePending] @ replicate k TxSendingResponse"
proof (induction ns rule: rev_induct)
  case Nil
  then show ?case by (auto simp: tx_edge_iff)
next
  case (snoc n ns)
  then have e: "edges_from TxIdle (ns @ [n])" "tx_edge n TxSendingResponse"
    using edges_from_snoc [of TxIdle "ns @ [n]" TxSendingResponse] by simp_all
  from sending_preds [OF e(2)] show ?case
  proof
    assume "n = TxResponsePending"
    with e edges_to_pending [of ns] obtain bf where "ns = bf @ [TxInputComplete]" by auto
    with \<open>n = TxResponsePending\<close> have
      "ns @ [n] = bf @ [TxInputComplete, TxResponsePending] @ replicate 0 TxSendingResponse" by simp
    then show ?thesis by blast
  next
    assume n: "n = TxSendingResponse"
    with snoc.IH e obtain bf k where
      "ns = bf @ [TxInputComplete, TxResponsePending] @ replicate k TxSendingResponse" by blast
    then have "ns @ [n] = bf @ [TxInputComplete, TxResponsePending] @ replicate (Suc k) TxSendingResponse"
      by (simp add: n replicate_append_same)
    then show ?thesis by blast
  qed
qed

text \<open>The operations in closed form.\<close>

lemma tx_moves:
  "Transaction_BeginInput t =
     (if tx_state t \<in> {TxIdle, TxReceivingInput, TxInputComplete}
      then (t\<lparr>tx_state := TxReceivingInput\<rparr>, None) else (t, Some ErrInvalidTransition))"
  "Transaction_CompleteInput t i =
     (if tx_state t \<in> {TxIdle, TxReceivingInput}
      then (t\<lparr>tx_state := TxInputComplete, tx_id := i\<rparr>, None) else (t, Some ErrInvalidTransition))"
  "Transaction_ExpectResponse t =
     (if tx_state t = TxInputComplete
      then (t\<lparr>tx_state := TxResponsePending\<rparr>, None) else (t, Some ErrInvalidTransition))"
  "Transaction_BeginResponse t =
     (if tx_state t \<in> {TxResponsePending, TxSendingResponse}
      then (t\<lparr>tx_state := TxSendingResponse\<rparr>, None) else (t, Some ErrInvalidTransition))"
  "Transaction_Complete t =
     (if tx_state t \<in> {TxIdle, TxReceivingInput, TxClosed} then (t, Some ErrInvalidTransition)
      else (t\<lparr>tx_state := TxIdle, tx_id := NoMessageID\<rparr>, None))"
  "Transaction_Interrupt t =
     (if tx_state t \<in> {TxReceivingInput, TxInputComplete, TxResponsePending, TxSendingResponse}
      then (t\<lparr>tx_state := TxInterrupted\<rparr>, None) else (t, Some ErrInvalidTransition))"
  "Transaction_Clear t =
     (if tx_state t = TxClearing then (t, Some ErrInvalidTransition)
      else (t\<lparr>tx_state := TxClearing\<rparr>, None))"
  by (cases "tx_state t"; simp add: tx_op_defs Transaction_To_edge tx_edge_iff)+

section \<open>Properties\<close>

text \<open>
  \<open>To\<close> implements exactly the declared diagram: it moves along the listed edges and into
  Clearing and Closed from every other state, refuses everything else with
  \<open>ErrInvalidTransition\<close> leaving the transaction untouched, and never changes the MessageID.
  A closed transaction can leave Closed only through Clearing.
\<close>

lemma transaction_edges:
  "Transaction_To t n =
     (if tx_edge (tx_state t) n then (t\<lparr>tx_state := n\<rparr>, None) else (t, Some ErrInvalidTransition)) \<and>
   (tx_edge TxClosed n \<longleftrightarrow> n = TxClearing) \<and> (tx_edge TxClearing n \<longleftrightarrow> n \<in> {TxIdle, TxClosed})"
  by (cases n) (simp_all add: Transaction_To_edge tx_edge_iff)

text \<open>
  C38. Responses follow complete input: whatever sequence of moves is attempted on a fresh
  transaction, whenever it reaches SendingResponse it went, without leaving the cycle, through
  InputComplete and then ResponsePending, and since then only through SendingResponse.
\<close>

theorem response_follows_input:
  assumes "tx_path zero_Transaction ns = states @ [TxSendingResponse]"
  shows "\<exists>bf k. states = bf @ [TxInputComplete, TxResponsePending] @ replicate k TxSendingResponse"
proof -
  have "edges_from TxIdle (states @ [TxSendingResponse])"
    using tx_path_edges [of zero_Transaction ns] assms by (simp add: zero_Transaction_def)
  then show ?thesis by (rule edges_to_sending)
qed

theorem response_follows_input_witness:
  "tx_path zero_Transaction [TxSendingResponse, TxInputComplete, TxIdle, TxInputComplete,
      TxResponsePending, TxSendingResponse, TxSendingResponse] =
     [TxInputComplete, TxIdle, TxInputComplete, TxResponsePending, TxSendingResponse] @ [TxSendingResponse] \<and>
   (\<exists>bf k. [TxInputComplete, TxIdle, TxInputComplete, TxResponsePending, TxSendingResponse] =
      bf @ [TxInputComplete, TxResponsePending] @ replicate k TxSendingResponse)"
proof -
  have p: "tx_path zero_Transaction [TxSendingResponse, TxInputComplete, TxIdle, TxInputComplete,
      TxResponsePending, TxSendingResponse, TxSendingResponse] =
     [TxInputComplete, TxIdle, TxInputComplete, TxResponsePending, TxSendingResponse] @ [TxSendingResponse]"
    by (simp add: zero_Transaction_def Transaction_To_def selfEdge_def)
  show ?thesis using p response_follows_input [OF p] by blast
qed

end
