(* ===== verification/Locks.thy ===== *)
theory Locks
  imports Prelude
begin

text \<open>
  The lock manager (\<open>server/locks.go\<close>).

  A session is named by its 16-bit session id. The set of sessions holding the shared lock is the
  key set of the Go map; Go only ever stores \<open>true\<close> in it. The notification channel is a
  channel identifier together with the set of channels closed so far, so a waiter that registered
  on a channel is woken exactly when that channel is in the closed set. Every method is one
  critical section of the mutex; \<open>Request\<close>, which gives the mutex up while it waits, is a
  program-counter machine whose steps are the critical sections and the choices of its
  \<open>select\<close>, so other sessions' operations can be interleaved between any two of them.
\<close>

section \<open>Data\<close>

datatype LockResult = LockFailure | LockGranted | LockReleasedShared | LockError

fun LockResult_code :: "LockResult \<Rightarrow> uint8" where
  "LockResult_code LockFailure = 0"
| "LockResult_code LockGranted = 1"
| "LockResult_code LockReleasedShared = 2"
| "LockResult_code LockError = 3"

fun LockResult_String :: "LockResult \<Rightarrow> string" where
  "LockResult_String LockFailure = ''failure''"
| "LockResult_String LockGranted = ''granted, or exclusive released''"
| "LockResult_String LockReleasedShared = ''shared released''"
| "LockResult_String LockError = ''error''"

datatype LockState = Unlocked | ExclusiveLocked | SharedLocked | BothLocked

fun LockState_String :: "LockState \<Rightarrow> string" where
  "LockState_String Unlocked = ''unlocked''"
| "LockState_String ExclusiveLocked = ''exclusive locked''"
| "LockState_String SharedLocked = ''shared locked''"
| "LockState_String BothLocked = ''both locks''"

record LockManager =
  lk_exclusive :: uint16
  lk_hasExclusive :: bool
  lk_key :: bytes
  lk_shared :: "uint16 set"
  lk_changed :: "nat option"
  lk_next :: nat
  lk_closed :: "nat set"

definition zero_LockManager :: LockManager where
  "zero_LockManager = \<lparr>lk_exclusive = 0, lk_hasExclusive = False, lk_key = [], lk_shared = {},
     lk_changed = None, lk_next = 0, lk_closed = {}\<rparr>"

section \<open>Operations\<close>

definition LockManager_stateLocked :: "LockManager \<Rightarrow> LockState" where
  "LockManager_stateLocked m =
     (if lk_hasExclusive m \<and> card (lk_shared m) > 0 then BothLocked
      else if lk_hasExclusive m then ExclusiveLocked
      else if card (lk_shared m) > 0 then SharedLocked
      else Unlocked)"

definition LockManager_State :: "LockManager \<Rightarrow> LockState" where
  "LockManager_State m = LockManager_stateLocked m"

definition LockManager_notifyLocked :: "LockManager \<Rightarrow> LockManager" where
  "LockManager_notifyLocked m =
     (case lk_changed m of
        None \<Rightarrow> m
      | Some c \<Rightarrow> m\<lparr>lk_closed := insert c (lk_closed m), lk_changed := None\<rparr>)"

definition LockManager_waiterLocked :: "LockManager \<Rightarrow> LockManager \<times> nat" where
  "LockManager_waiterLocked m =
     (case lk_changed m of
        None \<Rightarrow> (m\<lparr>lk_changed := Some (lk_next m), lk_next := lk_next m + 1\<rparr>, lk_next m)
      | Some c \<Rightarrow> (m, c))"

definition LockManager_tryExclusiveLocked :: "LockManager \<Rightarrow> uint16 \<Rightarrow> LockManager \<times> LockResult" where
  "LockManager_tryExclusiveLocked m sessionID =
     (if lk_hasExclusive m
      then (if lk_exclusive m = sessionID then (m, LockError) else (m, LockFailure))
      else if card (lk_shared m) > 0 \<and> sessionID \<notin> lk_shared m then (m, LockFailure)
      else (LockManager_notifyLocked (m\<lparr>lk_hasExclusive := True, lk_exclusive := sessionID\<rparr>),
            LockGranted))"

definition LockManager_trySharedLocked ::
    "LockManager \<Rightarrow> uint16 \<Rightarrow> bytes \<Rightarrow> LockManager \<times> LockResult" where
  "LockManager_trySharedLocked m sessionID key =
     (if sessionID \<in> lk_shared m then (m, LockError)
      else if card (lk_shared m) > 0
      then (if lk_key m \<noteq> key then (m, LockFailure)
            else (LockManager_notifyLocked (m\<lparr>lk_shared := insert sessionID (lk_shared m)\<rparr>),
                  LockGranted))
      else if lk_hasExclusive m \<and> lk_exclusive m \<noteq> sessionID then (m, LockFailure)
      else if lk_hasExclusive m \<and> lk_exclusive m = sessionID then (m, LockError)
      else (LockManager_notifyLocked
              (m\<lparr>lk_key := key, lk_shared := insert sessionID (lk_shared m)\<rparr>),
            LockGranted))"

definition LockManager_TryRequest ::
    "LockManager \<Rightarrow> uint16 \<Rightarrow> bytes \<Rightarrow> LockManager \<times> LockResult" where
  "LockManager_TryRequest m sessionID lockString =
     (if lockString = [] then LockManager_tryExclusiveLocked m sessionID
      else LockManager_trySharedLocked m sessionID lockString)"

text \<open>\<open>delete(m.shared, id)\<close> and the clearing of the key when the last holder is gone.\<close>

definition drop_shared :: "LockManager \<Rightarrow> uint16 \<Rightarrow> LockManager" where
  "drop_shared m sessionID =
     (let m = m\<lparr>lk_shared := lk_shared m - {sessionID}\<rparr> in
      if card (lk_shared m) = 0 then m\<lparr>lk_key := []\<rparr> else m)"

definition LockManager_Release :: "LockManager \<Rightarrow> uint16 \<Rightarrow> LockManager \<times> LockResult" where
  "LockManager_Release m sessionID =
     (if lk_hasExclusive m \<and> lk_exclusive m = sessionID
      then (LockManager_notifyLocked (m\<lparr>lk_hasExclusive := False, lk_exclusive := 0\<rparr>), LockGranted)
      else if sessionID \<in> lk_shared m
      then (LockManager_notifyLocked (drop_shared m sessionID), LockReleasedShared)
      else (m, LockError))"

definition LockManager_ReleaseAll :: "LockManager \<Rightarrow> uint16 \<Rightarrow> LockManager" where
  "LockManager_ReleaseAll m sessionID =
     (let changed = False;
          (m, changed) =
            (if lk_hasExclusive m \<and> lk_exclusive m = sessionID
             then (m\<lparr>lk_hasExclusive := False, lk_exclusive := 0\<rparr>, True) else (m, changed));
          (m, changed) =
            (if sessionID \<in> lk_shared m then (drop_shared m sessionID, True) else (m, changed))
      in if changed then LockManager_notifyLocked m else m)"

definition LockManager_Info :: "LockManager \<Rightarrow> bool \<times> nat" where
  "LockManager_Info m =
     (let holders = lk_shared m;
          holders = (if lk_hasExclusive m then insert (lk_exclusive m) holders else holders)
      in (lk_hasExclusive m, card holders))"

definition LockManager_Held :: "LockManager \<Rightarrow> uint16 \<Rightarrow> bool" where
  "LockManager_Held m sessionID \<longleftrightarrow>
     (lk_hasExclusive m \<and> lk_exclusive m = sessionID) \<or> sessionID \<in> lk_shared m"

subsection \<open>A waiting request\<close>

text \<open>Program counter of \<open>Request\<close>: before the first attempt, before registering, blocked in
  the \<open>select\<close> on a channel, before the next attempt, before the look at the deadline, returned.\<close>

datatype request_pc =
  ReqFirst | ReqRegister | ReqSelect nat | ReqRetry | ReqDeadline | ReqReturned LockResult

record request =
  rq_session :: uint16
  rq_lockString :: bytes
  rq_timeout :: int
  rq_pc :: request_pc

text \<open>What the runtime decides: which ready case of the \<open>select\<close> is taken, and whether the
  deadline has passed when it is looked at.\<close>

datatype request_choice = Go_on | TimerFired | CtxDone

fun Request_step :: "LockManager \<Rightarrow> request \<Rightarrow> request_choice \<Rightarrow> (LockManager \<times> request) option" where
  "Request_step m rq choice =
     (case rq_pc rq of
        ReqFirst \<Rightarrow>
          (let (m, result) = LockManager_TryRequest m (rq_session rq) (rq_lockString rq) in
           Some (m, rq\<lparr>rq_pc := (if result \<noteq> LockFailure \<or> rq_timeout rq \<le> 0
                                then ReqReturned result else ReqRegister)\<rparr>))
      | ReqRegister \<Rightarrow>
          (let (m, w) = LockManager_waiterLocked m in Some (m, rq\<lparr>rq_pc := ReqSelect w\<rparr>))
      | ReqSelect w \<Rightarrow>
          (case choice of
             Go_on \<Rightarrow> if w \<in> lk_closed m then Some (m, rq\<lparr>rq_pc := ReqRetry\<rparr>) else None
           | TimerFired \<Rightarrow> Some (m, rq\<lparr>rq_pc := ReqReturned LockFailure\<rparr>)
           | CtxDone \<Rightarrow> Some (m, rq\<lparr>rq_pc := ReqReturned LockFailure\<rparr>))
      | ReqRetry \<Rightarrow>
          (let (m, result) = LockManager_TryRequest m (rq_session rq) (rq_lockString rq) in
           Some (m, rq\<lparr>rq_pc := (if result \<noteq> LockFailure then ReqReturned result else ReqDeadline)\<rparr>))
      | ReqDeadline \<Rightarrow>
          Some (m, rq\<lparr>rq_pc := (if choice = TimerFired then ReqReturned LockFailure else ReqRegister)\<rparr>)
      | ReqReturned result \<Rightarrow> None)"

text \<open>Operations of other sessions that may run between two steps.\<close>

datatype lock_op =
  OpTry uint16 bytes | OpRelease uint16 | OpReleaseAll uint16

fun lock_op_run :: "LockManager \<Rightarrow> lock_op \<Rightarrow> LockManager" where
  "lock_op_run m (OpTry i s) = fst (LockManager_TryRequest m i s)"
| "lock_op_run m (OpRelease i) = fst (LockManager_Release m i)"
| "lock_op_run m (OpReleaseAll i) = LockManager_ReleaseAll m i"

datatype request_event = Mine request_choice | Other lock_op

text \<open>\<open>LockManager_Request\<close> runs one call of \<open>Request\<close> along a schedule: \<open>None\<close>
  means that it has not returned at the end of the schedule.\<close>

fun Request_run :: "LockManager \<Rightarrow> request \<Rightarrow> request_event list \<Rightarrow> (LockManager \<times> request) option" where
  "Request_run m rq [] = Some (m, rq)"
| "Request_run m rq (Other op # evs) = Request_run (lock_op_run m op) rq evs"
| "Request_run m rq (Mine c # evs) =
     (case Request_step m rq c of
        None \<Rightarrow> None
      | Some (m, rq) \<Rightarrow> Request_run m rq evs)"

definition LockManager_Request ::
    "LockManager \<Rightarrow> uint16 \<Rightarrow> bytes \<Rightarrow> int \<Rightarrow> request_event list \<Rightarrow> (LockManager \<times> LockResult) option" where
  "LockManager_Request m sessionID lockString timeout evs =
     (case Request_run m \<lparr>rq_session = sessionID, rq_lockString = lockString,
          rq_timeout = timeout, rq_pc = ReqFirst\<rparr> evs of
        Some (m, rq) \<Rightarrow> (case rq_pc rq of ReqReturned result \<Rightarrow> Some (m, result) | _ \<Rightarrow> None)
      | None \<Rightarrow> None)"

section \<open>Invariant\<close>

definition lock_inv :: "LockManager \<Rightarrow> bool" where
  "lock_inv m \<longleftrightarrow>
     (\<not> lk_hasExclusive m \<longrightarrow> lk_exclusive m = 0) \<and>
     (lk_shared m = {} \<longleftrightarrow> lk_key m = []) \<and>
     (lk_hasExclusive m \<and> lk_shared m \<noteq> {} \<longrightarrow> lk_exclusive m \<in> lk_shared m) \<and>
     (\<forall>c\<in>lk_closed m. c < lk_next m) \<and>
     (case lk_changed m of None \<Rightarrow> True | Some c \<Rightarrow> c < lk_next m \<and> c \<notin> lk_closed m)"

lemma card_shared [simp]: "(0 < card (A :: uint16 set)) = (A \<noteq> {})" "(card A = 0) = (A = {})"
  by (simp_all add: card_gt_0_iff)

lemma notify_sel [simp]:
  "lk_exclusive (LockManager_notifyLocked m) = lk_exclusive m"
  "lk_hasExclusive (LockManager_notifyLocked m) = lk_hasExclusive m"
  "lk_key (LockManager_notifyLocked m) = lk_key m"
  "lk_shared (LockManager_notifyLocked m) = lk_shared m"
  "lk_changed (LockManager_notifyLocked m) = None"
  "lk_next (LockManager_notifyLocked m) = lk_next m"
  "lk_closed (LockManager_notifyLocked m) = lk_closed m \<union> set_option (lk_changed m)"
  by (auto simp: LockManager_notifyLocked_def split: option.splits)

lemma drop_shared_sel [simp]:
  "lk_exclusive (drop_shared m i) = lk_exclusive m"
  "lk_hasExclusive (drop_shared m i) = lk_hasExclusive m"
  "lk_shared (drop_shared m i) = lk_shared m - {i}"
  "lk_key (drop_shared m i) = (if lk_shared m - {i} = {} then [] else lk_key m)"
  "lk_changed (drop_shared m i) = lk_changed m"
  "lk_next (drop_shared m i) = lk_next m"
  "lk_closed (drop_shared m i) = lk_closed m"
  by (simp_all add: drop_shared_def Let_def)

lemmas lock_op_defs = LockManager_TryRequest_def LockManager_tryExclusiveLocked_def
  LockManager_trySharedLocked_def LockManager_Release_def LockManager_ReleaseAll_def Let_def

lemma lock_inv_zero [simp]: "lock_inv zero_LockManager"
  by (simp add: lock_inv_def zero_LockManager_def)

lemma lock_inv_exclusive: "lock_inv m \<Longrightarrow> lock_inv (fst (LockManager_tryExclusiveLocked m i))"
  by (auto simp: lock_inv_def LockManager_tryExclusiveLocked_def split: option.splits)

lemma lock_inv_shared:
  "lock_inv m \<Longrightarrow> key \<noteq> [] \<Longrightarrow> lock_inv (fst (LockManager_trySharedLocked m i key))"
  by (auto simp: lock_inv_def LockManager_trySharedLocked_def split: option.splits)

lemma lock_inv_try: "lock_inv m \<Longrightarrow> lock_inv (fst (LockManager_TryRequest m i s))"
  by (simp add: LockManager_TryRequest_def lock_inv_exclusive lock_inv_shared)

lemma lock_inv_release: "lock_inv m \<Longrightarrow> lock_inv (fst (LockManager_Release m i))"
  by (auto simp: lock_inv_def LockManager_Release_def split: option.splits)

lemma lock_inv_release_all: "lock_inv m \<Longrightarrow> lock_inv (LockManager_ReleaseAll m i)"
  by (auto simp: lock_inv_def LockManager_ReleaseAll_def Let_def split: option.splits)

lemma lock_inv_waiter: "lock_inv m \<Longrightarrow> lock_inv (fst (LockManager_waiterLocked m))"
  by (auto simp: lock_inv_def LockManager_waiterLocked_def less_Suc_eq split: option.splits)

lemma lock_inv_op: "lock_inv m \<Longrightarrow> lock_inv (lock_op_run m op)"
  by (cases op) (simp_all add: lock_inv_try lock_inv_release lock_inv_release_all)

lemma lock_inv_step:
  "lock_inv m \<Longrightarrow> Request_step m rq c = Some (m', rq') \<Longrightarrow> lock_inv m'"
  using lock_inv_try [of m "rq_session rq" "rq_lockString rq"] lock_inv_waiter [of m]
  by (auto split: request_pc.splits prod.splits request_choice.splits if_splits)

lemma lock_inv_run:
  "lock_inv m \<Longrightarrow> Request_run m rq evs = Some (m', rq') \<Longrightarrow> lock_inv m'"
  by (induction m rq evs rule: Request_run.induct)
    (auto simp: lock_inv_op lock_inv_step simp del: Request_step.simps split: option.splits)

section \<open>The state table of the specification\<close>

text \<open>IVI-6.1 Table 22 as an abstract lock: no holder, one exclusive holder, holders of a shared
  lock under a key, or holders of a shared lock one of whom also has the exclusive lock.\<close>

datatype table22 =
    T_Unlocked
  | T_Exclusive uint16
  | T_Shared bytes "uint16 set"
  | T_Both uint16 bytes "uint16 set"

fun T_request_exclusive :: "table22 \<Rightarrow> uint16 \<Rightarrow> table22 \<times> LockResult" where
  "T_request_exclusive T_Unlocked i = (T_Exclusive i, LockGranted)"
| "T_request_exclusive (T_Exclusive h) i =
     (T_Exclusive h, if i = h then LockError else LockFailure)"
| "T_request_exclusive (T_Shared k H) i =
     (if i \<in> H then (T_Both i k H, LockGranted) else (T_Shared k H, LockFailure))"
| "T_request_exclusive (T_Both h k H) i =
     (T_Both h k H, if i = h then LockError else LockFailure)"

fun T_request_shared :: "table22 \<Rightarrow> uint16 \<Rightarrow> bytes \<Rightarrow> table22 \<times> LockResult" where
  "T_request_shared T_Unlocked i key = (T_Shared key {i}, LockGranted)"
| "T_request_shared (T_Exclusive h) i key =
     (T_Exclusive h, if i = h then LockError else LockFailure)"
| "T_request_shared (T_Shared k H) i key =
     (if i \<in> H then (T_Shared k H, LockError)
      else if key = k then (T_Shared k (insert i H), LockGranted)
      else (T_Shared k H, LockFailure))"
| "T_request_shared (T_Both h k H) i key =
     (if i \<in> H then (T_Both h k H, LockError)
      else if key = k then (T_Both h k (insert i H), LockGranted)
      else (T_Both h k H, LockFailure))"

fun T_release :: "table22 \<Rightarrow> uint16 \<Rightarrow> table22 \<times> LockResult" where
  "T_release T_Unlocked i = (T_Unlocked, LockError)"
| "T_release (T_Exclusive h) i =
     (if i = h then (T_Unlocked, LockGranted) else (T_Exclusive h, LockError))"
| "T_release (T_Shared k H) i =
     (if i \<notin> H then (T_Shared k H, LockError)
      else if H = {i} then (T_Unlocked, LockReleasedShared)
      else (T_Shared k (H - {i}), LockReleasedShared))"
| "T_release (T_Both h k H) i =
     (if i = h then (T_Shared k H, LockGranted)
      else if i \<in> H then (T_Both h k (H - {i}), LockReleasedShared)
      else (T_Both h k H, LockError))"

fun T_holders :: "table22 \<Rightarrow> uint16 set" where
  "T_holders T_Unlocked = {}"
| "T_holders (T_Exclusive h) = {h}"
| "T_holders (T_Shared k H) = H"
| "T_holders (T_Both h k H) = H"

fun T_state :: "table22 \<Rightarrow> LockState" where
  "T_state T_Unlocked = Unlocked"
| "T_state (T_Exclusive h) = ExclusiveLocked"
| "T_state (T_Shared k H) = SharedLocked"
| "T_state (T_Both h k H) = BothLocked"

definition lock_abs :: "LockManager \<Rightarrow> table22" where
  "lock_abs m =
     (case LockManager_stateLocked m of
        Unlocked \<Rightarrow> T_Unlocked
      | ExclusiveLocked \<Rightarrow> T_Exclusive (lk_exclusive m)
      | SharedLocked \<Rightarrow> T_Shared (lk_key m) (lk_shared m)
      | BothLocked \<Rightarrow> T_Both (lk_exclusive m) (lk_key m) (lk_shared m))"

lemma lock_abs_cases:
  "lock_abs m =
     (if lk_shared m = {}
      then (if lk_hasExclusive m then T_Exclusive (lk_exclusive m) else T_Unlocked)
      else if lk_hasExclusive m then T_Both (lk_exclusive m) (lk_key m) (lk_shared m)
      else T_Shared (lk_key m) (lk_shared m))"
  by (simp add: lock_abs_def LockManager_stateLocked_def)

lemma T_state_abs: "T_state (lock_abs m) = LockManager_State m"
  by (simp add: lock_abs_cases LockManager_State_def LockManager_stateLocked_def)

lemma T_holders_abs: "lock_inv m \<Longrightarrow> T_holders (lock_abs m) = {i. LockManager_Held m i}"
  by (auto simp: lock_abs_cases LockManager_Held_def lock_inv_def)

lemma abs_exclusive:
  "map_prod lock_abs id (LockManager_tryExclusiveLocked m i) = T_request_exclusive (lock_abs m) i"
  by (simp add: lock_abs_cases LockManager_tryExclusiveLocked_def)

lemma abs_shared:
  "map_prod lock_abs id (LockManager_trySharedLocked m i key) = T_request_shared (lock_abs m) i key"
  by (auto simp: lock_abs_cases LockManager_trySharedLocked_def)

lemma abs_release:
  "lock_inv m \<Longrightarrow> map_prod lock_abs id (LockManager_Release m i) = T_release (lock_abs m) i"
  by (auto simp: lock_abs_cases LockManager_Release_def lock_inv_def)

text \<open>\<open>ReleaseAll\<close> is what a client would do by releasing until nothing is left.\<close>

definition T_release_all :: "table22 \<Rightarrow> uint16 \<Rightarrow> table22" where
  "T_release_all t i = fst (T_release (fst (T_release t i)) i)"

lemma abs_release_all:
  "lock_inv m \<Longrightarrow> lock_abs (LockManager_ReleaseAll m i) = T_release_all (lock_abs m) i"
  by (auto simp: lock_abs_cases LockManager_ReleaseAll_def T_release_all_def lock_inv_def Let_def)

fun T_op :: "table22 \<Rightarrow> lock_op \<Rightarrow> table22" where
  "T_op t (OpTry i s) = fst (if s = [] then T_request_exclusive t i else T_request_shared t i s)"
| "T_op t (OpRelease i) = fst (T_release t i)"
| "T_op t (OpReleaseAll i) = T_release_all t i"

lemma abs_try:
  "map_prod lock_abs id (LockManager_TryRequest m i s) =
   (if s = [] then T_request_exclusive (lock_abs m) i else T_request_shared (lock_abs m) i s)"
  by (simp add: LockManager_TryRequest_def abs_exclusive abs_shared)

lemma abs_op: "lock_inv m \<Longrightarrow> lock_abs (lock_op_run m op) = T_op (lock_abs m) op"
  using abs_try [of m] abs_release [of m]
  by (cases op; simp add: abs_release_all; metis fst_map_prod)

lemma lock_history:
  "lock_inv m \<Longrightarrow> lock_inv (foldl lock_op_run m h) \<and>
   lock_abs (foldl lock_op_run m h) = foldl T_op (lock_abs m) h"
  by (induction h arbitrary: m) (simp_all add: lock_inv_op abs_op)

lemma lock_abs_zero [simp]: "lock_abs zero_LockManager = T_Unlocked"
  by (simp add: lock_abs_cases zero_LockManager_def)

lemma Info_holders: "snd (LockManager_Info m) = card {i. LockManager_Held m i}"
proof -
  have "{i. LockManager_Held m i} =
      (if lk_hasExclusive m then insert (lk_exclusive m) (lk_shared m) else lk_shared m)"
    by (auto simp: LockManager_Held_def)
  then show ?thesis by (simp add: LockManager_Info_def Let_def)
qed

section \<open>The lock service a server relies on\<close>

text \<open>Closing a session must give back what it held and touch nobody else's locks.\<close>

locale lock_service =
  fixes held :: "'m \<Rightarrow> uint16 \<Rightarrow> bool"
    and release_all :: "'m \<Rightarrow> uint16 \<Rightarrow> 'm"
  assumes release_all_held: "held (release_all m i) j \<longleftrightarrow> held m j \<and> j \<noteq> i"
begin

lemma close_sessions: "held (foldl release_all m ids) j \<longleftrightarrow> held m j \<and> j \<notin> set ids"
  by (induction ids arbitrary: m) (auto simp: release_all_held)

lemma close_all_sessions:
  "(\<And>j. held m j \<Longrightarrow> j \<in> set ids) \<Longrightarrow> \<not> held (foldl release_all m ids) j"
  by (auto simp: close_sessions)

end

lemma Held_ReleaseAll:
  "LockManager_Held (LockManager_ReleaseAll m i) j \<longleftrightarrow> LockManager_Held m j \<and> j \<noteq> i"
  by (auto simp: LockManager_Held_def LockManager_ReleaseAll_def Let_def)

interpretation lks: lock_service LockManager_Held LockManager_ReleaseAll
  by unfold_locales (rule Held_ReleaseAll)

section \<open>Exclusion and waiting\<close>

definition holds_exclusive :: "LockManager \<Rightarrow> uint16 \<Rightarrow> bool" where
  "holds_exclusive m i \<longleftrightarrow> lk_hasExclusive m \<and> lk_exclusive m = i"

definition gives_up :: "uint16 \<Rightarrow> lock_op \<Rightarrow> bool" where
  "gives_up i op \<longleftrightarrow> op = OpRelease i \<or> op = OpReleaseAll i"

lemma exclusive_kept_op:
  "holds_exclusive m i \<Longrightarrow> \<not> gives_up i op \<Longrightarrow> holds_exclusive (lock_op_run m op) i"
  by (cases op) (auto simp: holds_exclusive_def gives_up_def lock_op_defs)

lemma exclusive_kept:
  "holds_exclusive m i \<Longrightarrow> list_all (\<lambda>op. \<not> gives_up i op) h \<Longrightarrow>
   holds_exclusive (foldl lock_op_run m h) i"
  by (induction h arbitrary: m) (simp_all add: exclusive_kept_op)

lemma exclusive_refuses:
  "holds_exclusive m i \<Longrightarrow> j \<noteq> i \<Longrightarrow> LockManager_TryRequest m j [] = (m, LockFailure)"
  by (auto simp: holds_exclusive_def lock_op_defs)

lemma try_granted_held:
  "LockManager_TryRequest m i s = (m', LockGranted) \<Longrightarrow> LockManager_Held m' i"
  by (auto simp: lock_op_defs LockManager_Held_def split: if_splits)

lemma try_not_granted:
  "LockManager_TryRequest m i s = (m', r) \<Longrightarrow> r \<noteq> LockGranted \<Longrightarrow> m' = m"
  by (auto simp: lock_op_defs split: if_splits)

lemma op_changes_closes:
  assumes "lk_changed m = Some w" "lock_abs (lock_op_run m op) \<noteq> lock_abs m"
  shows "w \<in> lk_closed (lock_op_run m op)"
  using assms by (cases op) (auto simp: lock_op_defs split: if_splits)

lemma op_keeps_waiter:
  assumes "lk_changed m = Some w \<or> w \<in> lk_closed m"
  shows "lk_changed (lock_op_run m op) = Some w \<or> w \<in> lk_closed (lock_op_run m op)"
  using assms by (cases op) (auto simp: lock_op_defs)

lemma ops_change_closes:
  assumes "lk_changed m = Some w \<or> w \<in> lk_closed m"
    "w \<in> lk_closed m \<or> lock_abs (foldl lock_op_run m h) \<noteq> lock_abs m"
  shows "w \<in> lk_closed (foldl lock_op_run m h)"
  using assms
proof (induction h arbitrary: m)
  case (Cons op h)
  have "lk_closed m \<subseteq> lk_closed (lock_op_run m op)"
    by (cases op) (auto simp: lock_op_defs)
  with Cons.prems op_changes_closes [of m w op] op_keeps_waiter [of m w op]
  show ?case by (auto intro!: Cons.IH)
qed simp

lemma Request_run_snoc:
  "Request_run m rq (evs @ [Mine c]) =
   (case Request_run m rq evs of None \<Rightarrow> None | Some (m, rq) \<Rightarrow> Request_step m rq c)"
  by (induction m rq evs rule: Request_run.induct)
    (auto simp del: Request_step.simps split: option.splits)

lemma Request_step_session: "Request_step m rq c = Some (m', rq') \<Longrightarrow> rq_session rq' = rq_session rq"
  by (auto split: request_pc.splits prod.splits request_choice.splits if_splits)

lemma Request_run_session: "Request_run m rq evs = Some (m', rq') \<Longrightarrow> rq_session rq' = rq_session rq"
  by (induction m rq evs rule: Request_run.induct)
    (auto simp del: Request_step.simps dest: Request_step_session split: option.splits)

lemma Request_step_granted:
  "Request_step m rq c = Some (m', rq') \<Longrightarrow> rq_pc rq' = ReqReturned LockGranted \<Longrightarrow>
   LockManager_Held m' (rq_session rq)"
  by (auto split: request_pc.splits prod.splits request_choice.splits if_splits
      intro: try_granted_held)

lemma Request_step_refused:
  "Request_step m rq c = Some (m', rq') \<Longrightarrow> rq_pc rq' = ReqReturned r \<Longrightarrow> r \<noteq> LockGranted \<Longrightarrow> m' = m"
  by (auto split: request_pc.splits prod.splits request_choice.splits if_splits
      dest: try_not_granted)

lemma Request_granted_held:
  assumes "LockManager_Request m i s timeout (evs @ [Mine c]) = Some (m', LockGranted)"
  shows "LockManager_Held m' i"
  using assms Request_step_granted Request_run_session
  by (fastforce simp: LockManager_Request_def Request_run_snoc simp del: Request_step.simps
      split: option.splits request_pc.splits)

section \<open>Properties\<close>

text \<open>C6. The lock manager implements the state table of IVI-6.1: after every history of requests,
  releases and session teardowns its abstract state is the one the table gives, and the next
  request or release moves it and answers as the table says. The reported state is the table's,
  and the number of clients reported is the number of distinct holders, a holder of both locks
  counted once.\<close>

theorem lock_manager_refines_table22:
  "let m = foldl lock_op_run zero_LockManager h; t = foldl T_op T_Unlocked h in
   lock_abs m = t \<and>
   map_prod lock_abs id (LockManager_TryRequest m i s) =
     (if s = [] then T_request_exclusive t i else T_request_shared t i s) \<and>
   map_prod lock_abs id (LockManager_Release m i) = T_release t i \<and>
   LockManager_State m = T_state t \<and>
   snd (LockManager_Info m) = card (T_holders t)"
proof -
  have i: "lock_inv (foldl lock_op_run zero_LockManager h)"
    and a: "lock_abs (foldl lock_op_run zero_LockManager h) = foldl T_op T_Unlocked h"
    using lock_history [of zero_LockManager h] by simp_all
  show ?thesis
    using abs_try abs_release [OF i] T_state_abs T_holders_abs [OF i] Info_holders
    by (simp add: Let_def a [symmetric])
qed

text \<open>C24. While a session holds the exclusive lock and neither releases it nor is torn down, no
  sequence of operations of any sessions takes it away, and every exclusive request of another
  session is refused without changing anything.\<close>

theorem exclusive_lock_excludes:
  assumes "holds_exclusive m i" "list_all (\<lambda>op. \<not> gives_up i op) h" "j \<noteq> i"
  shows "holds_exclusive (foldl lock_op_run m h) i \<and>
    LockManager_TryRequest (foldl lock_op_run m h) j [] = (foldl lock_op_run m h, LockFailure)"
  using exclusive_kept [OF assms(1,2)] exclusive_refuses [OF _ assms(3)] by blast

lemma exclusive_example: "holds_exclusive (fst (LockManager_TryRequest zero_LockManager 1 [])) 1"
  by (simp add: holds_exclusive_def lock_op_defs zero_LockManager_def)

theorem exclusive_lock_excludes_witness:
  "let m = fst (LockManager_TryRequest zero_LockManager 1 []) in
   holds_exclusive m 1 \<and>
   snd (LockManager_TryRequest (foldl lock_op_run m [OpTry 2 [65], OpReleaseAll 2, OpTry 2 []]) 2 [])
     = LockFailure"
  using exclusive_lock_excludes [OF exclusive_example,
      of "[OpTry 2 [65], OpReleaseAll 2, OpTry 2 []]" 2] exclusive_example
  by (simp add: gives_up_def Let_def)

text \<open>C25. A request that is refused as nonsensical, that is granted at once, or that has no time to
  wait returns in its first critical section with the answer of \<open>TryRequest\<close>; any request
  that returns \<open>LockGranted\<close> holds a lock when it returns, whatever other sessions did while
  it waited; and a request that returns anything else leaves the locks as that last step found
  them.\<close>

theorem request_outcomes:
  "(timeout \<le> 0 \<or> snd (LockManager_TryRequest m i s) \<noteq> LockFailure \<longrightarrow>
     LockManager_Request m i s timeout [Mine c] = Some (LockManager_TryRequest m i s)) \<and>
   (LockManager_Request m i s timeout (evs @ [Mine c]) = Some (m', LockGranted) \<longrightarrow>
     LockManager_Held m' i) \<and>
   (Request_step m rq c = Some (m', rq') \<and> rq_pc rq' = ReqReturned r \<and> r \<noteq> LockGranted \<longrightarrow> m' = m)"
proof (intro conjI impI)
  assume "timeout \<le> 0 \<or> snd (LockManager_TryRequest m i s) \<noteq> LockFailure"
  then show "LockManager_Request m i s timeout [Mine c] = Some (LockManager_TryRequest m i s)"
    by (auto simp: LockManager_Request_def split: prod.splits)
next
  assume "LockManager_Request m i s timeout (evs @ [Mine c]) = Some (m', LockGranted)"
  then show "LockManager_Held m' i" by (rule Request_granted_held)
next
  assume "Request_step m rq c = Some (m', rq') \<and> rq_pc rq' = ReqReturned r \<and> r \<noteq> LockGranted"
  then show "m' = m" using Request_step_refused by blast
qed

theorem request_outcomes_witness:
  "LockManager_Request zero_LockManager 7 [] 0 [Mine Go_on] =
     Some (LockManager_TryRequest zero_LockManager 7 []) \<and>
   LockManager_Held (fst (LockManager_TryRequest zero_LockManager 7 [])) 7"
proof -
  have r: "snd (LockManager_TryRequest zero_LockManager 7 []) = LockGranted"
    by (simp add: lock_op_defs zero_LockManager_def)
  have 1: "LockManager_Request zero_LockManager 7 [] 0 [Mine Go_on] =
     Some (LockManager_TryRequest zero_LockManager 7 [])"
    using request_outcomes [of 0 zero_LockManager 7 "[]" Go_on] by simp
  then have "LockManager_Request zero_LockManager 7 [] 0 ([] @ [Mine Go_on]) =
     Some (fst (LockManager_TryRequest zero_LockManager 7 []), LockGranted)"
    using r by (metis append_Nil prod.collapse)
  with 1 show ?thesis
    using request_outcomes [of 0 zero_LockManager 7 "[]" Go_on "[]"] by blast
qed

text \<open>C26. A waiter that has registered misses no change: if other sessions' operations change the
  lock state in any way, its channel is closed and its \<open>select\<close> can go on to the next
  attempt.\<close>

theorem registered_waiter_wakes:
  assumes "rq_pc rq = ReqRegister"
    "Request_step m rq c = Some (m', rq')"
    "lock_abs (foldl lock_op_run m' h) \<noteq> lock_abs m'"
  shows "Request_step (foldl lock_op_run m' h) rq' Go_on =
    Some (foldl lock_op_run m' h, rq'\<lparr>rq_pc := ReqRetry\<rparr>)"
proof -
  obtain w where "lk_changed m' = Some w" "rq_pc rq' = ReqSelect w"
    using assms(1,2) by (auto simp: LockManager_waiterLocked_def split: option.splits)
  then show ?thesis using ops_change_closes [of m' w h] assms(3) by simp
qed

theorem registered_waiter_wakes_witness:
  "let m = fst (LockManager_TryRequest zero_LockManager 1 []);
       rq = \<lparr>rq_session = 2, rq_lockString = [], rq_timeout = 5, rq_pc = ReqRegister\<rparr>;
       m' = m\<lparr>lk_changed := Some 0, lk_next := 1\<rparr> in
   Request_step (foldl lock_op_run m' [OpRelease 1]) (rq\<lparr>rq_pc := ReqSelect 0\<rparr>) Go_on =
     Some (foldl lock_op_run m' [OpRelease 1], rq\<lparr>rq_pc := ReqRetry\<rparr>)"
proof -
  define m where "m = fst (LockManager_TryRequest zero_LockManager 1 [])"
  define rq where "rq = \<lparr>rq_session = 2, rq_lockString = [], rq_timeout = 5, rq_pc = ReqRegister\<rparr>"
  let ?m' = "m\<lparr>lk_changed := Some 0, lk_next := 1\<rparr>"
  have m: "m = \<lparr>lk_exclusive = 1, lk_hasExclusive = True, lk_key = [], lk_shared = {},
     lk_changed = None, lk_next = 0, lk_closed = {}\<rparr>"
    by (simp add: m_def lock_op_defs zero_LockManager_def LockManager_notifyLocked_def)
  have pc: "rq_pc rq = ReqRegister" by (simp add: rq_def)
  have st: "Request_step m rq Go_on = Some (?m', rq\<lparr>rq_pc := ReqSelect 0\<rparr>)"
    by (simp add: rq_def m LockManager_waiterLocked_def)
  have "lock_abs (foldl lock_op_run ?m' [OpRelease 1]) \<noteq> lock_abs ?m'"
    by (simp add: m lock_abs_cases LockManager_Release_def)
  from registered_waiter_wakes [OF pc st this] show ?thesis
    by (simp add: m_def rq_def Let_def del: Request_step.simps lock_op_run.simps)
qed



end
