(* ===== verification/Device.thy ===== *)
theory Device
  imports Go_Errors
begin

text \<open>
  The instrument interface (\<open>server/device.go\<close>) and the scripted instrument of
  \<open>internal/testdevice\<close>.

  A device is a state \<open>'d\<close> and a record of its methods. The boolean argument of a method
  is whether its context is cancelled. A read is given the size of the caller's buffer and returns
  the bytes it put there, the end flag and the error.
\<close>

section \<open>Remote and local\<close>

type_synonym RemoteLocalMode = uint8

definition DisableRemote :: RemoteLocalMode where [simp]: "DisableRemote = 0"
definition EnableRemote :: RemoteLocalMode where [simp]: "EnableRemote = 1"
definition DisableRemoteGoToLocal :: RemoteLocalMode where [simp]: "DisableRemoteGoToLocal = 2"
definition EnableRemoteGoToRemote :: RemoteLocalMode where [simp]: "EnableRemoteGoToRemote = 3"
definition EnableRemoteLockoutLocal :: RemoteLocalMode where [simp]: "EnableRemoteLockoutLocal = 4"
definition EnableRemoteGoToRemoteLockoutLocal :: RemoteLocalMode where
  [simp]: "EnableRemoteGoToRemoteLockoutLocal = 5"
definition GoToLocal :: RemoteLocalMode where [simp]: "GoToLocal = 6"
definition maxRemoteLocalMode :: RemoteLocalMode where [simp]: "maxRemoteLocalMode = GoToLocal"

datatype Effect = EffectNoChange | EffectFalse | EffectTrue

record Effects =
  ef_RemoteEnable :: Effect
  ef_LocalLockout :: Effect
  ef_Remote :: Effect

definition effects :: "Effect \<Rightarrow> Effect \<Rightarrow> Effect \<Rightarrow> Effects" where
  [simp]: "effects a b c = \<lparr>ef_RemoteEnable = a, ef_LocalLockout = b, ef_Remote = c\<rparr>"

definition remoteLocalEffects :: "Effects list" where
  "remoteLocalEffects = [
     effects EffectFalse EffectFalse EffectFalse,
     effects EffectTrue EffectNoChange EffectNoChange,
     effects EffectFalse EffectFalse EffectFalse,
     effects EffectTrue EffectNoChange EffectTrue,
     effects EffectTrue EffectTrue EffectNoChange,
     effects EffectTrue EffectTrue EffectTrue,
     effects EffectNoChange EffectNoChange EffectFalse]"

definition RemoteLocalMode_Valid :: "RemoteLocalMode \<Rightarrow> bool" where
  "RemoteLocalMode_Valid m \<longleftrightarrow> m \<le> maxRemoteLocalMode"

definition RemoteLocalMode_Effects :: "RemoteLocalMode \<Rightarrow> Effects" where
  "RemoteLocalMode_Effects m =
     (if \<not> RemoteLocalMode_Valid m then effects EffectNoChange EffectNoChange EffectNoChange
      else remoteLocalEffects ! unat m)"

definition RemoteLocalMode_String :: "RemoteLocalMode \<Rightarrow> string" where
  "RemoteLocalMode_String m =
     (if m = DisableRemote then ''disable remote''
      else if m = EnableRemote then ''enable remote''
      else if m = DisableRemoteGoToLocal then ''disable remote and go to local''
      else if m = EnableRemoteGoToRemote then ''enable remote and go to remote''
      else if m = EnableRemoteLockoutLocal then ''enable remote and lock out local''
      else if m = EnableRemoteGoToRemoteLockoutLocal
        then ''enable remote, go to remote, and set local lockout''
      else if m = GoToLocal then ''go to local without changing remote enable''
      else ''undefined remote/local mode'')"

section \<open>The interface\<close>

record 'd Device =
  dev_Write :: "'d \<Rightarrow> bool \<Rightarrow> bytes \<Rightarrow> bool \<Rightarrow> 'd \<times> gerror option"
  dev_Read :: "'d \<Rightarrow> bool \<Rightarrow> nat \<Rightarrow> 'd \<times> bytes \<times> bool \<times> gerror option"
  dev_Clear :: "'d \<Rightarrow> bool \<Rightarrow> 'd \<times> gerror option"
  dev_Trigger :: "'d \<Rightarrow> bool \<Rightarrow> 'd \<times> gerror option"
  dev_ReadStatusByte :: "'d \<Rightarrow> bool \<Rightarrow> 'd \<times> byte \<times> gerror option"
  dev_RemoteLocal :: "'d \<Rightarrow> bool \<Rightarrow> RemoteLocalMode \<Rightarrow> 'd \<times> gerror option"

text \<open>The reads of one response through a buffer of \<open>n\<close> bytes: the pieces delivered before the
  last read, and the last read, which reports the end or an error.\<close>

type_synonym 'd read_result = "'d \<times> bytes \<times> bool \<times> gerror option"

inductive response_reads ::
    "('d \<Rightarrow> bool \<Rightarrow> nat \<Rightarrow> 'd read_result) \<Rightarrow> bool \<Rightarrow> nat \<Rightarrow> 'd \<Rightarrow> bytes list \<Rightarrow> 'd read_result \<Rightarrow> bool"
  for rd ctx n where
  last_read: "rd d ctx n = (d', bs, e, err) \<Longrightarrow> e \<or> err \<noteq> None \<Longrightarrow>
    response_reads rd ctx n d [] (d', bs, e, err)"
| more_read: "rd d ctx n = (d1, b, False, None) \<Longrightarrow> response_reads rd ctx n d1 pieces r \<Longrightarrow>
    response_reads rd ctx n d (b # pieces) r"

inductive_cases response_reads_Nil: "response_reads rd ctx n d [] r"
inductive_cases response_reads_Cons: "response_reads rd ctx n d (b # pieces) r"

text \<open>What the response path relies on: a read fits its buffer, and a device does not go on for
  ever returning part of a response: while it reports neither the end nor an error, something
  that is left gets less.\<close>

locale fitting_device =
  fixes rd :: "'d \<Rightarrow> bool \<Rightarrow> nat \<Rightarrow> 'd read_result"
  assumes rd_fits: "rd d ctx n = (d', bs, e, err) \<Longrightarrow> length bs \<le> n"
begin

lemma reads_fit:
  "response_reads rd ctx n d pieces r \<Longrightarrow>
   (\<forall>b \<in> set pieces. length b \<le> n) \<and> length (fst (snd r)) \<le> n"
  by (induction rule: response_reads.induct) (auto dest: rd_fits)

end

locale responding_device = fitting_device rd
  for rd :: "'d \<Rightarrow> bool \<Rightarrow> nat \<Rightarrow> 'd read_result" +
  fixes left :: "'d \<Rightarrow> nat"
  assumes rd_progress: "rd d ctx n = (d', bs, False, None) \<Longrightarrow> 0 < n \<Longrightarrow> left d' < left d"
begin

lemma reads_exist:
  assumes "0 < n"
  shows "\<exists>pieces r. response_reads rd ctx n d pieces r"
proof (induction "left d" arbitrary: d rule: less_induct)
  case less
  obtain d' bs e err where r: "rd d ctx n = (d', bs, e, err)" by (cases "rd d ctx n") auto
  show ?case
  proof (cases "e \<or> err \<noteq> None")
    case True
    with r show ?thesis by (blast intro: last_read)
  next
    case False
    with r have r': "rd d ctx n = (d', bs, False, None)" by simp
    from less [OF rd_progress [OF r' assms]] r' show ?thesis by (blast intro: more_read)
  qed
qed

end

section \<open>The scripted instrument\<close>

datatype Op =
  OpWrite | OpRead | OpClear | OpTrigger | OpReadStatusByte | OpRemoteLocal | OpInterfaceClear

record Call =
  ca_Op :: Op
  ca_Data :: bytes
  ca_End :: bool
  ca_Mode :: RemoteLocalMode

record testdevice =
  td_Responses :: "bytes list"
  td_Status :: byte
  td_Errors :: "Op \<Rightarrow> gerror option"
  td_calls :: "Call list"
  td_written :: bytes
  td_pending :: bytes
  td_respIdx :: nat
  td_inFlight :: bool

definition testdevice_New :: "bytes list \<Rightarrow> testdevice" where
  "testdevice_New responses = \<lparr>td_Responses = responses, td_Status = 0, td_Errors = (\<lambda>_. None),
     td_calls = [], td_written = [], td_pending = [], td_respIdx = 0, td_inFlight = False\<rparr>"

definition ErrNoResponse :: gerror where
  "ErrNoResponse = OtherError (ascii ''testdevice: no response queued'')"

definition testdevice_fail :: "testdevice \<Rightarrow> Op \<Rightarrow> gerror option" where
  "testdevice_fail d op = td_Errors d op"

definition testdevice_record :: "testdevice \<Rightarrow> Call \<Rightarrow> testdevice" where
  "testdevice_record d c = d\<lparr>td_calls := td_calls d @ [c]\<rparr>"

definition testdevice_Write :: "testdevice \<Rightarrow> bool \<Rightarrow> bytes \<Rightarrow> bool \<Rightarrow> testdevice \<times> gerror option" where
  "testdevice_Write d ctx p e =
     (case testdevice_fail d OpWrite of
        Some err \<Rightarrow> (d, Some err)
      | None \<Rightarrow>
          (testdevice_record (d\<lparr>td_written := td_written d @ p\<rparr>)
             \<lparr>ca_Op = OpWrite, ca_Data = p, ca_End = e, ca_Mode = 0\<rparr>, None))"

definition testdevice_Read ::
    "testdevice \<Rightarrow> bool \<Rightarrow> nat \<Rightarrow> testdevice \<times> bytes \<times> bool \<times> gerror option" where
  "testdevice_Read d ctx len =
     (case testdevice_fail d OpRead of
        Some err \<Rightarrow> (d, [], False, Some err)
      | None \<Rightarrow>
          if \<not> td_inFlight d \<and> td_respIdx d \<ge> length (td_Responses d)
          then (d, [], False, Some ErrNoResponse)
          else
            let d = (if \<not> td_inFlight d
                     then d\<lparr>td_pending := td_Responses d ! td_respIdx d,
                            td_respIdx := td_respIdx d + 1, td_inFlight := True\<rparr> else d);
                p = take len (td_pending d);
                d = d\<lparr>td_pending := drop (length p) (td_pending d)\<rparr>;
                e = (length (td_pending d) = 0);
                d = (if e then d\<lparr>td_inFlight := False\<rparr> else d)
            in (testdevice_record d \<lparr>ca_Op = OpRead, ca_Data = p, ca_End = e, ca_Mode = 0\<rparr>,
                p, e, None))"

definition testdevice_Clear :: "testdevice \<Rightarrow> bool \<Rightarrow> testdevice \<times> gerror option" where
  "testdevice_Clear d ctx =
     (case testdevice_fail d OpClear of
        Some err \<Rightarrow> (d, Some err)
      | None \<Rightarrow>
          (testdevice_record (d\<lparr>td_pending := [], td_inFlight := False\<rparr>)
             \<lparr>ca_Op = OpClear, ca_Data = [], ca_End = False, ca_Mode = 0\<rparr>, None))"

definition testdevice_Trigger :: "testdevice \<Rightarrow> bool \<Rightarrow> testdevice \<times> gerror option" where
  "testdevice_Trigger d ctx =
     (case testdevice_fail d OpTrigger of
        Some err \<Rightarrow> (d, Some err)
      | None \<Rightarrow>
          (testdevice_record d \<lparr>ca_Op = OpTrigger, ca_Data = [], ca_End = False, ca_Mode = 0\<rparr>, None))"

definition testdevice_ReadStatusByte :: "testdevice \<Rightarrow> bool \<Rightarrow> testdevice \<times> byte \<times> gerror option" where
  "testdevice_ReadStatusByte d ctx =
     (case testdevice_fail d OpReadStatusByte of
        Some err \<Rightarrow> (d, 0, Some err)
      | None \<Rightarrow>
          (testdevice_record d
             \<lparr>ca_Op = OpReadStatusByte, ca_Data = [td_Status d], ca_End = False, ca_Mode = 0\<rparr>,
           td_Status d, None))"

definition testdevice_RemoteLocal ::
    "testdevice \<Rightarrow> bool \<Rightarrow> RemoteLocalMode \<Rightarrow> testdevice \<times> gerror option" where
  "testdevice_RemoteLocal d ctx mode =
     (case testdevice_fail d OpRemoteLocal of
        Some err \<Rightarrow> (d, Some err)
      | None \<Rightarrow>
          (testdevice_record d
             \<lparr>ca_Op = OpRemoteLocal, ca_Data = [], ca_End = False, ca_Mode = mode\<rparr>, None))"

definition testdevice_InterfaceClear :: "testdevice \<Rightarrow> bool \<Rightarrow> testdevice \<times> gerror option" where
  "testdevice_InterfaceClear d ctx =
     (case testdevice_fail d OpInterfaceClear of
        Some err \<Rightarrow> (d, Some err)
      | None \<Rightarrow>
          (testdevice_record d
             \<lparr>ca_Op = OpInterfaceClear, ca_Data = [], ca_End = False, ca_Mode = 0\<rparr>, None))"

definition testdevice_Ops :: "testdevice \<Rightarrow> Op list" where
  "testdevice_Ops d = map ca_Op (td_calls d)"

definition testdevice_Count :: "testdevice \<Rightarrow> Op \<Rightarrow> nat" where
  "testdevice_Count d op = length (filter (\<lambda>c. ca_Op c = op) (td_calls d))"

definition testdevice_Reset :: "testdevice \<Rightarrow> testdevice" where
  "testdevice_Reset d = d\<lparr>td_calls := [], td_written := [], td_pending := [], td_respIdx := 0,
     td_inFlight := False\<rparr>"

definition testdevice_ops :: "testdevice Device" where
  "testdevice_ops = \<lparr>dev_Write = testdevice_Write, dev_Read = testdevice_Read,
     dev_Clear = testdevice_Clear, dev_Trigger = testdevice_Trigger,
     dev_ReadStatusByte = testdevice_ReadStatusByte, dev_RemoteLocal = testdevice_RemoteLocal\<rparr>"

text \<open>What is left of the script.\<close>

definition td_left :: "testdevice \<Rightarrow> nat" where
  "td_left d = (if td_inFlight d then length (td_pending d) else 0) +
     sum_list (map length (drop (td_respIdx d) (td_Responses d)))"

lemma td_Read_progress:
  assumes "testdevice_Read d ctx n = (d', bs, False, None)" "0 < n"
  shows "td_left d' < td_left d"
proof (cases "td_inFlight d")
  case True
  with assms show ?thesis
    by (auto simp: testdevice_Read_def testdevice_record_def td_left_def Let_def
        split: option.splits if_splits)
next
  case False
  then show ?thesis
    using assms Cons_nth_drop_Suc [of "td_respIdx d" "td_Responses d", symmetric]
    by (auto simp: testdevice_Read_def testdevice_record_def td_left_def Let_def
        split: option.splits if_splits)
qed

interpretation td: responding_device testdevice_Read td_left
proof (unfold_locales, goal_cases)
  case (1 d ctx n d' bs e err)
  then show ?case by (auto simp: testdevice_Read_def Let_def split: option.splits if_splits)
qed (rule td_Read_progress)

end
