(* ===== verification/Writer.thy ===== *)
theory Writer
  imports Codec
begin

text \<open>
  The per-channel message writer (\<open>server/writer.go\<close>).

  A session's two writers are reached through pointers, from the session and from the channel
  loops, and several writers may refer to one connection. The store \<open>io\<close> holds the
  connections and the writers by address; a writer refers to its connection by address.
\<close>

section \<open>Store and operations\<close>

record MessageWriter =
  mw_stream :: nat
  mw_channel :: Channel
  mw_buf :: bytes
  mw_written :: uint64

record io =
  io_streams :: "nat \<Rightarrow> transport"
  io_writers :: "nat \<Rightarrow> MessageWriter"
  io_nwriters :: nat

definition NewMessageWriter :: "io \<Rightarrow> nat \<Rightarrow> Channel \<Rightarrow> io \<times> nat" where
  "NewMessageWriter io s channel =
     (io\<lparr>io_writers := (io_writers io)(io_nwriters io :=
            \<lparr>mw_stream = s, mw_channel = channel, mw_buf = replicate HeaderSize 0, mw_written = 0\<rparr>),
         io_nwriters := io_nwriters io + 1\<rparr>, io_nwriters io)"

definition MessageWriter_Channel :: "io \<Rightarrow> nat \<Rightarrow> Channel" where
  "MessageWriter_Channel io w = mw_channel (io_writers io w)"

definition MessageWriter_Bytes :: "io \<Rightarrow> nat \<Rightarrow> uint64" where
  "MessageWriter_Bytes io w = mw_written (io_writers io w)"

definition MessageWriter_Write :: "io \<Rightarrow> nat \<Rightarrow> Header \<Rightarrow> bytes \<Rightarrow> io \<times> gerror option" where
  "MessageWriter_Write io w h payload =
     (let mw = io_writers io w; s = mw_stream mw in
      if \<not> MessageType_LegalOn (hType h) (mw_channel mw) then (io, Some ErrWrongChannel)
      else case WriteMessage Stream_Write (io_streams io s) h payload (mw_buf mw) of
        (t, buf, Some e) \<Rightarrow>
          (io\<lparr>io_streams := (io_streams io)(s := t),
              io_writers := (io_writers io)(w := mw\<lparr>mw_buf := buf\<rparr>)\<rparr>, Some e)
      | (t, buf, None) \<Rightarrow>
          (io\<lparr>io_streams := (io_streams io)(s := t),
              io_writers := (io_writers io)(w := mw\<lparr>mw_buf := buf,
                mw_written := mw_written mw + (of_nat HeaderSize + of_nat (length payload))\<rparr>)\<rparr>, None))"

text \<open>A method call on a writer pointer that may be nil.\<close>

definition writer_Write :: "io \<Rightarrow> nat option \<Rightarrow> Header \<Rightarrow> bytes \<Rightarrow> io \<times> gerror option" where
  "writer_Write io w h payload =
     (case w of None \<Rightarrow> (io, Some NilPointer) | Some w \<Rightarrow> MessageWriter_Write io w h payload)"

definition MessageWriter_WriteError :: "io \<Rightarrow> nat option \<Rightarrow> ErrorCode \<Rightarrow> bytes \<Rightarrow> io \<times> gerror option" where
  "MessageWriter_WriteError io w code description =
     writer_Write io w (zero_Header\<lparr>hType := Error, hControl := code\<rparr>) description"

definition MessageWriter_WriteFatalError ::
    "io \<Rightarrow> nat option \<Rightarrow> FatalErrorCode \<Rightarrow> bytes \<Rightarrow> io \<times> gerror option" where
  "MessageWriter_WriteFatalError io w code description =
     writer_Write io w (zero_Header\<lparr>hType := FatalError, hControl := code\<rparr>) description"

text \<open>\<open>stream.Close()\<close> in the store.\<close>

definition io_Close :: "io \<Rightarrow> nat \<Rightarrow> io \<times> gerror option" where
  "io_Close io s =
     (let (t, err) = Stream_Close (io_streams io s) in
      (io\<lparr>io_streams := (io_streams io)(s := t)\<rparr>, err))"

text \<open>Silent connections with nothing to read, and no writers.\<close>

definition quiet_transport :: transport where
  "quiet_transport = \<lparr>tr_in = [], tr_end = None, tr_out = [], tr_wfaults = [], tr_closed = False\<rparr>"

definition empty_io :: io where
  "empty_io = \<lparr>io_streams = \<lambda>_. quiet_transport,
     io_writers = \<lambda>_. \<lparr>mw_stream = 0, mw_channel = ChannelNone, mw_buf = [], mw_written = 0\<rparr>,
     io_nwriters = 0\<rparr>"

section \<open>What a write does\<close>

definition io_out :: "io \<Rightarrow> nat \<Rightarrow> bytes" where
  "io_out io s = tr_out (io_streams io s)"

text \<open>A writer that belongs to a channel of a connection, and a connection on which writes succeed.\<close>

definition writer_ok :: "io \<Rightarrow> nat \<Rightarrow> Channel \<Rightarrow> nat \<Rightarrow> bool" where
  "writer_ok io w ch s \<longleftrightarrow> mw_channel (io_writers io w) = ch \<and> mw_stream (io_writers io w) = s \<and>
     length (mw_buf (io_writers io w)) = 16"

definition up :: "io \<Rightarrow> nat \<Rightarrow> bool" where
  "up io s \<longleftrightarrow> \<not> tr_closed (io_streams io s) \<and> tr_wfaults (io_streams io s) = []"

text \<open>The state after a successful write.\<close>

definition sent :: "io \<Rightarrow> nat \<Rightarrow> Header \<Rightarrow> bytes \<Rightarrow> io" where
  "sent io w h payload =
     (let mw = io_writers io w; s = mw_stream mw; t = io_streams io s in
      io\<lparr>io_streams := (io_streams io)(s := t\<lparr>tr_out := tr_out t @ frame h payload\<rparr>),
         io_writers := (io_writers io)(w := mw\<lparr>
           mw_buf := header_bytes (h\<lparr>hLength := of_nat (length payload)\<rparr>),
           mw_written := mw_written mw + (of_nat HeaderSize + of_nat (length payload))\<rparr>)\<rparr>)"

lemma WriteMessage_clean:
  assumes "length buf = 16" "hLength h = 0 \<or> hLength h = of_nat (length payload)"
    "\<not> tr_closed t" "tr_wfaults t = []"
  shows "WriteMessage Stream_Write t h payload buf =
    (t\<lparr>tr_out := tr_out t @ frame h payload\<rparr>, header_bytes (h\<lparr>hLength := of_nat (length payload)\<rparr>), None)"
  using assms
  by (auto simp: WriteMessage_def WriteHeader_encode Stream_Write_clean frame_def Let_def)

lemma MessageWriter_Write_clean:
  assumes "writer_ok io w ch s" "up io s" "MessageType_LegalOn (hType h) ch"
    "hLength h = 0 \<or> hLength h = of_nat (length payload)"
  shows "MessageWriter_Write io w h payload = (sent io w h payload, None)"
  using assms
  by (simp add: MessageWriter_Write_def writer_ok_def up_def WriteMessage_clean sent_def Let_def)

lemma MessageWriter_Write_wrong_channel:
  "\<not> MessageType_LegalOn (hType h) (mw_channel (io_writers io w)) \<Longrightarrow>
   MessageWriter_Write io w h payload = (io, Some ErrWrongChannel)"
  by (simp add: MessageWriter_Write_def Let_def)

lemma sent_sel [simp]:
  "io_out (sent io w h p) s =
     (if s = mw_stream (io_writers io w) then io_out io s @ frame h p else io_out io s)"
  "writer_ok (sent io w h p) w' ch s \<longleftrightarrow> writer_ok io w' ch s \<or>
     (w' = w \<and> mw_channel (io_writers io w) = ch \<and> mw_stream (io_writers io w) = s)"
  "up (sent io w h p) s = up io s"
  "mw_stream (io_writers (sent io w h p) w') = mw_stream (io_writers io w')"
  by (auto simp: sent_def io_out_def writer_ok_def up_def Let_def)

lemma NewMessageWriter_ok:
  assumes "NewMessageWriter io s ch = (io', w)"
  shows "writer_ok io' w ch s" "io_streams io' = io_streams io"
    "w' \<noteq> w \<Longrightarrow> io_writers io' w' = io_writers io w'" "w = io_nwriters io"
  using assms by (auto simp: NewMessageWriter_def writer_ok_def)

text \<open>Only the writer's own connection is touched, its input side not at all, and whatever
  happens its output only grows.\<close>

lemma MessageWriter_Write_effect:
  assumes "MessageWriter_Write io w h p = (io', err)"
  shows "s \<noteq> mw_stream (io_writers io w) \<Longrightarrow> io_streams io' s = io_streams io s"
    "w' \<noteq> w \<Longrightarrow> io_writers io' w' = io_writers io w'"
    "mw_stream (io_writers io' w) = mw_stream (io_writers io w)"
    "mw_channel (io_writers io' w) = mw_channel (io_writers io w)"
    "io_nwriters io' = io_nwriters io"
  using assms
  by (auto simp: MessageWriter_Write_def Let_def split: if_splits prod.splits option.splits)

lemma WriteMessage_buf:
  assumes "length buf = 16" "WriteMessage wr t h p buf = (t', buf', err)"
  shows "length buf' = 16"
  using assms
  by (auto simp: WriteMessage_def WriteHeader_encode Let_def split: if_splits prod.splits option.splits)

lemma WriteMessage_success:
  assumes "length buf = 16" "WriteMessage Stream_Write t h p buf = (t', buf', None)"
  shows "tr_out t' = tr_out t @ frame h p"
proof -
  have w: "tr_out t2 = tr_out t1 @ x" if "Stream_Write t1 x = (t2, None)" for t1 t2 x
    using Stream_Write_prefix [OF that] by auto
  show ?thesis
    using assms
    by (auto simp: WriteMessage_def WriteHeader_encode frame_def Let_def dest!: w
        split: if_splits prod.splits option.splits)
qed

lemma writer_ok_Write:
  assumes "MessageWriter_Write io w h p = (io', err)" "writer_ok io w' ch s"
  shows "writer_ok io' w' ch s"
  using assms
  by (auto simp: MessageWriter_Write_def writer_ok_def Let_def dest: WriteMessage_buf
      split: if_splits prod.splits option.splits)

section \<open>Properties\<close>

text \<open>
  A writer never puts a message on the wrong channel and never damages another connection.
  A type that is not legal on the writer's channel is refused with nothing written. In every other
  case all other connections and writers are as before, and on success the connection has
  received exactly one whole frame and the byte counter has grown, modulo 64 bits, by the length
  of that frame.
\<close>

lemma writer_channel_discipline:
  assumes "writer_ok io w ch s" and "MessageWriter_Write io w h payload = (io', err)"
  shows "(\<not> MessageType_LegalOn (hType h) ch \<longrightarrow> io' = io \<and> err = Some ErrWrongChannel) \<and>
    (\<forall>s'. s' \<noteq> s \<longrightarrow> io_streams io' s' = io_streams io s') \<and>
    (\<forall>w'. w' \<noteq> w \<longrightarrow> io_writers io' w' = io_writers io w') \<and>
    (err = None \<longrightarrow> io_out io' s = io_out io s @ frame h payload \<and>
      MessageWriter_Bytes io' w = MessageWriter_Bytes io w + of_nat (length (frame h payload))) \<and>
    (err \<noteq> None \<longrightarrow> MessageWriter_Bytes io' w = MessageWriter_Bytes io w)"
proof -
  have st: "mw_stream (io_writers io w) = s" "mw_channel (io_writers io w) = ch"
    and buf: "length (mw_buf (io_writers io w)) = 16"
    using assms(1) by (simp_all add: writer_ok_def)
  have "io' = io \<and> err = Some ErrWrongChannel" if "\<not> MessageType_LegalOn (hType h) ch"
    using MessageWriter_Write_wrong_channel that assms(2) st by auto
  moreover have "io_out io' s = io_out io s @ frame h payload" if "err = None"
    using assms(2) that st WriteMessage_success [OF buf]
    by (auto simp: MessageWriter_Write_def io_out_def Let_def
        split: if_splits prod.splits option.splits)
  moreover have "MessageWriter_Bytes io' w = MessageWriter_Bytes io w +
      (if err = None then of_nat (length (frame h payload)) else 0)"
    using assms(2) st
    by (auto simp: MessageWriter_Write_def MessageWriter_Bytes_def Let_def frame_def
        split: if_splits prod.splits option.splits)
  ultimately show ?thesis
    using MessageWriter_Write_effect [OF assms(2)] st by auto
qed

end
