(* ===== verification/Session.thy ===== *)
theory Session
  imports Config Rmt Status Transactions Locks Device Writer "HOL-Library.AList"
begin

text \<open>
  Sessions (\<open>server/session.go\<close>) and the server that owns them (\<open>server/server.go\<close>).

  Sessions, message writers and connections are reached through pointers from several
  goroutines, so the server state holds them in stores by address. The Go map of sessions is an
  association list with distinct keys. The cancel function of a bus operation is the number of
  the operation, and \<open>sv_cancelled\<close> is the set of operations whose context has been cancelled.
  The field \<open>se_pending\<close> records whether the synchronous channel loop has installed its
  queued-input predicate; what the predicate answers when it is called is an argument of the
  operations that call it. Methods that hold the session's mutex throughout are one atomic step.
\<close>

section \<open>Sessions\<close>

datatype State = StatePairing | StateReady | StateClearing | StateClosed

fun State_String :: "State \<Rightarrow> string" where
  "State_String StatePairing = ''pairing''"
| "State_String StateReady = ''ready''"
| "State_String StateClearing = ''clearing''"
| "State_String StateClosed = ''closed''"

record 'x Session =
  se_id :: uint16
  se_version :: Version
  se_overlap :: bool
  se_state :: State
  se_sync :: "nat option"
  se_async :: "nat option"
  se_rmt :: RMT
  se_status :: Status
  se_lastTx :: MessageID
  se_maxRx :: uint64
  se_maxTx :: uint64
  se_opCancel :: "nat option"
  se_tx :: Transaction
  se_syncW :: "nat option"
  se_asyncW :: "nat option"
  se_pending :: bool
  se_policy :: "'x ResponsePolicy option"

definition newSession :: "uint16 \<Rightarrow> Version \<Rightarrow> nat \<Rightarrow> 'x Config \<Rightarrow> 'x Session" where
  "newSession i version syncStream cfg =
     \<lparr>se_id = i, se_version = version, se_overlap = False, se_state = StatePairing,
      se_sync = Some syncStream, se_async = None, se_rmt = zero_RMT, se_status = NewStatus,
      se_lastTx = NoMessageID, se_maxRx = cf_MaxRxPayload cfg, se_maxTx = cf_MaxTxPayload cfg,
      se_opCancel = None, se_tx = zero_Transaction, se_syncW = None, se_asyncW = None,
      se_pending = False, se_policy = None\<rparr>"

text \<open>Installing the writers, and the predicate of the reader, which is there or not.\<close>

definition Session_setSyncWriter :: "'x Session \<Rightarrow> nat option \<Rightarrow> 'x Session" where
  [simp]: "Session_setSyncWriter s w = s\<lparr>se_syncW := w\<rparr>"

definition Session_setAsyncWriter :: "'x Session \<Rightarrow> nat option \<Rightarrow> 'x Session" where
  [simp]: "Session_setAsyncWriter s w = s\<lparr>se_asyncW := w\<rparr>"

definition Session_setSyncPending :: "'x Session \<Rightarrow> bool \<Rightarrow> 'x Session" where
  [simp]: "Session_setSyncPending s f = s\<lparr>se_pending := f\<rparr>"

text \<open>What \<open>syncPending\<close> answers when the installed predicate would answer \<open>queued\<close>.\<close>

definition Session_syncPending :: "'x Session \<Rightarrow> bool \<Rightarrow> bool" where
  "Session_syncPending s queued = (if \<not> se_pending s then False else queued)"

definition Session_feedProgramMessage :: "'x policy_ops \<Rightarrow> 'x Session \<Rightarrow> bytes \<Rightarrow> 'x Session" where
  "Session_feedProgramMessage ops s p =
     (if length p = 0 then s
      else case se_policy s of
        None \<Rightarrow> s
      | Some pol \<Rightarrow> s\<lparr>se_policy := Some (ResponsePolicy_Feed ops pol p)\<rparr>)"

definition Session_programDisposition :: "'x policy_ops \<Rightarrow> 'x Session \<Rightarrow> 'x Session \<times> Disposition" where
  "Session_programDisposition ops s =
     (case se_policy s of
        None \<Rightarrow> (s, NoResponseExpected)
      | Some pol \<Rightarrow>
          (s\<lparr>se_policy := Some (ResponsePolicy_Reset ops pol)\<rparr>, ResponsePolicy_Disposition ops pol))"

definition Session_setLastTxMessageID :: "'x Session \<Rightarrow> MessageID \<Rightarrow> 'x Session" where
  "Session_setLastTxMessageID s i = s\<lparr>se_lastTx := i\<rparr>"

definition Session_attachAsync :: "'x Session \<Rightarrow> nat \<Rightarrow> 'x Session \<times> gerror option" where
  "Session_attachAsync s stream =
     (if se_state s \<noteq> StatePairing then (s, Some ErrInvalidSession)
      else if se_async s \<noteq> None then (s, Some ErrInvalidSession)
      else (s\<lparr>se_async := Some stream, se_state := StateReady\<rparr>, None))"

definition Session_Ready :: "'x Session \<Rightarrow> bool" where
  "Session_Ready s \<longleftrightarrow> se_state s = StateReady"

definition Session_requireReady :: "'x Session \<Rightarrow> gerror option" where
  "Session_requireReady s =
     (case se_state s of
        StateReady \<Rightarrow> None
      | StateClearing \<Rightarrow> None
      | StateClosed \<Rightarrow> Some ErrInvalidSession
      | StatePairing \<Rightarrow> Some ErrSessionNotReady)"

definition Session_beginClear :: "'x Session \<Rightarrow> 'x Session" where
  "Session_beginClear s = (if se_state s = StateReady then s\<lparr>se_state := StateClearing\<rparr> else s)"

definition Session_completeClear :: "'x Session \<Rightarrow> bool \<Rightarrow> 'x Session" where
  "Session_completeClear s overlap =
     (let s = s\<lparr>se_overlap := overlap, se_rmt := RMT_Reset (se_rmt s),
                se_status := Status_Reset (se_status s), se_lastTx := NoMessageID\<rparr>
      in if se_state s = StateClearing then s\<lparr>se_state := StateReady\<rparr> else s)"

section \<open>Server\<close>

record Counters =
  ct_SessionsOpened :: uint64
  ct_SessionsRefused :: uint64
  ct_FatalErrors :: uint64
  ct_NonFatalErrors :: uint64
  ct_WrongChannel :: uint64
  ct_SilentInterrupted :: uint64
  ct_InterruptedSent :: uint64
  ct_QueriesWithoutAnswer :: uint64
  ct_TruncatedResponses :: uint64
  ct_DeviceClears :: uint64
  ct_Triggers :: uint64
  ct_SerialPolls :: uint64
  ct_ServiceRequests :: uint64
  ct_OversizedMessages :: uint64

definition zero_Counters :: Counters where
  "zero_Counters = \<lparr>ct_SessionsOpened = 0, ct_SessionsRefused = 0, ct_FatalErrors = 0,
     ct_NonFatalErrors = 0, ct_WrongChannel = 0, ct_SilentInterrupted = 0, ct_InterruptedSent = 0,
     ct_QueriesWithoutAnswer = 0, ct_TruncatedResponses = 0, ct_DeviceClears = 0, ct_Triggers = 0,
     ct_SerialPolls = 0, ct_ServiceRequests = 0, ct_OversizedMessages = 0\<rparr>"

text \<open>\<open>sv_heap\<close> holds the sessions by address, \<open>sv_io\<close> the connections and writers;
  \<open>sv_nheap\<close> and \<open>sv_nops\<close> are the next free address and operation number.\<close>

record ('d, 'x) Server =
  sv_cfg :: "'x Config"
  sv_dev :: 'd
  sv_sessions :: "(uint16 \<times> nat) list"
  sv_nextID :: uint16
  sv_locks :: LockManager
  sv_newPolicy :: "'x ResponsePolicy option"
  sv_counters :: Counters
  sv_heap :: "nat \<Rightarrow> 'x Session"
  sv_nheap :: nat
  sv_io :: io
  sv_nops :: nat
  sv_cancelled :: "nat set"

definition New :: "'d option \<Rightarrow> 'x Config \<Rightarrow> io \<Rightarrow> gerror + ('d, 'x) Server" where
  "New dev cfg io =
     (case dev of
        None \<Rightarrow> Inl ErrInvalidConfig
      | Some dev \<Rightarrow>
          let cfg = Config_withDefaults cfg in
          case Config_validate cfg of
            Some err \<Rightarrow> Inl err
          | None \<Rightarrow>
              let newPolicy = (case cf_Policy cfg of
                                 None \<Rightarrow> Some (SCPIQuery NewSCPIQueryPolicy)
                               | Some factory \<Rightarrow> factory)
              in Inr \<lparr>sv_cfg = cfg, sv_dev = dev, sv_sessions = [], sv_nextID = 1,
                      sv_locks = zero_LockManager, sv_newPolicy = newPolicy,
                      sv_counters = zero_Counters,
                      sv_heap = (\<lambda>_. newSession 0 zero_Version 0 cfg), sv_nheap = 0,
                      sv_io = io, sv_nops = 0, sv_cancelled = {}\<rparr>)"

definition upd :: "('d, 'x) Server \<Rightarrow> nat \<Rightarrow> ('x Session \<Rightarrow> 'x Session) \<Rightarrow> ('d, 'x) Server" where
  "upd s p f = s\<lparr>sv_heap := (sv_heap s)(p := f (sv_heap s p))\<rparr>"

definition Server_Sessions :: "('d, 'x) Server \<Rightarrow> nat" where
  "Server_Sessions s = length (sv_sessions s)"

definition Server_Session :: "('d, 'x) Server \<Rightarrow> uint16 \<Rightarrow> nat option" where
  "Server_Session s i = map_of (sv_sessions s) i"

text \<open>The loop of \<open>allocateIDLocked\<close>: the next ID to try, and the ID found.\<close>

fun allocateID_loop :: "nat \<Rightarrow> (uint16 \<times> nat) list \<Rightarrow> uint16 \<Rightarrow> uint16 \<times> uint16 option" where
  "allocateID_loop 0 sessions nextID = (nextID, None)"
| "allocateID_loop (Suc k) sessions nextID =
     (let i = nextID; n = nextID + 1; n = (if n = 0 then 1 else n) in
      if map_of sessions i = None \<and> i \<noteq> 0 then (n, Some i)
      else allocateID_loop k sessions n)"

definition Server_allocateIDLocked :: "('d, 'x) Server \<Rightarrow> ('d, 'x) Server \<times> uint16 option" where
  "Server_allocateIDLocked s =
     (let (n, r) = allocateID_loop (2 ^ 16) (sv_sessions s) (sv_nextID s) in (s\<lparr>sv_nextID := n\<rparr>, r))"

definition Server_allocateSession ::
    "('d, 'x) Server \<Rightarrow> Version \<Rightarrow> nat \<Rightarrow> ('d, 'x) Server \<times> (gerror + nat)" where
  "Server_allocateSession s version syncStream =
     (if int (length (sv_sessions s)) \<ge> cf_MaxSessions (sv_cfg s) then (s, Inl ErrMaxClients)
      else case Server_allocateIDLocked s of
        (s, None) \<Rightarrow> (s, Inl ErrMaxClients)
      | (s, Some i) \<Rightarrow>
          let p = sv_nheap s;
              sess = (newSession i version syncStream (sv_cfg s))\<lparr>se_policy := sv_newPolicy s\<rparr>
          in (s\<lparr>sv_heap := (sv_heap s)(p := sess), sv_nheap := p + 1,
                sv_sessions := AList.update i p (sv_sessions s)\<rparr>, Inr p))"

text \<open>Calling a cancel function.\<close>

definition cancel :: "('d, 'x) Server \<Rightarrow> nat option \<Rightarrow> ('d, 'x) Server" where
  "cancel s c = (case c of None \<Rightarrow> s | Some op \<Rightarrow> s\<lparr>sv_cancelled := insert op (sv_cancelled s)\<rparr>)"

text \<open>Close the streams of a list that are not nil, keeping the first error.\<close>

fun close_streams :: "io \<Rightarrow> nat option list \<Rightarrow> gerror option \<Rightarrow> io \<times> gerror option" where
  "close_streams io [] firstErr = (io, firstErr)"
| "close_streams io (None # sts) firstErr = close_streams io sts firstErr"
| "close_streams io (Some st # sts) firstErr =
     (let (io, err) = io_Close io st in
      close_streams io sts (if err \<noteq> None \<and> firstErr = None then err else firstErr))"

definition Session_close :: "('d, 'x) Server \<Rightarrow> nat \<Rightarrow> ('d, 'x) Server \<times> gerror option" where
  "Session_close s p =
     (let sess = sv_heap s p;
          streams = [se_sync sess, se_async sess];
          s = upd s p (\<lambda>se. se\<lparr>se_sync := None, se_async := None, se_state := StateClosed,
                              se_opCancel := None\<rparr>);
          s = cancel s (se_opCancel sess);
          (io, err) = close_streams (sv_io s) streams None
      in (s\<lparr>sv_io := io\<rparr>, err))"

text \<open>\<open>Operation\<close> registers a fresh context; \<open>release_operation\<close> is the function it returns.
  A context is done when its parent is or when its own cancel function has been called.\<close>

definition Session_Operation :: "('d, 'x) Server \<Rightarrow> nat \<Rightarrow> ('d, 'x) Server \<times> nat" where
  "Session_Operation s p =
     (upd (s\<lparr>sv_nops := sv_nops s + 1\<rparr>) p (\<lambda>se. se\<lparr>se_opCancel := Some (sv_nops s)\<rparr>), sv_nops s)"

definition release_operation :: "('d, 'x) Server \<Rightarrow> nat \<Rightarrow> nat \<Rightarrow> ('d, 'x) Server" where
  "release_operation s p op =
     cancel (upd s p (\<lambda>se. if se_opCancel se \<noteq> None then se\<lparr>se_opCancel := None\<rparr> else se)) (Some op)"

definition Session_abortOperation :: "('d, 'x) Server \<Rightarrow> nat \<Rightarrow> ('d, 'x) Server" where
  "Session_abortOperation s p =
     cancel (upd s p (\<lambda>se. se\<lparr>se_opCancel := None\<rparr>)) (se_opCancel (sv_heap s p))"

definition Server_removeSession :: "('d, 'x) Server \<Rightarrow> nat \<Rightarrow> ('d, 'x) Server \<times> gerror option" where
  "Server_removeSession s p =
     (let i = se_id (sv_heap s p);
          s = s\<lparr>sv_locks := LockManager_ReleaseAll (sv_locks s) i\<rparr>;
          s = s\<lparr>sv_sessions := AList.delete i (sv_sessions s)\<rparr>
      in Session_close s p)"

text \<open>Go leaves the order in which a map is traversed open; here it is the order of the list.\<close>

fun close_sessions_loop ::
    "('d, 'x) Server \<Rightarrow> nat list \<Rightarrow> gerror option \<Rightarrow> ('d, 'x) Server \<times> gerror option" where
  "close_sessions_loop s [] firstErr = (s, firstErr)"
| "close_sessions_loop s (p # ps) firstErr =
     (let s = s\<lparr>sv_locks := LockManager_ReleaseAll (sv_locks s) (se_id (sv_heap s p))\<rparr>;
          (s, err) = Session_close s p
      in close_sessions_loop s ps (if err \<noteq> None \<and> firstErr = None then err else firstErr))"

definition Server_CloseAll :: "('d, 'x) Server \<Rightarrow> ('d, 'x) Server \<times> gerror option" where
  "Server_CloseAll s =
     (let all = map snd (sv_sessions s);
          s = s\<lparr>sv_sessions := []\<rparr>
      in close_sessions_loop s all None)"

definition Server_count :: "('d, 'x) Server \<Rightarrow> (Counters \<Rightarrow> Counters) \<Rightarrow> ('d, 'x) Server" where
  "Server_count s f = s\<lparr>sv_counters := f (sv_counters s)\<rparr>"

section \<open>Session identifiers\<close>

text \<open>The identifiers tried are the non-zero ones in cyclic order.\<close>

definition next_id :: "uint16 \<Rightarrow> uint16" where
  "next_id n = (if n + 1 = 0 then 1 else n + 1)"

lemma allocateID_loop_Suc:
  "allocateID_loop (Suc k) ss n =
     (if map_of ss n = None \<and> n \<noteq> 0 then (next_id n, Some n) else allocateID_loop k ss (next_id n))"
  by (simp add: next_id_def Let_def)

lemma next_id_nonzero [simp]: "next_id n \<noteq> 0"
  by (simp add: next_id_def)

lemma allocateID_loop_next: "n \<noteq> 0 \<Longrightarrow> fst (allocateID_loop k ss n) \<noteq> 0"
  by (induction k arbitrary: n) (simp_all add: allocateID_loop_Suc del: allocateID_loop.simps(2))

lemma allocateID_loop_fresh:
  "allocateID_loop k ss n = (n', Some i) \<Longrightarrow> map_of ss i = None \<and> i \<noteq> 0"
  by (induction k arbitrary: n)
    (auto simp: allocateID_loop_Suc simp del: allocateID_loop.simps(2) split: if_splits)

lemma allocateID_loop_None:
  "allocateID_loop k ss n = (n', None) \<Longrightarrow> j < k \<Longrightarrow>
   map_of ss ((next_id ^^ j) n) \<noteq> None \<or> (next_id ^^ j) n = 0"
proof (induction k arbitrary: n j)
  case (Suc k)
  then show ?case
    by (cases j) (auto simp: allocateID_loop_Suc funpow_swap1 simp del: allocateID_loop.simps(2)
        split: if_splits)
qed simp

lemma allocateID_first:
  "map_of ss n = None \<Longrightarrow> n \<noteq> 0 \<Longrightarrow> allocateID_loop 65536 ss n = (next_id n, Some n)"
  using allocateID_loop_Suc [of 65535 ss n] by simp

lemma unat_16: "unat (n :: uint16) < 65536"
  using unsigned_less [of n, where 'a = nat] by simp

lemma unat_next_id:
  "n \<noteq> 0 \<Longrightarrow> unat (next_id n) = unat n mod 65535 + 1"
proof -
  assume "n \<noteq> 0"
  have lt: "unat n < 65536" by (rule unat_16)
  have z: "n + 1 = 0 \<longleftrightarrow> unat n = 65535"
  proof
    assume "n + 1 = 0"
    then have "n = - 1" by (simp add: eq_neg_iff_add_eq_0)
    then have "n = of_nat 65535" by simp
    then show "unat n = 65535" by (simp add: unsigned_of_nat)
  next
    assume "unat n = 65535"
    then have "n = 65535" by (simp add: word_unat_eq_iff)
    then show "n + 1 = 0" by simp
  qed
  show ?thesis
  proof (cases "unat n = 65535")
    case True
    with z show ?thesis by (simp add: next_id_def)
  next
    case False
    with z lt have "n + 1 \<noteq> 0" "unat n < 65535" by auto
    then show ?thesis using unatSuc [of n] by (simp add: next_id_def add.commute)
  qed
qed

lemma next_id_funpow:
  "n \<noteq> 0 \<Longrightarrow> (next_id ^^ j) n \<noteq> 0 \<and> unat ((next_id ^^ j) n) = (unat n - 1 + j) mod 65535 + 1"
proof (induction j)
  case 0
  have "0 < unat n" "unat n < 65536" using 0 unat_16 [of n] by (simp_all add: unat_gt_0)
  then show ?case using 0 by simp
next
  case (Suc j)
  then show ?case by (simp add: unat_next_id mod_Suc_eq)
qed

lemma next_id_reaches:
  assumes "n \<noteq> 0" "i \<noteq> 0"
  shows "\<exists>j < 65536. (next_id ^^ j) n = i"
proof -
  define j where "j = (unat i + 65535 - unat n) mod 65535"
  have b: "0 < unat n" "unat n \<le> 65535" "0 < unat i" "unat i \<le> 65535"
    using assms unat_16 [of n] unat_16 [of i] by (simp_all add: unat_gt_0)
  have "(unat n - 1 + j) mod 65535 = (unat n - 1 + (unat i + 65535 - unat n)) mod 65535"
    by (simp add: j_def mod_add_right_eq)
  also have "\<dots> = (unat i - 1 + 65535) mod 65535" using b by (simp add: algebra_simps)
  also have "\<dots> = (unat i - 1) mod 65535" by (rule mod_add_self2)
  also have "\<dots> = unat i - 1" using b by simp
  finally have "unat ((next_id ^^ j) n) = unat i" using next_id_funpow [OF assms(1), of j] b by simp
  then have "(next_id ^^ j) n = i" by (simp only: word_unat_eq_iff)
  moreover have "j < 65536" by (simp add: j_def less_SucI)
  ultimately show ?thesis by blast
qed

lemma allocateID_complete:
  assumes "n \<noteq> 0" "i \<noteq> 0" "map_of ss i = None"
  shows "\<exists>n' i'. allocateID_loop (2 ^ 16) ss n = (n', Some i')"
proof (rule ccontr)
  assume "\<not> ?thesis"
  then obtain n' where "allocateID_loop (2 ^ 16) ss n = (n', None)"
    by (metis option.exhaust prod.exhaust)
  moreover obtain j where "j < 65536" "(next_id ^^ j) n = i" using next_id_reaches assms by blast
  ultimately show False using allocateID_loop_None [of "2 ^ 16" ss n n' j] assms by simp
qed

section \<open>The registry\<close>

text \<open>The invariant of the session table, and of the configuration it was built with.\<close>

definition registry_inv :: "('d, 'x) Server \<Rightarrow> bool" where
  "registry_inv s \<longleftrightarrow> valid_Config (sv_cfg s) \<and> sv_nextID s \<noteq> 0 \<and>
     distinct (map fst (sv_sessions s)) \<and> distinct (map snd (sv_sessions s)) \<and>
     int (length (sv_sessions s)) \<le> cf_MaxSessions (sv_cfg s) \<and>
     (\<forall>(i, p) \<in> set (sv_sessions s). i \<noteq> 0 \<and> p < sv_nheap s \<and> se_id (sv_heap s p) = i)"

lemma upd_sel [simp]:
  "sv_cfg (upd s p f) = sv_cfg s" "sv_dev (upd s p f) = sv_dev s"
  "sv_sessions (upd s p f) = sv_sessions s" "sv_nextID (upd s p f) = sv_nextID s"
  "sv_locks (upd s p f) = sv_locks s" "sv_newPolicy (upd s p f) = sv_newPolicy s"
  "sv_counters (upd s p f) = sv_counters s" "sv_nheap (upd s p f) = sv_nheap s"
  "sv_io (upd s p f) = sv_io s" "sv_nops (upd s p f) = sv_nops s"
  "sv_cancelled (upd s p f) = sv_cancelled s"
  "sv_heap (upd s p f) q = (if q = p then f (sv_heap s p) else sv_heap s q)"
  by (simp_all add: upd_def)

lemma upd_upd [simp]: "upd (upd s p f) p g = upd s p (\<lambda>x. g (f x))"
  by (simp add: upd_def)

lemma upd_id: "upd s p (\<lambda>x. x) = s"
  by (simp add: upd_def)

lemma cancel_sel [simp]:
  "sv_cfg (cancel s c) = sv_cfg s" "sv_dev (cancel s c) = sv_dev s"
  "sv_sessions (cancel s c) = sv_sessions s" "sv_nextID (cancel s c) = sv_nextID s"
  "sv_locks (cancel s c) = sv_locks s" "sv_newPolicy (cancel s c) = sv_newPolicy s"
  "sv_counters (cancel s c) = sv_counters s" "sv_nheap (cancel s c) = sv_nheap s"
  "sv_heap (cancel s c) = sv_heap s" "sv_io (cancel s c) = sv_io s" "sv_nops (cancel s c) = sv_nops s"
  "sv_cancelled (cancel s c) = sv_cancelled s \<union> set_option c"
  by (auto simp: cancel_def split: option.splits)

lemma Server_count_sel [simp]:
  "sv_cfg (Server_count s f) = sv_cfg s" "sv_dev (Server_count s f) = sv_dev s"
  "sv_sessions (Server_count s f) = sv_sessions s" "sv_nextID (Server_count s f) = sv_nextID s"
  "sv_locks (Server_count s f) = sv_locks s" "sv_newPolicy (Server_count s f) = sv_newPolicy s"
  "sv_counters (Server_count s f) = f (sv_counters s)" "sv_nheap (Server_count s f) = sv_nheap s"
  "sv_heap (Server_count s f) = sv_heap s" "sv_io (Server_count s f) = sv_io s"
  "sv_nops (Server_count s f) = sv_nops s" "sv_cancelled (Server_count s f) = sv_cancelled s"
  by (simp_all add: Server_count_def)

lemma Session_close_sel [simp]:
  "sv_cfg (fst (Session_close s p)) = sv_cfg s" "sv_dev (fst (Session_close s p)) = sv_dev s"
  "sv_sessions (fst (Session_close s p)) = sv_sessions s"
  "sv_nextID (fst (Session_close s p)) = sv_nextID s"
  "sv_locks (fst (Session_close s p)) = sv_locks s"
  "sv_nheap (fst (Session_close s p)) = sv_nheap s"
  "sv_cancelled (fst (Session_close s p)) = sv_cancelled s \<union> set_option (se_opCancel (sv_heap s p))"
  "sv_heap (fst (Session_close s p)) q =
     (if q = p then (sv_heap s p)\<lparr>se_sync := None, se_async := None, se_state := StateClosed,
        se_opCancel := None\<rparr> else sv_heap s q)"
  by (simp_all add: Session_close_def Let_def split: prod.splits)

lemma registry_inv_New:
  "New dev cfg io = Inr s \<Longrightarrow> registry_inv s"
  by (auto simp: New_def registry_inv_def Let_def validate_valid valid_Config_def split: option.splits)

lemma registry_inv_upd:
  "registry_inv s \<Longrightarrow> (\<And>x. se_id (f x) = se_id x) \<Longrightarrow> registry_inv (upd s p f)"
  by (auto simp: registry_inv_def)

lemma registry_inv_cong:
  assumes "registry_inv s" "sv_cfg s' = sv_cfg s" "sv_sessions s' = sv_sessions s"
    "sv_nextID s' = sv_nextID s" "sv_nheap s' = sv_nheap s"
    "\<And>p. se_id (sv_heap s' p) = se_id (sv_heap s p)"
  shows "registry_inv s'"
  using assms by (simp add: registry_inv_def)

lemma AList_update_new: "map_of xs k = None \<Longrightarrow> AList.update k v xs = xs @ [(k, v)]"
  by (induction xs) auto

lemma map_of_None_set: "map_of xs k = None \<longleftrightarrow> k \<notin> fst ` set xs"
  by (simp add: map_of_eq_None_iff)

lemma allocateSession_cases:
  assumes "registry_inv s"
  obtains (full) "int (length (sv_sessions s)) = cf_MaxSessions (sv_cfg s)"
      "Server_allocateSession s v st = (s, Inl ErrMaxClients)"
  | (exhausted) n where "int (length (sv_sessions s)) < cf_MaxSessions (sv_cfg s)"
      "\<forall>i. i \<noteq> 0 \<longrightarrow> map_of (sv_sessions s) i \<noteq> None"
      "Server_allocateSession s v st = (s\<lparr>sv_nextID := n\<rparr>, Inl ErrMaxClients)" "n \<noteq> 0"
  | (allocated) n i where "int (length (sv_sessions s)) < cf_MaxSessions (sv_cfg s)"
      "map_of (sv_sessions s) i = None" "i \<noteq> 0" "n \<noteq> 0"
      "Server_allocateSession s v st =
        (s\<lparr>sv_nextID := n, sv_heap := (sv_heap s)(sv_nheap s :=
             (newSession i v st (sv_cfg s))\<lparr>se_policy := sv_newPolicy s\<rparr>),
           sv_nheap := sv_nheap s + 1, sv_sessions := sv_sessions s @ [(i, sv_nheap s)]\<rparr>,
         Inr (sv_nheap s))"
proof -
  obtain n r where a: "allocateID_loop (2 ^ 16) (sv_sessions s) (sv_nextID s) = (n, r)" by fastforce
  have n: "n \<noteq> 0"
    using allocateID_loop_next [of "sv_nextID s" "2 ^ 16" "sv_sessions s"] assms a
    by (simp add: registry_inv_def)
  show ?thesis
  proof (cases "int (length (sv_sessions s)) \<ge> cf_MaxSessions (sv_cfg s)")
    case True
    with assms show ?thesis
      by (intro full) (auto simp: registry_inv_def Server_allocateSession_def)
  next
    case False
    show ?thesis
    proof (cases r)
      case None
      have "map_of (sv_sessions s) i \<noteq> None" if "i \<noteq> 0" for i
        using allocateID_complete [of "sv_nextID s" i "sv_sessions s"] a None that assms
        unfolding registry_inv_def by (metis option.distinct(1) prod.inject)
      with False a None n show ?thesis
        by (intro exhausted) (auto simp: Server_allocateSession_def Server_allocateIDLocked_def)
    next
      case (Some i)
      with a have "map_of (sv_sessions s) i = None" "i \<noteq> 0"
        by (auto dest: allocateID_loop_fresh)
      with False a Some n show ?thesis
        by (intro allocated)
          (auto simp: Server_allocateSession_def Server_allocateIDLocked_def AList_update_new Let_def)
    qed
  qed
qed

lemma registry_inv_allocate:
  assumes "registry_inv s" "Server_allocateSession s v st = (s', r)"
  shows "registry_inv s'"
  using assms(1)
proof (cases rule: allocateSession_cases [of s v st])
  case (allocated n i)
  have p: "q < sv_nheap s" if "(j, q) \<in> set (sv_sessions s)" for j q
    using assms(1) that by (auto simp: registry_inv_def)
  have "s' = s\<lparr>sv_nextID := n, sv_heap := (sv_heap s)(sv_nheap s :=
             (newSession i v st (sv_cfg s))\<lparr>se_policy := sv_newPolicy s\<rparr>),
           sv_nheap := sv_nheap s + 1, sv_sessions := sv_sessions s @ [(i, sv_nheap s)]\<rparr>"
    using allocated(5) assms(2) by simp
  with assms(1) allocated(1-4) show ?thesis
    by (auto simp: registry_inv_def map_of_None_set newSession_def less_Suc_eq dest: p)
qed (use assms in \<open>auto simp: registry_inv_def\<close>)

lemma registry_inv_remove:
  assumes "registry_inv s"
  shows "registry_inv (fst (Server_removeSession s p))"
proof -
  let ?i = "se_id (sv_heap s p)"
  have "AList.delete ?i (sv_sessions s) = filter (\<lambda>x. ?i \<noteq> fst x) (sv_sessions s)"
    by (simp add: AList.delete_eq case_prod_unfold)
  moreover have "int (length (filter (\<lambda>x. ?i \<noteq> fst x) (sv_sessions s))) \<le> cf_MaxSessions (sv_cfg s)"
    using assms length_filter_le [of "\<lambda>x. ?i \<noteq> fst x" "sv_sessions s"]
    unfolding registry_inv_def by linarith
  ultimately show ?thesis
    using assms
    by (auto simp: registry_inv_def Server_removeSession_def Let_def distinct_map
        intro: inj_on_subset)
qed

subsection \<open>Closing\<close>

definition stream_closed :: "('d, 'x) Server \<Rightarrow> nat \<Rightarrow> bool" where
  "stream_closed s st \<longleftrightarrow> tr_closed (io_streams (sv_io s) st)"

lemma close_streams_closed:
  "close_streams io sts e = (io', e') \<Longrightarrow>
   tr_closed (io_streams io' st) \<longleftrightarrow> tr_closed (io_streams io st) \<or> Some st \<in> set sts"
  by (induction io sts e rule: close_streams.induct)
    (auto simp: io_Close_def Stream_Close_def Let_def)

lemma Session_close_streams:
  "stream_closed (fst (Session_close s p)) st \<longleftrightarrow>
     stream_closed s st \<or> se_sync (sv_heap s p) = Some st \<or> se_async (sv_heap s p) = Some st"
proof -
  let ?sts = "[se_sync (sv_heap s p), se_async (sv_heap s p)]"
  obtain io e where c: "close_streams (sv_io s) ?sts None = (io, e)"
    by (cases "close_streams (sv_io s) ?sts None")
  have "sv_io (fst (Session_close s p)) = io"
    using c by (simp add: Session_close_def Let_def del: close_streams.simps)
  then have "stream_closed (fst (Session_close s p)) st \<longleftrightarrow> tr_closed (io_streams io st)"
    by (simp add: stream_closed_def)
  also have "\<dots> \<longleftrightarrow> tr_closed (io_streams (sv_io s) st) \<or> Some st \<in> set ?sts"
    by (rule close_streams_closed [OF c])
  finally show ?thesis by (auto simp: stream_closed_def)
qed

definition close_one :: "('d, 'x) Server \<Rightarrow> nat \<Rightarrow> ('d, 'x) Server" where
  "close_one s p =
     fst (Session_close (s\<lparr>sv_locks := LockManager_ReleaseAll (sv_locks s) (se_id (sv_heap s p))\<rparr>) p)"

lemma close_sessions_loop_foldl: "fst (close_sessions_loop s ps e) = foldl close_one s ps"
  by (induction ps arbitrary: s e) (simp_all add: close_one_def Let_def split: prod.splits)

lemma close_one_sel [simp]:
  "sv_sessions (close_one s p) = sv_sessions s"
  "sv_locks (close_one s p) = LockManager_ReleaseAll (sv_locks s) (se_id (sv_heap s p))"
  "sv_heap (close_one s p) q =
     (if q = p then (sv_heap s p)\<lparr>se_sync := None, se_async := None, se_state := StateClosed,
        se_opCancel := None\<rparr> else sv_heap s q)"
  "stream_closed (close_one s p) st \<longleftrightarrow>
     stream_closed s st \<or> se_sync (sv_heap s p) = Some st \<or> se_async (sv_heap s p) = Some st"
  unfolding close_one_def Session_close_streams by (simp_all add: stream_closed_def)

lemma close_all_table [simp]: "sv_sessions (foldl close_one s ps) = sv_sessions s"
  by (induction ps arbitrary: s) simp_all

lemma close_all_ids [simp]: "se_id (sv_heap (foldl close_one s ps) q) = se_id (sv_heap s q)"
  by (induction ps arbitrary: s) simp_all

lemma close_all_locks:
  "sv_locks (foldl close_one s ps) =
   foldl LockManager_ReleaseAll (sv_locks s) (map (\<lambda>p. se_id (sv_heap s p)) ps)"
proof (induction ps arbitrary: s)
  case (Cons p ps)
  have "(\<lambda>q. se_id (sv_heap (close_one s p) q)) = (\<lambda>q. se_id (sv_heap s q))" by auto
  with Cons show ?case by simp
qed simp

lemma close_all_state:
  "se_state (sv_heap (foldl close_one s ps) q) =
   (if q \<in> set ps then StateClosed else se_state (sv_heap s q))"
  by (induction ps arbitrary: s) auto

lemma close_all_streams:
  "stream_closed (foldl close_one s ps) st \<longleftrightarrow>
   stream_closed s st \<or> (\<exists>p \<in> set ps. se_sync (sv_heap s p) = Some st \<or> se_async (sv_heap s p) = Some st)"
  by (induction ps arbitrary: s) auto

lemma no_holder_unlocked: "(\<And>i. \<not> LockManager_Held m i) \<Longrightarrow> LockManager_State m = Unlocked"
  by (auto simp: LockManager_Held_def LockManager_State_def LockManager_stateLocked_def)

lemma registry_ids:
  "registry_inv s \<Longrightarrow> map (\<lambda>p. se_id (sv_heap s p)) (map snd (sv_sessions s)) = map fst (sv_sessions s)"
  by (auto simp: registry_inv_def)

lemma CloseAll_foldl:
  "Server_CloseAll s = (s', err) \<Longrightarrow> s' = foldl close_one (s\<lparr>sv_sessions := []\<rparr>) (map snd (sv_sessions s))"
  using close_sessions_loop_foldl [of "s\<lparr>sv_sessions := []\<rparr>" "map snd (sv_sessions s)" None]
  by (simp add: Server_CloseAll_def Let_def)

lemma CloseAll_locks:
  assumes "registry_inv s" "Server_CloseAll s = (s', err)"
  shows "LockManager_Held (sv_locks s') i \<longleftrightarrow> LockManager_Held (sv_locks s) i \<and> i \<notin> fst ` set (sv_sessions s)"
proof -
  let ?s = "s\<lparr>sv_sessions := []\<rparr>"
  have "map (\<lambda>p. se_id (sv_heap ?s p)) (map snd (sv_sessions s)) = map fst (sv_sessions s)"
    using registry_ids [OF assms(1)] by simp
  then have "sv_locks s' = foldl LockManager_ReleaseAll (sv_locks s) (map fst (sv_sessions s))"
    unfolding CloseAll_foldl [OF assms(2)] close_all_locks by (simp only:) simp
  then show ?thesis by (simp add: lks.close_sessions)
qed

lemma CloseAll_session:
  assumes "Server_CloseAll s = (s', err)" "p \<in> set (map snd (sv_sessions s))"
  shows "se_state (sv_heap s' p) = StateClosed"
    "\<forall>st. se_sync (sv_heap s p) = Some st \<or> se_async (sv_heap s p) = Some st \<longrightarrow> stream_closed s' st"
proof -
  have "\<exists>q \<in> set (map snd (sv_sessions s)).
      se_sync (sv_heap (s\<lparr>sv_sessions := []\<rparr>) q) = Some st \<or> se_async (sv_heap (s\<lparr>sv_sessions := []\<rparr>) q) = Some st"
    if "se_sync (sv_heap s p) = Some st \<or> se_async (sv_heap s p) = Some st" for st
    using that by (intro bexI [OF _ assms(2)]) simp
  then show "\<forall>st. se_sync (sv_heap s p) = Some st \<or> se_async (sv_heap s p) = Some st \<longrightarrow> stream_closed s' st"
    unfolding CloseAll_foldl [OF assms(1)] close_all_streams by blast
  show "se_state (sv_heap s' p) = StateClosed"
    unfolding CloseAll_foldl [OF assms(1)] close_all_state using assms(2) by simp
qed

text \<open>A server with the default configuration on an instrument, in particular on the scripted one.\<close>

definition server_on :: "'d \<Rightarrow> ('d, unit) Server" where
  "server_on d =
     \<lparr>sv_cfg = Config_withDefaults zero_Config, sv_dev = d, sv_sessions = [],
      sv_nextID = 1, sv_locks = zero_LockManager, sv_newPolicy = Some (SCPIQuery NewSCPIQueryPolicy),
      sv_counters = zero_Counters,
      sv_heap = (\<lambda>_. newSession 0 zero_Version 0 (Config_withDefaults zero_Config)), sv_nheap = 0,
      sv_io = empty_io, sv_nops = 0, sv_cancelled = {}\<rparr>"

abbreviation demo_server :: "bytes list \<Rightarrow> (testdevice, unit) Server" where
  "demo_server responses \<equiv> server_on (testdevice_New responses)"

lemma demo_server_New: "New (Some d) zero_Config empty_io = Inr (server_on d)"
proof -
  have "Config_validate (Config_withDefaults (zero_Config :: unit Config)) = None"
    by (simp add: validate_valid valid_Config_def zero_Config_def)
  then show ?thesis by (simp add: New_def server_on_def Let_def zero_Config_def)
qed

lemma demo_server_inv: "registry_inv (demo_server rs)"
  by (rule registry_inv_New [OF demo_server_New])

text \<open>The same server with one initialized session: number 1 at address 0, with connection 1 and
  writer 0 for its synchronous and connection 2 and writer 1 for its asynchronous channel.\<close>

definition ready_session :: "unit Session" where
  "ready_session = (newSession 1 Version20 1 (Config_withDefaults zero_Config))
     \<lparr>se_async := Some 2, se_state := StateReady, se_syncW := Some 0, se_asyncW := Some 1,
      se_pending := True, se_policy := Some (SCPIQuery NewSCPIQueryPolicy)\<rparr>"

definition ready_on :: "'d \<Rightarrow> ('d, unit) Server" where
  "ready_on d =
     (server_on d)
       \<lparr>sv_sessions := [(1, 0)], sv_nextID := 2,
        sv_heap := (sv_heap (server_on d))(0 := ready_session), sv_nheap := 1,
        sv_io := fst (NewMessageWriter (fst (NewMessageWriter empty_io 1 ChannelSynchronous)) 2 ChannelAsynchronous)\<rparr>"

abbreviation ready_server :: "bytes list \<Rightarrow> (testdevice, unit) Server" where
  "ready_server responses \<equiv> ready_on (testdevice_New responses)"

lemma ready_server_sel [simp]:
  "sv_cfg (ready_on d) = Config_withDefaults zero_Config" "sv_dev (ready_on d) = d"
  "sv_sessions (ready_on d) = [(1, 0)]" "sv_heap (ready_on d) 0 = ready_session"
  "sv_locks (ready_on d) = zero_LockManager" "sv_cancelled (ready_on d) = {}"
  "sv_nops (ready_on d) = 0" "sv_counters (ready_on d) = zero_Counters"
  by (simp_all add: ready_on_def server_on_def)

lemma ready_server_inv: "registry_inv (ready_on d)"
proof -
  have "valid_Config (Config_withDefaults (zero_Config :: unit Config))"
    "1 \<le> cf_MaxSessions (Config_withDefaults (zero_Config :: unit Config))"
    by (simp_all add: valid_Config_def zero_Config_def)
  then show ?thesis
    by (simp add: registry_inv_def ready_on_def server_on_def ready_session_def newSession_def)
qed

lemma ready_server_io:
  "writer_ok (sv_io (ready_on d)) 0 ChannelSynchronous 1" "up (sv_io (ready_on d)) 1"
  "writer_ok (sv_io (ready_on d)) 1 ChannelAsynchronous 2" "up (sv_io (ready_on d)) 2"
  "io_out (sv_io (ready_on d)) 1 = []" "io_out (sv_io (ready_on d)) 2 = []"
  by (simp_all add: ready_on_def NewMessageWriter_def Let_def writer_ok_def up_def io_out_def
      empty_io_def quiet_transport_def)

text \<open>
  Session identifiers are never shared. On a server whose table is in order, a new session
  gets a non-zero identifier no live session has and is entered under it in the pairing state, or
  the request is refused with \<open>ErrMaxClients\<close>, nothing is registered, and either the configured
  number of sessions is reached or every non-zero identifier is in use. The table stays in
  order: distinct identifiers and sessions, each session under its own identifier, never more
  than the configured number.
\<close>

lemma session_allocation:
  assumes "registry_inv s" and "Server_allocateSession s v st = (s', r)"
  shows "registry_inv s' \<and>
    (case r of
       Inl e \<Rightarrow> e = ErrMaxClients \<and> sv_sessions s' = sv_sessions s \<and> sv_heap s' = sv_heap s \<and>
         (int (Server_Sessions s) = cf_MaxSessions (sv_cfg s) \<or>
          (\<forall>i. i \<noteq> 0 \<longrightarrow> Server_Session s i \<noteq> None))
     | Inr p \<Rightarrow> int (Server_Sessions s) < cf_MaxSessions (sv_cfg s) \<and> Server_Sessions s' = Server_Sessions s + 1 \<and>
         (\<exists>i. i \<noteq> 0 \<and> Server_Session s i = None \<and> Server_Session s' i = Some p \<and>
            sv_heap s' p = (newSession i v st (sv_cfg s))\<lparr>se_policy := sv_newPolicy s\<rparr> \<and>
            (\<forall>j. j \<noteq> i \<longrightarrow> Server_Session s' j = Server_Session s j)))"
  using assms(1)
proof (cases rule: allocateSession_cases [of s v st])
  case full
  with assms registry_inv_allocate [OF assms] show ?thesis by (auto simp: Server_Sessions_def)
next
  case (exhausted n)
  with assms registry_inv_allocate [OF assms] show ?thesis
    by (auto simp: Server_Sessions_def Server_Session_def)
next
  case (allocated n i)
  have "registry_inv s'" using registry_inv_allocate [OF assms] .
  moreover have "r = Inr (sv_nheap s)" "sv_sessions s' = sv_sessions s @ [(i, sv_nheap s)]"
    "sv_heap s' (sv_nheap s) = (newSession i v st (sv_cfg s))\<lparr>se_policy := sv_newPolicy s\<rparr>"
    using assms(2) allocated(5) by auto
  moreover have "Server_Session s' i = Some (sv_nheap s)" "Server_Session s i = None"
    "\<forall>j. j \<noteq> i \<longrightarrow> Server_Session s' j = Server_Session s j"
    using allocated(2) calculation(3)
    by (simp_all add: Server_Session_def map_add_def split: option.splits)
  ultimately show ?thesis
    using allocated(1,3) by (simp add: Server_Sessions_def) blast
qed

section \<open>Properties\<close>

text \<open>
  C37. Shutting the server down leaves nothing behind: the table is empty, every session that was
  in it is closed, both its connections are closed, and none of them holds a lock any more; if
  only registered sessions held locks, the instrument is unlocked.
\<close>

theorem close_all_releases_everything:
  assumes "registry_inv s" and "Server_CloseAll s = (s', err)"
  shows "sv_sessions s' = [] \<and>
    (\<forall>(i, p) \<in> set (sv_sessions s). se_state (sv_heap s' p) = StateClosed \<and>
       \<not> LockManager_Held (sv_locks s') i \<and>
       (\<forall>st. se_sync (sv_heap s p) = Some st \<or> se_async (sv_heap s p) = Some st \<longrightarrow> stream_closed s' st)) \<and>
    ((\<forall>i. LockManager_Held (sv_locks s) i \<longrightarrow> Server_Session s i \<noteq> None) \<longrightarrow>
       LockManager_State (sv_locks s') = Unlocked)"
proof -
  note s' = CloseAll_foldl [OF assms(2)] and held = CloseAll_locks [OF assms]
  have "LockManager_State (sv_locks s') = Unlocked"
    if "\<forall>i. LockManager_Held (sv_locks s) i \<longrightarrow> Server_Session s i \<noteq> None"
    using held that by (intro no_holder_unlocked) (auto simp: Server_Session_def map_of_None_set)
  moreover have "\<forall>(i, p) \<in> set (sv_sessions s). se_state (sv_heap s' p) = StateClosed \<and>
      \<not> LockManager_Held (sv_locks s') i \<and>
      (\<forall>st. se_sync (sv_heap s p) = Some st \<or> se_async (sv_heap s p) = Some st \<longrightarrow> stream_closed s' st)"
  proof (intro ballI, clarify)
    fix i p assume ip: "(i, p) \<in> set (sv_sessions s)"
    then have "p \<in> set (map snd (sv_sessions s))" "i \<in> fst ` set (sv_sessions s)"
      using imageI [OF ip, of snd] imageI [OF ip, of fst] by simp_all
    then show "se_state (sv_heap s' p) = StateClosed \<and> \<not> LockManager_Held (sv_locks s') i \<and>
      (\<forall>st. se_sync (sv_heap s p) = Some st \<or> se_async (sv_heap s p) = Some st \<longrightarrow> stream_closed s' st)"
      using held [of i] CloseAll_session [OF assms(2)] by blast
  qed
  ultimately show ?thesis by (simp add: s')
qed

theorem close_all_releases_everything_witness:
  "let s = fst (Server_allocateSession (demo_server []) Version10 3);
       s = s\<lparr>sv_locks := fst (LockManager_TryRequest (sv_locks s) 1 [])\<rparr> in
   registry_inv s \<and> LockManager_Held (sv_locks s) 1 \<and>
   LockManager_State (sv_locks (fst (Server_CloseAll s))) = Unlocked"
proof -
  define s where "s = fst (Server_allocateSession (demo_server []) Version10 3)"
  define s1 where "s1 = s\<lparr>sv_locks := fst (LockManager_TryRequest (sv_locks s) 1 [])\<rparr>"
  have ss: "sv_sessions s = [(1, 0)]" "sv_locks s = zero_LockManager"
    by (simp_all add: s_def server_on_def Server_allocateSession_def Server_allocateIDLocked_def
        zero_Config_def allocateID_first Let_def)
  have "registry_inv s"
    unfolding s_def by (rule registry_inv_allocate [OF demo_server_inv prod.collapse [symmetric]])
  then have inv: "registry_inv s1" by (rule registry_inv_cong) (simp_all add: s1_def)
  have held: "LockManager_Held (sv_locks s1) i \<longleftrightarrow> i = 1" for i
    by (auto simp: s1_def ss lock_op_defs LockManager_Held_def zero_LockManager_def)
  have "Server_Session s1 1 \<noteq> None" by (simp add: Server_Session_def s1_def ss)
  with held have "\<forall>i. LockManager_Held (sv_locks s1) i \<longrightarrow> Server_Session s1 i \<noteq> None" by metis
  with close_all_releases_everything [OF inv prod.collapse [symmetric]]
  have "LockManager_State (sv_locks (fst (Server_CloseAll s1))) = Unlocked" by blast
  with inv held show ?thesis by (simp add: Let_def s1_def s_def)
qed

end
