(* ===== verification/Dispatch.thy ===== *)
theory Dispatch
  imports Session
begin

text \<open>
  Dispatch classes and the acceptance check (\<open>server/dispatch.go\<close>), the initialization
  transactions (\<open>server/initialize.go\<close>) and the Device Clear transaction
  (\<open>server/clear.go\<close>).

  The record \<open>env\<close> carries the methods of the instrument and of an application's response
  policy. A context argument is the boolean ``the context is cancelled''.
\<close>

record ('d, 'x) env =
  en_dev :: "'d Device"
  en_pol :: "'x policy_ops"

section \<open>Dispatch (dispatch.go)\<close>

datatype Class =
  ClassNoBus | ClassPreemptAbandon | ClassPreemptResume | ClassBoundary | ClassSyncOrdered
  | ClassLifecycle | ClassUndefined

fun Class_String :: "Class \<Rightarrow> string" where
  "Class_String ClassNoBus = ''no bus access''"
| "Class_String ClassPreemptAbandon = ''preempt and abandon''"
| "Class_String ClassPreemptResume = ''preempt and resume''"
| "Class_String ClassBoundary = ''transfer boundary''"
| "Class_String ClassSyncOrdered = ''synchronous, ordered''"
| "Class_String ClassLifecycle = ''lifecycle''"
| "Class_String ClassUndefined = ''undefined''"

definition Class_Queued :: "Class \<Rightarrow> bool" where
  "Class_Queued c \<longleftrightarrow>
     c = ClassPreemptAbandon \<or> c = ClassPreemptResume \<or> c = ClassBoundary \<or> c = ClassSyncOrdered"

definition Class_Preempts :: "Class \<Rightarrow> bool" where
  "Class_Preempts c \<longleftrightarrow> c = ClassPreemptAbandon \<or> c = ClassPreemptResume"

definition Class_Ordered :: "Class \<Rightarrow> bool" where
  "Class_Ordered c \<longleftrightarrow> c = ClassSyncOrdered"

definition ClassOf :: "MessageType \<Rightarrow> Class" where
  "ClassOf t =
     (if t = AsyncLock \<or> t = AsyncLockInfo \<or> t = AsyncMaximumMessageSize then ClassNoBus
      else if t = AsyncDeviceClear then ClassPreemptAbandon
      else if t = AsyncStatusQuery then ClassPreemptResume
      else if t = AsyncRemoteLocalControl then ClassBoundary
      else if t = Data \<or> t = DataEnd \<or> t = Trigger then ClassSyncOrdered
      else if t = Initialize \<or> t = AsyncInitialize \<or> t = DeviceClearComplete \<or> t = Error \<or> t = FatalError
        then ClassLifecycle
      else if MessageType_VendorSpecific t then ClassSyncOrdered
      else ClassUndefined)"

definition Server_Accept ::
    "('d, 'x) Server \<Rightarrow> nat option \<Rightarrow> Header \<Rightarrow> Channel \<Rightarrow> Class \<times> gerror option" where
  "Server_Accept s sess h channel =
     (if MessageType_Reserved (hType h) then (ClassUndefined, Some ErrReservedMessageType)
      else if \<not> MessageType_Defined (hType h) \<and> \<not> MessageType_VendorSpecific (hType h)
        then (ClassUndefined, Some ErrUnknownMessageType)
      else if \<not> MessageType_LegalOn (hType h) channel then (ClassUndefined, Some ErrWrongChannel)
      else if (case sess of None \<Rightarrow> False
               | Some p \<Rightarrow> Version_Less (se_version (sv_heap s p)) (MessageType_MinVersion (hType h)))
        then (ClassUndefined, Some ErrProtocolVersion)
      else
        let class = ClassOf (hType h) in
        if class = ClassUndefined then (class, Some ErrUnknownMessageType)
        else
          let limit = cf_MaxRxPayload (sv_cfg s);
              limit = (case sess of None \<Rightarrow> limit | Some p \<Rightarrow> se_maxRx (sv_heap s p)) in
          case CheckLength (hLength h) limit of
            Some err \<Rightarrow> (class, Some err)
          | None \<Rightarrow>
              (case sess of
                 None \<Rightarrow> (class, None)
               | Some p \<Rightarrow>
                   if class \<noteq> ClassLifecycle
                   then (case Session_requireReady (sv_heap s p) of
                           Some err \<Rightarrow> (class, Some err)
                         | None \<Rightarrow> (class, None))
                   else (class, None)))"

section \<open>Initialization (initialize.go)\<close>

definition Server_Initialize ::
    "('d, 'x) Server \<Rightarrow> Header \<Rightarrow> bytes \<Rightarrow> nat \<Rightarrow> ('d, 'x) Server \<times> (gerror + nat \<times> Header)" where
  "Server_Initialize s h subAddress syncStream =
     (if hType h \<noteq> Initialize then (s, Inl ErrInvalidInitSequence)
      else if \<not> MessageType_LegalOn (hType h) ChannelSynchronous then (s, Inl ErrWrongChannel)
      else if \<not> Config_acceptsSubAddress (sv_cfg s) subAddress then (s, Inl ErrInvalidSubAddress)
      else
        let clientVersion = fst (DecodeInitializeParameter (hParameter h)) in
        if Version_Less clientVersion Version10 then (s, Inl ErrProtocolVersion)
        else
          let negotiated = Negotiate clientVersion (cf_MaxVersion (sv_cfg s)) in
          case Server_allocateSession s negotiated syncStream of
            (s, Inl err) \<Rightarrow> (s, Inl err)
          | (s, Inr p) \<Rightarrow>
              (s, Inr (p, zero_Header\<lparr>hType := InitializeResponse,
                 hControl := Config_preferOverlapBit (sv_cfg s),
                 hParameter := EncodeInitializeResponseParameter negotiated (se_id (sv_heap s p))\<rparr>)))"

definition Server_asyncInitializeResponse :: "('d, 'x) Server \<Rightarrow> nat \<Rightarrow> Header" where
  "Server_asyncInitializeResponse s p =
     (let control = 0;
          control = (if Version_AtLeast (se_version (sv_heap s p)) Version20 then 0 else control);
          vendor = push_bit 8 (ucast (fst (cf_VendorID (sv_cfg s)))) OR ucast (snd (cf_VendorID (sv_cfg s)))
      in zero_Header\<lparr>hType := AsyncInitializeResponse, hControl := control, hParameter := vendor\<rparr>)"

definition Server_AsyncInitialize ::
    "('d, 'x) Server \<Rightarrow> Header \<Rightarrow> nat \<Rightarrow> ('d, 'x) Server \<times> (gerror + nat \<times> Header)" where
  "Server_AsyncInitialize s h asyncStream =
     (if hType h \<noteq> AsyncInitialize then (s, Inl ErrInvalidInitSequence)
      else if \<not> MessageType_LegalOn (hType h) ChannelAsynchronous then (s, Inl ErrWrongChannel)
      else
        let i = ucast (hParameter h) in
        case Server_Session s i of
          None \<Rightarrow> (s, Inl ErrInvalidSession)
        | Some p \<Rightarrow>
            (case Session_attachAsync (sv_heap s p) asyncStream of
               (sess, Some err) \<Rightarrow> (s, Inl err)
             | (sess, None) \<Rightarrow>
                 let s = upd s p (\<lambda>_. sess) in
                 (s, Inr (p, Server_asyncInitializeResponse s p))))"

definition minMaximumMessageSize :: uint64 where [simp]: "minMaximumMessageSize = 256"

definition Server_MaximumMessageSize ::
    "('d, 'x) Server \<Rightarrow> nat option \<Rightarrow> uint64 \<Rightarrow> ('d, 'x) Server \<times> Header \<times> uint64" where
  "Server_MaximumMessageSize s sess clientMax =
     (let s = (case sess of
                 None \<Rightarrow> s
               | Some p \<Rightarrow>
                   if clientMax \<ge> minMaximumMessageSize
                   then upd s p (\<lambda>se. se\<lparr>se_maxTx := clientMax\<rparr>) else s)
      in (s, zero_Header\<lparr>hType := AsyncMaximumMessageSizeResponse, hLength := 8\<rparr>,
          cf_MaxRxPayload (sv_cfg s)))"

section \<open>Device Clear (clear.go)\<close>

text \<open>The transaction argument of the handlers is always the session's own.\<close>

definition Server_BeginDeviceClear ::
    "('d, 'x) Server \<Rightarrow> nat \<Rightarrow> ('d, 'x) Server \<times> (gerror + Header)" where
  "Server_BeginDeviceClear s p =
     (case Session_requireReady (sv_heap s p) of
        Some err \<Rightarrow> (s, Inl err)
      | None \<Rightarrow>
          let s = Session_abortOperation s p;
              s = upd s p (\<lambda>se. se\<lparr>se_status := Status_SetResponsePending (se_status se) False\<rparr>);
              (tx, err) = Transaction_Clear (se_tx (sv_heap s p));
              s = upd s p (\<lambda>se. se\<lparr>se_tx := tx\<rparr>)
          in case err of
               Some err \<Rightarrow> (s, Inl err)
             | None \<Rightarrow>
                 (upd s p Session_beginClear,
                  Inr (zero_Header\<lparr>hType := AsyncDeviceClearAcknowledge,
                    hControl := Config_featureBitmap (sv_cfg s) FeatureOverlapped\<rparr>)))"

text \<open>The acknowledgement is returned together with the instrument's error, if any.\<close>

definition Server_CompleteDeviceClear ::
    "('d, 'x) env \<Rightarrow> ('d, 'x) Server \<Rightarrow> bool \<Rightarrow> nat \<Rightarrow> Header \<Rightarrow>
     ('d, 'x) Server \<times> Header \<times> gerror option" where
  "Server_CompleteDeviceClear E s ctx p h =
     (if hType h \<noteq> DeviceClearComplete then (s, zero_Header, Some ErrUnknownMessageType)
      else
        let agreed = Config_featureBitmap (sv_cfg s) (hControl h);
            overlap = (agreed AND FeatureOverlapped \<noteq> 0);
            s = upd s p (\<lambda>se. Session_completeClear se overlap);
            s = upd s p (\<lambda>se. se\<lparr>se_tx := Transaction_Reset (se_tx se)\<rparr>);
            (d, err) = dev_Clear (en_dev E) (sv_dev s) ctx;
            s = s\<lparr>sv_dev := d\<rparr>
        in (s, zero_Header\<lparr>hType := DeviceClearAcknowledge, hControl := agreed\<rparr>, err))"

definition DiscardDuringClear :: "'x Session \<Rightarrow> Header \<Rightarrow> bool" where
  "DiscardDuringClear sess h \<longleftrightarrow>
     (if se_state sess \<noteq> StateClearing then False else hType h \<noteq> DeviceClearComplete)"

end
