(* ===== verification/Data_Path.thy ===== *)
theory Data_Path
  imports Dispatch
begin

text \<open>
  Program messages, responses and triggers (\<open>server/data.go\<close>), and the operations of the
  asynchronous channel (\<open>server/async.go\<close>).

  A \<open>Response\<close> refers to its writers by address. Its queued-input predicate is called at most
  once, so it is represented by the answer that call gives; \<open>None\<close> is a nil predicate. The scratch
  buffer is represented by its size, since its contents are always overwritten by a read before
  they are sent.
\<close>

section \<open>Responses (data.go)\<close>

datatype ResponseOutcome =
  ResponseComplete | ResponseTruncated | ResponseAbsent | ResponseInterrupted

fun ResponseOutcome_String :: "ResponseOutcome \<Rightarrow> string" where
  "ResponseOutcome_String ResponseComplete = ''complete''"
| "ResponseOutcome_String ResponseTruncated = ''truncated''"
| "ResponseOutcome_String ResponseAbsent = ''absent''"
| "ResponseOutcome_String ResponseInterrupted = ''interrupted''"

record Response =
  rs_Sync :: "nat option"
  rs_Async :: "nat option"
  rs_MessageID :: MessageID
  rs_Scratch :: nat
  rs_InputQueued :: "bool option"

definition Response_validate :: "Response \<Rightarrow> 'x Session \<Rightarrow> gerror option" where
  "Response_validate r sess =
     (if rs_Sync r = None \<or> rs_Async r = None then Some ErrInvalidConfig
      else if rs_Scratch r = 0 then Some ErrShortBuffer
      else if of_nat (rs_Scratch r) > se_maxTx sess then Some ErrMessageTooLarge
      else if rs_InputQueued r = None then Some ErrInputQueuedRequired
      else None)"

text \<open>An operation of the session's transaction, in the store.\<close>

definition tx_op ::
    "('d, 'x) Server \<Rightarrow> nat \<Rightarrow> (Transaction \<Rightarrow> Transaction \<times> gerror option) \<Rightarrow>
     ('d, 'x) Server \<times> gerror option" where
  "tx_op s p f =
     (let (tx, err) = f (se_tx (sv_heap s p)) in (upd s p (\<lambda>se. se\<lparr>se_tx := tx\<rparr>), err))"

definition send ::
    "('d, 'x) Server \<Rightarrow> nat option \<Rightarrow> Header \<Rightarrow> bytes \<Rightarrow> ('d, 'x) Server \<times> gerror option" where
  "send s w h payload = (let (io, err) = writer_Write (sv_io s) w h payload in (s\<lparr>sv_io := io\<rparr>, err))"

definition send_error ::
    "('d, 'x) Server \<Rightarrow> nat option \<Rightarrow> ErrorCode \<Rightarrow> bytes \<Rightarrow> ('d, 'x) Server \<times> gerror option" where
  "send_error s w code description =
     (let (io, err) = MessageWriter_WriteError (sv_io s) w code description in (s\<lparr>sv_io := io\<rparr>, err))"

definition send_fatal ::
    "('d, 'x) Server \<Rightarrow> nat option \<Rightarrow> FatalErrorCode \<Rightarrow> bytes \<Rightarrow> ('d, 'x) Server \<times> gerror option" where
  "send_fatal s w code description =
     (let (io, err) = MessageWriter_WriteFatalError (sv_io s) w code description in (s\<lparr>sv_io := io\<rparr>, err))"

definition set_pending :: "('d, 'x) Server \<Rightarrow> nat \<Rightarrow> bool \<Rightarrow> ('d, 'x) Server" where
  "set_pending s p b = upd s p (\<lambda>se. se\<lparr>se_status := Status_SetResponsePending (se_status se) b\<rparr>)"

definition Server_ReceiveData ::
    "('d, 'x) env \<Rightarrow> ('d, 'x) Server \<Rightarrow> bool \<Rightarrow> nat \<Rightarrow> Header \<Rightarrow> bytes \<Rightarrow>
     ('d, 'x) Server \<times> Interrupted_kind \<times> gerror option" where
  "Server_ReceiveData E s ctx p h payload =
     (let eom = (hType h = DataEnd) in
      if hType h \<noteq> Data \<and> \<not> eom then (s, NotInterrupted, Some ErrUnknownMessageType)
      else
        let (rmt, interrupted) = RMT_ReceivedSyncMessage (se_rmt (sv_heap s p)) (Header_RMTDelivered h);
            s = upd s p (\<lambda>se. se\<lparr>se_rmt := rmt\<rparr>);
            s = upd s p (\<lambda>se. se\<lparr>se_status := Status_ReceivedSyncMessage (se_status se) (Header_MessageID h)\<rparr>);
            (s, err) = (if eom then tx_op s p (\<lambda>tx. Transaction_CompleteInput tx (Header_MessageID h))
                        else tx_op s p Transaction_BeginInput)
        in case err of
             Some e \<Rightarrow> (s, interrupted, Some e)
           | None \<Rightarrow>
               let (d, err) = dev_Write (en_dev E) (sv_dev s) ctx payload eom
               in (s\<lparr>sv_dev := d\<rparr>, interrupted, err))"

definition Server_terminate ::
    "('d, 'x) Server \<Rightarrow> nat \<Rightarrow> Response \<Rightarrow> bytes \<Rightarrow> ('d, 'x) Server \<times> gerror option" where
  "Server_terminate s p r final =
     (let h = zero_Header\<lparr>hType := DataEnd, hParameter := rs_MessageID r, hLength := of_nat (length final)\<rparr> in
      case send s (rs_Sync r) h final of
        (s, Some e) \<Rightarrow> (s, Some e)
      | (s, None) \<Rightarrow>
          let s = upd s p (\<lambda>se. se\<lparr>se_rmt := RMT_SentDataEnd (se_rmt se)\<rparr>);
              s = upd s p (\<lambda>se. Session_setLastTxMessageID se (rs_MessageID r))
          in tx_op s p Transaction_Complete)"

definition Server_completeAbsentResponse ::
    "('d, 'x) Server \<Rightarrow> nat \<Rightarrow> Response \<Rightarrow> ('d, 'x) Server \<times> ResponseOutcome \<times> gerror option" where
  "Server_completeAbsentResponse s p r =
     (case send_error s (rs_Sync r) CodeResponseTimeout (ascii ''no response from instrument'') of
        (s, Some e) \<Rightarrow> (s, ResponseAbsent, Some e)
      | (s, None) \<Rightarrow>
          (case tx_op s p Transaction_BeginResponse of
             (s, Some e) \<Rightarrow> (s, ResponseAbsent, Some e)
           | (s, None) \<Rightarrow>
               (case Server_terminate s p r [] of
                  (s, Some e) \<Rightarrow> (s, ResponseAbsent, Some e)
                | (s, None) \<Rightarrow> (s, ResponseAbsent, None))))"

definition Server_sendInterrupted ::
    "('d, 'x) Server \<Rightarrow> nat \<Rightarrow> Response \<Rightarrow> ('d, 'x) Server \<times> gerror option" where
  "Server_sendInterrupted s p r =
     (case tx_op s p Transaction_Interrupt of
        (s, Some e) \<Rightarrow> (s, Some e)
      | (s, None) \<Rightarrow>
          let s = set_pending s p False;
              h = zero_Header\<lparr>hType := AsyncInterrupted, hParameter := rs_MessageID r\<rparr>
          in case send s (rs_Async r) h [] of
               (s, Some e) \<Rightarrow> (s, Some e)
             | (s, None) \<Rightarrow>
                 let h = h\<lparr>hType := Interrupted\<rparr> in
                 case send s (rs_Sync r) h [] of
                   (s, Some e) \<Rightarrow> (s, Some e)
                 | (s, None) \<Rightarrow> tx_op s p Transaction_Complete)"

text \<open>What the loop of \<open>SendResponse\<close> does with the bytes of one read: the new state, the return if
  there is one, and the number of bytes delivered so far.\<close>

definition SendResponse_chunk ::
    "('d, 'x) Server \<Rightarrow> nat \<Rightarrow> Response \<Rightarrow> bytes \<Rightarrow> bool \<Rightarrow> gerror option \<Rightarrow> uint64 \<Rightarrow>
     ('d, 'x) Server \<times> (ResponseOutcome \<times> gerror option) option \<times> uint64" where
  "SendResponse_chunk s p r bs eom readErr delivered =
     (if length bs > 0
      then (case tx_op s p Transaction_BeginResponse of
              (s, Some e) \<Rightarrow> (s, Some (ResponseAbsent, Some e), delivered)
            | (s, None) \<Rightarrow>
                if \<not> eom \<or> readErr \<noteq> None
                then (case send s (rs_Sync r) (zero_Header\<lparr>hType := Data,
                            hParameter := rs_MessageID r, hLength := of_nat (length bs)\<rparr>) bs of
                        (s, Some e) \<Rightarrow> (s, Some (ResponseTruncated, Some e), delivered)
                      | (s, None) \<Rightarrow> (s, None, delivered + of_nat (length bs)))
                else (s, None, delivered))
      else (s, None, delivered))"

text \<open>One iteration of the loop of \<open>SendResponse\<close>: \<open>Inl\<close> is another iteration with the number
  of bytes delivered so far, \<open>Inr\<close> the return.\<close>

definition SendResponse_iteration ::
    "('d, 'x) env \<Rightarrow> ('d, 'x) Server \<Rightarrow> bool \<Rightarrow> nat \<Rightarrow> Response \<Rightarrow> uint64 \<Rightarrow>
     ('d, 'x) Server \<times> (uint64 + ResponseOutcome \<times> gerror option)" where
  "SendResponse_iteration E s ctx p r delivered =
     (let (d, bs, eom, readErr) = dev_Read (en_dev E) (sv_dev s) ctx (rs_Scratch r);
          s = s\<lparr>sv_dev := d\<rparr>;
          (s, ret, delivered) = SendResponse_chunk s p r bs eom readErr delivered
      in case ret of
           Some result \<Rightarrow> (s, Inr result)
         | None \<Rightarrow>
             if readErr \<noteq> None
             then if delivered = 0
                  then (let (s, out, err) = Server_completeAbsentResponse s p r in (s, Inr (out, err)))
                  else (case send_error s (rs_Sync r) CodeResponseTimeout (ascii ''response truncated'') of
                          (s, Some e) \<Rightarrow> (s, Inr (ResponseTruncated, Some e))
                        | (s, None) \<Rightarrow>
                            (let (s, err) = Server_terminate s p r [] in (s, Inr (ResponseTruncated, err))))
             else if \<not> eom then (s, Inl delivered)
             else if rs_InputQueued r = Some True
             then (let (s, err) = Server_sendInterrupted s p r in (s, Inr (ResponseInterrupted, err)))
             else (case tx_op s p Transaction_BeginResponse of
                     (s, Some e) \<Rightarrow> (s, Inr (ResponseAbsent, Some e))
                   | (s, None) \<Rightarrow>
                       (let (s, err) = Server_terminate s p r bs in (s, Inr (ResponseComplete, err)))))"

partial_function (option) SendResponse_loop ::
    "('d, 'x) env \<Rightarrow> ('d, 'x) Server \<Rightarrow> bool \<Rightarrow> nat \<Rightarrow> Response \<Rightarrow> uint64 \<Rightarrow>
     (('d, 'x) Server \<times> ResponseOutcome \<times> gerror option) option" where
  "SendResponse_loop E s ctx p r delivered =
     (case SendResponse_iteration E s ctx p r delivered of
        (s, Inl delivered) \<Rightarrow> SendResponse_loop E s ctx p r delivered
      | (s, Inr (outcome, err)) \<Rightarrow> Some (s, outcome, err))"

definition Server_SendResponse ::
    "('d, 'x) env \<Rightarrow> ('d, 'x) Server \<Rightarrow> bool \<Rightarrow> nat \<Rightarrow> Response \<Rightarrow>
     (('d, 'x) Server \<times> ResponseOutcome \<times> gerror option) option" where
  "Server_SendResponse E s ctx p r =
     (case Response_validate r (sv_heap s p) of
        Some e \<Rightarrow> Some (s, ResponseAbsent, Some e)
      | None \<Rightarrow>
          (case tx_op s p Transaction_ExpectResponse of
             (s, Some e) \<Rightarrow> Some (s, ResponseAbsent, Some e)
           | (s, None) \<Rightarrow>
               map_option (\<lambda>(s, outcome, err). (set_pending s p False, outcome, err))
                 (SendResponse_loop E (set_pending s p True) ctx p r 0)))"

definition Server_Trigger ::
    "('d, 'x) env \<Rightarrow> ('d, 'x) Server \<Rightarrow> bool \<Rightarrow> nat \<Rightarrow> Header \<Rightarrow>
     ('d, 'x) Server \<times> Interrupted_kind \<times> gerror option" where
  "Server_Trigger E s ctx p h =
     (if hType h \<noteq> Trigger then (s, NotInterrupted, Some ErrUnknownMessageType)
      else case Session_requireReady (sv_heap s p) of
        Some e \<Rightarrow> (s, NotInterrupted, Some e)
      | None \<Rightarrow>
          let (rmt, interrupted) = RMT_ReceivedSyncMessage (se_rmt (sv_heap s p)) (Header_RMTDelivered h);
              s = upd s p (\<lambda>se. se\<lparr>se_rmt := rmt\<rparr>);
              s = upd s p (\<lambda>se. se\<lparr>se_status := Status_ReceivedSyncMessage (se_status se) (Header_MessageID h)\<rparr>)
          in case tx_op s p (\<lambda>tx. Transaction_CompleteInput tx (Header_MessageID h)) of
               (s, Some e) \<Rightarrow> (s, interrupted, Some e)
             | (s, None) \<Rightarrow>
                 (case dev_Trigger (en_dev E) (sv_dev s) ctx of
                    (d, Some e) \<Rightarrow> (s\<lparr>sv_dev := d\<rparr>, interrupted, Some e)
                  | (d, None) \<Rightarrow>
                      (let (s, err) = tx_op (s\<lparr>sv_dev := d\<rparr>) p Transaction_Complete
                       in (s, interrupted, err))))"

section \<open>The asynchronous channel (async.go)\<close>

definition Server_StatusQuery ::
    "('d, 'x) env \<Rightarrow> ('d, 'x) Server \<Rightarrow> bool \<Rightarrow> nat \<Rightarrow> Header \<Rightarrow> ('d, 'x) Server \<times> (gerror + Header)" where
  "Server_StatusQuery E s ctx p h =
     (if hType h \<noteq> AsyncStatusQuery then (s, Inl ErrUnknownMessageType)
      else case Session_requireReady (sv_heap s p) of
        Some e \<Rightarrow> (s, Inl e)
      | None \<Rightarrow>
          let rmtDelivered = Header_RMTDelivered h;
              s = upd s p (\<lambda>se. se\<lparr>se_rmt := RMT_ReceivedStatusQuery (se_rmt se) rmtDelivered\<rparr>);
              (d, device, err) = dev_ReadStatusByte (en_dev E) (sv_dev s) ctx;
              s = s\<lparr>sv_dev := d\<rparr>
          in case err of
               Some e \<Rightarrow> (s, Inl e)
             | None \<Rightarrow>
                 let (st, stb) = Status_Byte (se_status (sv_heap s p)) device (Header_MessageID h) rmtDelivered;
                     (st, had) = Status_TakeServiceRequest st;
                     s = upd s p (\<lambda>se. se\<lparr>se_status := st\<rparr>);
                     stb = (if had then stb OR StatusRQS else stb)
                 in (s, Inr (zero_Header\<lparr>hType := AsyncStatusResponse, hControl := stb\<rparr>)))"

definition Server_ServiceRequest ::
    "('d, 'x) Server \<Rightarrow> nat option \<Rightarrow> byte \<Rightarrow> ('d, 'x) Server \<times> Header option" where
  "Server_ServiceRequest s sess status =
     (case sess of
        None \<Rightarrow> (s, None)
      | Some p \<Rightarrow>
          if \<not> Session_Ready (sv_heap s p) then (s, None)
          else
            let (st, fresh) = Status_LatchServiceRequest (se_status (sv_heap s p)) status;
                s = upd s p (\<lambda>se. se\<lparr>se_status := st\<rparr>)
            in if \<not> fresh then (s, None)
               else (s, Some (zero_Header\<lparr>hType := AsyncServiceRequest, hControl := status\<rparr>)))"

definition Server_RemoteLocal ::
    "('d, 'x) env \<Rightarrow> ('d, 'x) Server \<Rightarrow> bool \<Rightarrow> nat \<Rightarrow> Header \<Rightarrow> ('d, 'x) Server \<times> (gerror + Header)" where
  "Server_RemoteLocal E s ctx p h =
     (if hType h \<noteq> AsyncRemoteLocalControl then (s, Inl ErrUnknownMessageType)
      else case Session_requireReady (sv_heap s p) of
        Some e \<Rightarrow> (s, Inl e)
      | None \<Rightarrow>
          let mode = hControl h in
          if \<not> RemoteLocalMode_Valid mode then (s, Inl ErrUnrecognizedControlCode)
          else case dev_RemoteLocal (en_dev E) (sv_dev s) ctx mode of
                 (d, Some e) \<Rightarrow> (s\<lparr>sv_dev := d\<rparr>, Inl e)
               | (d, None) \<Rightarrow> (s\<lparr>sv_dev := d\<rparr>, Inr (zero_Header\<lparr>hType := AsyncRemoteLocalResponse\<rparr>)))"

definition lockRelease :: uint8 where [simp]: "lockRelease = 0"
definition lockRequest :: uint8 where [simp]: "lockRequest = 1"

text \<open>A lock request runs along a schedule of its own steps and of other sessions' lock
  operations; \<open>None\<close> is a request still waiting at the end of the schedule.\<close>

definition Server_Lock ::
    "('d, 'x) Server \<Rightarrow> nat \<Rightarrow> Header \<Rightarrow> bytes \<Rightarrow> request_event list \<Rightarrow>
     (('d, 'x) Server \<times> (gerror + Header)) option" where
  "Server_Lock s p h lockString evs =
     (if hType h \<noteq> AsyncLock then Some (s, Inl ErrUnknownMessageType)
      else case Session_requireReady (sv_heap s p) of
        Some e \<Rightarrow> Some (s, Inl e)
      | None \<Rightarrow>
          let reply = (\<lambda>result. zero_Header\<lparr>hType := AsyncLockResponse, hControl := LockResult_code result\<rparr>) in
          if hControl h = lockRequest
          then map_option (\<lambda>(m, result). (s\<lparr>sv_locks := m\<rparr>, Inr (reply result)))
                 (LockManager_Request (sv_locks s) (se_id (sv_heap s p)) lockString
                    (uint (hParameter h)) evs)
          else if hControl h = lockRelease
          then (let (m, result) = LockManager_Release (sv_locks s) (se_id (sv_heap s p))
                in Some (s\<lparr>sv_locks := m\<rparr>, Inr (reply result)))
          else Some (s, Inl ErrUnrecognizedControlCode))"

definition Server_LockInfo ::
    "('d, 'x) Server \<Rightarrow> nat \<Rightarrow> Header \<Rightarrow> gerror + Header" where
  "Server_LockInfo s p h =
     (if hType h \<noteq> AsyncLockInfo then Inl ErrUnknownMessageType
      else case Session_requireReady (sv_heap s p) of
        Some e \<Rightarrow> Inl e
      | None \<Rightarrow>
          let (exclusive, holders) = LockManager_Info (sv_locks s);
              control = (if exclusive then 1 else 0)
          in Inr (zero_Header\<lparr>hType := AsyncLockInfoResponse, hControl := control,
                    hParameter := of_nat holders\<rparr>))"

end
