(* ===== verification/Reader.thy ===== *)
theory Reader
  imports Codec
begin

text \<open>
  The read-ahead reader of a channel (\<open>server/reader.go\<close>).

  The first part is \<open>readOne\<close> on a byte stream. The second is the reader as two concurrent
  parties, the reading goroutine \<open>run\<close> and the channel loop that consumes: the channel of free
  buffers, the message channel of capacity one, and the contents of the buffers by address. A
  message carries the payload as it was read together with the address of the buffer it lies in,
  so that reuse of a buffer under a payload still in use would be visible.
\<close>

section \<open>Reading one message\<close>

definition readAheadSlots :: nat where [simp]: "readAheadSlots = 2"

record message =
  ms_header :: Header
  ms_payload :: bytes
  ms_buf :: nat
  ms_err :: "gerror option"

definition recoverable :: "gerror \<Rightarrow> bool" where
  "recoverable err \<longleftrightarrow> err = ErrMessageTooLarge"

text \<open>\<open>readOne\<close> on a stream: the stream and the buffer's contents afterwards, and the message;
  \<open>None\<close> when the read never returns. The buffer is at address \<open>b\<close>.\<close>

definition readOne :: "'s read_fun \<Rightarrow> 's \<Rightarrow> nat \<Rightarrow> bytes \<Rightarrow> ('s \<times> bytes \<times> message) option" where
  "readOne rd s b buf =
     Option.bind (ReadHeader rd s) (\<lambda>(s, r).
       case r of
         Inl e \<Rightarrow> Some (s, buf, \<lparr>ms_header = zero_Header, ms_payload = [], ms_buf = b, ms_err = Some e\<rparr>)
       | Inr h \<Rightarrow>
           if hLength h > of_nat (length buf) then
             Option.bind (DiscardPayload rd s (hLength h) buf) (\<lambda>(s, buf, derr).
               case derr of
                 Some e \<Rightarrow> Some (s, buf, \<lparr>ms_header = h, ms_payload = [], ms_buf = b, ms_err = Some e\<rparr>)
               | None \<Rightarrow> Some (s, buf, \<lparr>ms_header = h, ms_payload = [], ms_buf = b,
                                      ms_err = Some ErrMessageTooLarge\<rparr>))
           else
             let n = unat (hLength h); m = max n 1 in
             Option.bind (ReadPayload rd None s () (hLength h) (take m buf)) (\<lambda>(s, _, scratch, err).
               let buf = scratch @ drop m buf in
               case err of
                 Some e \<Rightarrow> Some (s, buf, \<lparr>ms_header = h, ms_payload = [], ms_buf = b, ms_err = Some e\<rparr>)
               | None \<Rightarrow> Some (s, buf, \<lparr>ms_header = h, ms_payload = take n buf, ms_buf = b,
                                      ms_err = None\<rparr>)))"

text \<open>The messages the consumer is to see for frames on the wire: an oversized one is reported
  with its header and without its payload.\<close>

definition arrival :: "nat \<Rightarrow> Header \<times> bytes \<Rightarrow> Header \<times> bytes \<times> gerror option" where
  "arrival limit m =
     (let h = (fst m)\<lparr>hLength := of_nat (length (snd m))\<rparr> in
      if length (snd m) > limit then (h, [], Some ErrMessageTooLarge) else (h, snd m, None))"

definition seen :: "message \<Rightarrow> Header \<times> bytes \<times> gerror option" where
  "seen m = (ms_header m, ms_payload m, ms_err m)"

text \<open>Successive reads into one buffer.\<close>

fun read_many :: "'s read_fun \<Rightarrow> 's \<Rightarrow> nat \<Rightarrow> bytes \<Rightarrow> nat \<Rightarrow> ('s \<times> bytes \<times> message list) option" where
  "read_many rd s b buf 0 = Some (s, buf, [])"
| "read_many rd s b buf (Suc k) =
     Option.bind (readOne rd s b buf) (\<lambda>(s, buf, m).
       map_option (\<lambda>(s, buf, ms). (s, buf, m # ms)) (read_many rd s b buf k))"

context byte_source
begin

lemma readOne_frame:
  assumes "content s = frame h p @ rest" "buf \<noteq> []" "length buf < 2 ^ 64" "length p < 2 ^ 64"
  shows "\<exists>s' buf' m. readOne rd s b buf = Some (s', buf', m) \<and> seen m = arrival (length buf) (h, p) \<and>
    ms_buf m = b \<and> content s' = rest \<and> fin s' = fin s \<and> length buf' = length buf \<and>
    take (length (ms_payload m)) buf' = ms_payload m"
proof -
  let ?h = "h\<lparr>hLength := of_nat (length p)\<rparr>"
  have n: "unat (of_nat (length p) :: uint64) = length p"
    using assms(4) by (simp add: unat_of_nat_64)
  have lt: "(of_nat (length buf) :: uint64) < of_nat (length p) \<longleftrightarrow> length buf < length p"
    using assms(3,4) by (simp add: word_less_nat_alt unat_of_nat_64)
  obtain s1 where s1: "ReadHeader rd s = Some (s1, Inr ?h)" "content s1 = p @ rest" "fin s1 = fin s"
    using ReadHeader_full [of s ?h "p @ rest"] assms(1) by (auto simp: frame_def)
  show ?thesis
  proof (cases "length p > length buf")
    case True
    obtain s2 buf2 where "ReadPayload rd None s1 () (of_nat (length p)) buf = Some (s2, (), buf2, None)"
      "content s2 = rest" "fin s2 = fin s1" "length buf2 = length buf"
      using ReadPayload_full [OF assms(2), of "of_nat (length p)" s1 None "()"] s1 n by auto
    with s1 True lt show ?thesis
      by (simp add: readOne_def DiscardPayload_def arrival_def seen_def Let_def)
  next
    case False
    let ?m = "max (length p) 1"
    have m: "take ?m buf \<noteq> []" "length (take ?m buf) = ?m"
      using assms(2) False by (auto simp: Suc_le_eq neq_Nil_conv)
    obtain s2 scr where s2: "ReadPayload rd None s1 () (of_nat (length p)) (take ?m buf) = Some (s2, (), scr, None)"
      "content s2 = rest" "fin s2 = fin s1" "length scr = ?m" "take (length p) scr = p"
      using ReadPayload_full [OF m(1), of "of_nat (length p)" s1 None "()"] s1 n m(2) by auto
    then have t: "take (length p) (scr @ drop ?m buf) = p" by simp
    have "length (scr @ drop ?m buf) = length buf"
      using s2(4) m(2) False assms(2) by (simp add: Suc_le_eq)
    with s1 s2 t n False lt show ?thesis
      by (simp add: readOne_def arrival_def seen_def Let_def)
  qed
qed

lemma read_many_frames:
  assumes "content s = concat (map (\<lambda>(h, p). frame h p) ms) @ rest" "buf \<noteq> []" "length buf < 2 ^ 64"
    "\<forall>m \<in> set ms. length (snd m) < 2 ^ 64"
  shows "\<exists>s' buf' rs. read_many rd s b buf (length ms) = Some (s', buf', rs) \<and>
    map seen rs = map (arrival (length buf)) ms \<and> content s' = rest \<and> fin s' = fin s"
  using assms
proof (induction ms arbitrary: s buf)
  case Nil
  then show ?case by simp
next
  case (Cons hp ms)
  obtain h p where hp: "hp = (h, p)" by fastforce
  from Cons.prems hp have "content s = frame h p @ concat (map (\<lambda>(h, p). frame h p) ms) @ rest"
    "length p < 2 ^ 64" by auto
  from readOne_frame [OF this(1) Cons.prems(2,3) this(2)] obtain s1 buf1 m where
    r: "readOne rd s b buf = Some (s1, buf1, m)" "seen m = arrival (length buf) (h, p)"
      "content s1 = concat (map (\<lambda>(h, p). frame h p) ms) @ rest" "fin s1 = fin s" "length buf1 = length buf"
    by blast
  from r(5) Cons.prems(2) have "buf1 \<noteq> []" by auto
  from Cons.IH [OF r(3) this] r(5) Cons.prems obtain s2 buf2 rs where
    "read_many rd s1 b buf1 (length ms) = Some (s2, buf2, rs)"
    "map seen rs = map (arrival (length buf)) ms" "content s2 = rest" "fin s2 = fin s1" by auto
  with r hp show ?case by simp
qed

end

section \<open>The reader and its consumer\<close>

text \<open>Program counter of \<open>run\<close>: waiting for a free buffer, reading into one, handing a message
  over, returned (the message channel is then closed).\<close>

datatype run_pc = RunFree | RunReading nat | RunSending message | RunReturned

record reader =
  re_stream :: transport
  re_channel :: Channel
  re_limit :: uint64
  re_free :: "nat list"
  re_msgs :: "message list"
  re_done :: bool
  re_bufs :: "nat \<Rightarrow> bytes"
  re_pc :: run_pc

definition newReader :: "transport \<Rightarrow> Channel \<Rightarrow> uint64 \<Rightarrow> reader" where
  "newReader stream channel limit =
     \<lparr>re_stream = stream, re_channel = channel, re_limit = limit, re_free = [0..<readAheadSlots],
      re_msgs = [], re_done = False, re_bufs = (\<lambda>_. replicate (unat limit) 0), re_pc = RunFree\<rparr>"

text \<open>One step of \<open>run\<close>. The argument says whether a \<open>select\<close> takes the \<open>done\<close> case;
  \<open>None\<close> means the step cannot be taken now.\<close>

definition reader_run_step :: "reader \<Rightarrow> bool \<Rightarrow> reader option" where
  "reader_run_step r stopping =
     (case re_pc r of
        RunFree \<Rightarrow>
          if stopping then (if re_done r then Some (r\<lparr>re_pc := RunReturned\<rparr>) else None)
          else (case re_free r of
                  [] \<Rightarrow> None
                | b # bs \<Rightarrow> Some (r\<lparr>re_free := bs, re_pc := RunReading b\<rparr>))
      | RunReading b \<Rightarrow>
          (case readOne Stream_Read (re_stream r) b (re_bufs r b) of
             None \<Rightarrow> None
           | Some (s, buf, m) \<Rightarrow>
               Some (r\<lparr>re_stream := s, re_bufs := (re_bufs r)(b := buf), re_pc := RunSending m\<rparr>))
      | RunSending m \<Rightarrow>
          if stopping then (if re_done r then Some (r\<lparr>re_pc := RunReturned\<rparr>) else None)
          else if length (re_msgs r) < 1
          then Some (r\<lparr>re_msgs := re_msgs r @ [m],
                       re_pc := (case ms_err m of
                                   Some e \<Rightarrow> if \<not> recoverable e then RunReturned else RunFree
                                 | None \<Rightarrow> RunFree)\<rparr>)
          else None
      | RunReturned \<Rightarrow> None)"

definition reader_release :: "reader \<Rightarrow> nat \<Rightarrow> reader" where
  "reader_release r b =
     (if length (re_free r) < readAheadSlots then r\<lparr>re_free := re_free r @ [b]\<rparr> else r)"

text \<open>\<open>next\<close>: the outer \<open>None\<close> is blocking, the inner one the end of the channel.\<close>

definition reader_next :: "reader \<Rightarrow> (reader \<times> message option) option" where
  "reader_next r =
     (case re_msgs r of
        m # ms \<Rightarrow> Some (r\<lparr>re_msgs := ms\<rparr>, Some m)
      | [] \<Rightarrow> if re_pc r = RunReturned then Some (r, None) else None)"

definition reader_pending :: "reader \<Rightarrow> bool" where
  "reader_pending r \<longleftrightarrow> length (re_msgs r) > 0"

definition reader_stop :: "reader \<Rightarrow> reader" where
  "reader_stop r = (if re_done r then r else r\<lparr>re_done := True\<rparr>)"

text \<open>The channel loop takes a message, works on it and releases its buffer before it takes the
  next. The third component is the history of messages taken.\<close>

type_synonym read_system = "reader \<times> message option \<times> message list"

inductive reader_step :: "read_system \<Rightarrow> read_system \<Rightarrow> bool" where
  run: "reader_run_step r stopping = Some r' \<Longrightarrow> reader_step (r, h, ms) (r', h, ms)"
| next_message: "reader_next r = Some (r', Some m) \<Longrightarrow> reader_step (r, None, ms) (r', Some m, ms @ [m])"
| release_buffer: "reader_step (r, Some m, ms) (reader_release r (ms_buf m), None, ms)"
| stop: "reader_step (r, h, ms) (reader_stop r, h, ms)"

inductive reader_reach :: "reader \<Rightarrow> read_system \<Rightarrow> bool" for r0 where
  start: "reader_reach r0 (r0, None, [])"
| step: "reader_reach r0 c \<Longrightarrow> reader_step c c' \<Longrightarrow> reader_reach r0 c'"

subsection \<open>Buffer ownership\<close>

fun pc_messages :: "run_pc \<Rightarrow> message list" where
  "pc_messages (RunSending m) = [m]"
| "pc_messages _ = []"

fun pc_buffers :: "run_pc \<Rightarrow> nat list" where
  "pc_buffers (RunReading b) = [b]"
| "pc_buffers (RunSending m) = [ms_buf m]"
| "pc_buffers _ = []"

definition held_list :: "message option \<Rightarrow> message list" where
  "held_list h = (case h of None \<Rightarrow> [] | Some m \<Rightarrow> [m])"

lemma held_list_simps [simp]: "held_list None = []" "held_list (Some m) = [m]"
  by (simp_all add: held_list_def)

definition owned :: "reader \<Rightarrow> message option \<Rightarrow> nat list" where
  "owned r h = re_free r @ pc_buffers (re_pc r) @ map ms_buf (re_msgs r @ held_list h)"

definition intact :: "reader \<Rightarrow> message \<Rightarrow> bool" where
  "intact r m \<longleftrightarrow> take (length (ms_payload m)) (re_bufs r (ms_buf m)) = ms_payload m"

definition reader_inv :: "reader \<Rightarrow> message option \<Rightarrow> bool" where
  "reader_inv r h \<longleftrightarrow> distinct (owned r h) \<and> set (owned r h) \<subseteq> {0, 1} \<and> length (re_msgs r) \<le> 1 \<and>
     (\<forall>m \<in> set (pc_messages (re_pc r) @ re_msgs r @ held_list h). intact r m)"

lemma take_length_take: "take (length (take n xs)) xs = take n xs"
  by (simp add: min_def)

lemma readOne_message:
  assumes "readOne rd s b buf = Some (s', buf', m)"
  shows "ms_buf m = b \<and> take (length (ms_payload m)) buf' = ms_payload m"
  using assms
  by (auto simp: readOne_def Let_def take_length_take simp del: take_append length_take
      split: option.splits sum.splits if_splits bind_splits)

lemma reader_inv_new [simp]: "reader_inv (newReader s ch limit) None"
  by (auto simp: reader_inv_def newReader_def owned_def numeral_2_eq_2)


lemma reader_inv_run:
  assumes inv: "reader_inv r h" and st: "reader_run_step r stopping = Some r'"
  shows "reader_inv r' h"
proof (cases "re_pc r")
  case RunFree
  show ?thesis
  proof (cases stopping)
    case True
    with RunFree st have "r' = r\<lparr>re_pc := RunReturned\<rparr>"
      by (simp add: reader_run_step_def split: if_splits)
    with inv RunFree show ?thesis by (simp add: reader_inv_def owned_def intact_def)
  next
    case False
    with RunFree st obtain b bs where "re_free r = b # bs" "r' = r\<lparr>re_free := bs, re_pc := RunReading b\<rparr>"
      by (auto simp: reader_run_step_def split: list.splits)
    with inv RunFree show ?thesis by (simp add: reader_inv_def owned_def intact_def)
  qed
next
  case (RunReading b)
  with st obtain s buf m where
    ro: "readOne Stream_Read (re_stream r) b (re_bufs r b) = Some (s, buf, m)"
    and r': "r' = r\<lparr>re_stream := s, re_bufs := (re_bufs r)(b := buf), re_pc := RunSending m\<rparr>"
    by (auto simp: reader_run_step_def split: option.splits)
  from readOne_message [OF ro] have m: "ms_buf m = b" "take (length (ms_payload m)) buf = ms_payload m"
    by simp_all
  have other: "ms_buf x \<noteq> b" if "x \<in> set (re_msgs r @ held_list h)" for x
    using inv RunReading that by (auto simp: reader_inv_def owned_def)
  show ?thesis
    using inv RunReading m other
    by (simp add: reader_inv_def r' owned_def intact_def)
next
  case (RunSending m)
  show ?thesis
  proof (cases stopping)
    case True
    with RunSending st have "r' = r\<lparr>re_pc := RunReturned\<rparr>"
      by (simp add: reader_run_step_def split: if_splits)
    with inv RunSending show ?thesis by (simp add: reader_inv_def owned_def intact_def)
  next
    case False
    with RunSending st obtain pc where r': "re_msgs r = []" "r' = r\<lparr>re_msgs := [m], re_pc := pc\<rparr>"
      "pc = RunReturned \<or> pc = RunFree"
      by (auto simp: reader_run_step_def split: if_splits option.splits)
    with inv RunSending show ?thesis by (auto simp: reader_inv_def owned_def intact_def)
  qed
next
  case RunReturned
  with st show ?thesis by (simp add: reader_run_step_def)
qed

lemma reader_inv_step:
  assumes "reader_step c c'" "reader_inv (fst c) (fst (snd c))"
  shows "reader_inv (fst c') (fst (snd c'))"
  using assms
proof (induction rule: reader_step.induct)
  case (run r stopping r' h ms)
  then show ?case using reader_inv_run by simp
next
  case (next_message r r' m ms)
  then show ?case
    by (auto simp: reader_next_def reader_inv_def owned_def intact_def split: list.splits if_splits)
next
  case (release_buffer r m ms)
  then show ?case by (auto simp: reader_release_def reader_inv_def owned_def intact_def)
next
  case (stop r h ms)
  then show ?case by (simp add: reader_stop_def reader_inv_def owned_def intact_def)
qed

lemma reader_inv_reach:
  "reader_reach r0 c \<Longrightarrow> reader_inv r0 None \<Longrightarrow> reader_inv (fst c) (fst (snd c))"
  by (induction rule: reader_reach.induct) (auto intro: reader_inv_step)

subsection \<open>Order of delivery\<close>

text \<open>Everything read so far: taken, waiting in the channel, and in the hands of \<open>run\<close>.\<close>

definition read_log :: "read_system \<Rightarrow> message list" where
  "read_log c = (case c of (r, h, ms) \<Rightarrow> ms @ re_msgs r @ pc_messages (re_pc r))"

definition frames :: "(Header \<times> bytes) list \<Rightarrow> bytes" where
  "frames ms = concat (map (\<lambda>(h, p). frame h p) ms)"

text \<open>Either a first part of the wire messages has been read and the rest is still on the wire, or
  all of them have been read; a message dropped when \<open>run\<close> is stopped is the last one read.\<close>

definition read_in_order :: "nat \<Rightarrow> (Header \<times> bytes) list \<Rightarrow> bytes \<Rightarrow> read_system \<Rightarrow> bool" where
  "read_in_order limit wire rest c \<longleftrightarrow>
     (\<exists>k \<le> length wire. map seen (read_log c) = map (arrival limit) (take k wire) \<and>
        (re_pc (fst c) = RunReturned \<or>
         tr_content (re_stream (fst c)) = frames (drop k wire) @ rest \<and>
         (\<forall>b. length (re_bufs (fst c) b) = limit))) \<or>
     (\<exists>more. map seen (read_log c) = map (arrival limit) wire @ more)"

lemma read_in_order_cong:
  assumes "read_in_order limit wire rest c" "read_log c' = read_log c"
    "re_pc (fst c) = RunReturned \<Longrightarrow> re_pc (fst c') = RunReturned"
    "re_stream (fst c') = re_stream (fst c)" "re_bufs (fst c') = re_bufs (fst c)"
  shows "read_in_order limit wire rest c'"
  using assms unfolding read_in_order_def by (metis (no_types))

lemma read_in_order_drop:
  assumes "read_in_order limit wire rest c" "read_log c = read_log c' @ [m]"
    "re_pc (fst c') = RunReturned"
  shows "read_in_order limit wire rest c'"
proof -
  have log: "map seen (read_log c') = butlast (map seen (read_log c))" by (simp add: assms(2))
  consider k where "k \<le> length wire" "map seen (read_log c) = map (arrival limit) (take k wire)"
    | more where "map seen (read_log c) = map (arrival limit) wire @ more"
    using assms(1) by (auto simp: read_in_order_def)
  then show ?thesis
  proof cases
    case 1
    then have "map seen (read_log c') = map (arrival limit) (take (k - 1) wire)"
      by (simp add: log butlast_take flip: map_butlast)
    then show ?thesis
      unfolding read_in_order_def using 1 assms(3) by (intro disjI1 exI [of _ "k - 1"]) simp
  next
    case 2
    show ?thesis
    proof (cases "more = []")
      case True
      with 2 have "map seen (read_log c') = map (arrival limit) (take (length wire - 1) wire)"
        by (simp add: log butlast_conv_take take_map)
      then show ?thesis
        unfolding read_in_order_def using assms(3) by (intro disjI1 exI [of _ "length wire - 1"]) simp
    next
      case False
      with 2 have "map seen (read_log c') = map (arrival limit) wire @ butlast more"
        by (simp add: log butlast_append)
      then show ?thesis unfolding read_in_order_def by blast
    qed
  qed
qed

lemma read_in_order_read:
  assumes ord: "read_in_order limit wire rest (r, h, ms)" and pc: "re_pc r = RunReading b"
    and ro: "readOne Stream_Read (re_stream r) b (re_bufs r b) = Some (s, buf, m)"
    and small: "0 < limit" "limit < 2 ^ 64" "\<forall>x \<in> set wire. length (snd x) < 2 ^ 64"
  shows "read_in_order limit wire rest
    (r\<lparr>re_stream := s, re_bufs := (re_bufs r)(b := buf), re_pc := RunSending m\<rparr>, h, ms)"
    (is "read_in_order _ _ _ ?c")
proof -
  have log: "read_log ?c = read_log (r, h, ms) @ [m]" using pc by (simp add: read_log_def)
  consider k where "k < length wire" "map seen (read_log (r, h, ms)) = map (arrival limit) (take k wire)"
      "tr_content (re_stream r) = frames (drop k wire) @ rest" "\<forall>b. length (re_bufs r b) = limit"
    | more where "map seen (read_log (r, h, ms)) = map (arrival limit) wire @ more"
    using ord pc unfolding read_in_order_def
    by (metis (no_types, lifting) append_Nil2 fst_conv le_neq_implies_less run_pc.distinct(9) take_all_iff
        order_refl)
  then show ?thesis
  proof cases
    case 1
    obtain hd p where w: "wire ! k = (hd, p)" by fastforce
    have d: "drop k wire = (hd, p) # drop (Suc k) wire" using 1(1) w by (metis Cons_nth_drop_Suc)
    have c: "tr_content (re_stream r) = frame hd p @ frames (drop (Suc k) wire) @ rest"
      using 1(3) d by (simp add: frames_def)
    have len: "re_bufs r b \<noteq> []" "length (re_bufs r b) < 2 ^ 64" "length p < 2 ^ 64"
      using 1(1,4) small w nth_mem [of k wire] by auto
    from tr.readOne_frame [OF c len, of b] ro have
      "seen m = arrival limit (wire ! k)" "tr_content s = frames (drop (Suc k) wire) @ rest"
      "length buf = limit"
      using 1(4) w by auto
    with 1 log show ?thesis
      unfolding read_in_order_def
      by (intro disjI1 exI [of _ "Suc k"]) (simp add: take_Suc_conv_app_nth)
  next
    case 2
    with log have "map seen (read_log ?c) = map (arrival limit) wire @ more @ [seen m]" by simp
    then show ?thesis unfolding read_in_order_def by blast
  qed
qed

lemma read_in_order_run:
  assumes ord: "read_in_order limit wire rest (r, h, ms)" and st: "reader_run_step r stopping = Some r'"
    and small: "0 < limit" "limit < 2 ^ 64" "\<forall>x \<in> set wire. length (snd x) < 2 ^ 64"
  shows "read_in_order limit wire rest (r', h, ms)"
proof (cases "re_pc r")
  case RunFree
  with st have "re_stream r' = re_stream r" "re_bufs r' = re_bufs r" "read_log (r', h, ms) = read_log (r, h, ms)"
    by (auto simp: reader_run_step_def read_log_def split: if_splits list.splits)
  with RunFree show ?thesis by (intro read_in_order_cong [OF ord]) simp_all
next
  case (RunReading b)
  with st obtain s buf m where
    "readOne Stream_Read (re_stream r) b (re_bufs r b) = Some (s, buf, m)"
    "r' = r\<lparr>re_stream := s, re_bufs := (re_bufs r)(b := buf), re_pc := RunSending m\<rparr>"
    by (auto simp: reader_run_step_def split: option.splits)
  with read_in_order_read [OF ord RunReading _ small] show ?thesis by simp
next
  case (RunSending m)
  show ?thesis
  proof (cases stopping)
    case True
    with RunSending st have "r' = r\<lparr>re_pc := RunReturned\<rparr>"
      by (simp add: reader_run_step_def split: if_splits)
    with RunSending show ?thesis
      by (intro read_in_order_drop [OF ord, of _ m]) (simp_all add: read_log_def)
  next
    case False
    with RunSending st have "re_stream r' = re_stream r" "re_bufs r' = re_bufs r"
      "read_log (r', h, ms) = read_log (r, h, ms)"
      by (auto simp: reader_run_step_def read_log_def split: if_splits option.splits)
    with RunSending show ?thesis by (intro read_in_order_cong [OF ord]) simp_all
  qed
next
  case RunReturned
  with st show ?thesis by (simp add: reader_run_step_def)
qed

lemma read_in_order_step:
  assumes "reader_step c c'" "read_in_order limit wire rest c"
    and small: "0 < limit" "limit < 2 ^ 64" "\<forall>x \<in> set wire. length (snd x) < 2 ^ 64"
  shows "read_in_order limit wire rest c'"
  using assms(1,2)
proof (induction rule: reader_step.induct)
  case (run r stopping r' h ms)
  then show ?case using read_in_order_run small by blast
next
  case (next_message r r' m ms)
  then show ?case
    by (intro read_in_order_cong [OF next_message.prems])
      (auto simp: reader_next_def read_log_def split: list.splits if_splits)
next
  case (release_buffer r m ms)
  then show ?case
    by (intro read_in_order_cong [OF release_buffer.prems]) (auto simp: reader_release_def read_log_def)
next
  case (stop r h ms)
  then show ?case
    by (intro read_in_order_cong [OF stop.prems]) (auto simp: reader_stop_def read_log_def)
qed

lemma read_in_order_reach:
  assumes "reader_reach (newReader s ch limit) c" "tr_content s = frames wire @ rest" "limit \<noteq> 0"
    "\<forall>x \<in> set wire. length (snd x) < 2 ^ 64"
  shows "read_in_order (unat limit) wire rest c"
  using assms(1)
proof (induction rule: reader_reach.induct)
  case start
  show ?case
    unfolding read_in_order_def using assms(2)
    by (intro disjI1 exI [of _ 0]) (simp add: newReader_def read_log_def)
next
  case (step c c')
  have "0 < unat limit" "unat limit < 2 ^ 64"
    using assms(3) unsigned_less [of limit] by (simp_all add: unat_gt_0)
  with step assms(4) show ?case by (blast intro: read_in_order_step)
qed

text \<open>A whole message on the wire can be taken after four steps.\<close>

lemma reader_takes_first:
  assumes "tr_content s = frame h p @ rest" "limit \<noteq> 0" "length p < 2 ^ 64"
  shows "\<exists>r m. reader_reach (newReader s ch limit) (r, Some m, [m])"
proof -
  let ?r0 = "newReader s ch limit"
  have len: "re_bufs ?r0 0 \<noteq> []" "length (re_bufs ?r0 0) < 2 ^ 64"
    using assms(2) unsigned_less [of limit] by (simp_all add: newReader_def unat_eq_0)
  obtain s1 buf m where ro: "readOne Stream_Read s 0 (re_bufs ?r0 0) = Some (s1, buf, m)"
    and m: "ms_err m = None \<or> ms_err m = Some ErrMessageTooLarge"
    using tr.readOne_frame [OF assms(1) len assms(3), of 0]
    by (auto simp: seen_def arrival_def Let_def split: if_splits)
  let ?r1 = "?r0\<lparr>re_free := [1], re_pc := RunReading 0\<rparr>"
  let ?r2 = "?r1\<lparr>re_stream := s1, re_bufs := (re_bufs ?r1)(0 := buf), re_pc := RunSending m\<rparr>"
  let ?r3 = "?r2\<lparr>re_msgs := [m], re_pc := RunFree\<rparr>"
  have "reader_run_step ?r0 False = Some ?r1"
    by (simp add: reader_run_step_def newReader_def numeral_2_eq_2)
  from reader_reach.step [OF reader_reach.start reader_step.run [OF this]]
  have 1: "reader_reach ?r0 (?r1, None, [])" .
  have "reader_run_step ?r1 False = Some ?r2"
    using ro by (simp add: reader_run_step_def newReader_def)
  from reader_reach.step [OF 1 reader_step.run [OF this]]
  have 2: "reader_reach ?r0 (?r2, None, [])" .
  have "reader_run_step ?r2 False = Some ?r3"
    using m by (auto simp: reader_run_step_def newReader_def recoverable_def)
  from reader_reach.step [OF 2 reader_step.run [OF this]]
  have 3: "reader_reach ?r0 (?r3, None, [])" .
  have "reader_next ?r3 = Some (?r3\<lparr>re_msgs := []\<rparr>, Some m)"
    by (simp add: reader_next_def)
  from reader_reach.step [OF 3 reader_step.next_message [OF this]] show ?thesis by auto
qed

section \<open>Properties\<close>

text \<open>
  C5. A channel stays synchronised whatever its messages are. When the wire carries whole
  messages, then for every interleaving of the reading goroutine and the channel loop, and
  wherever the network cuts the stream, the \<open>i\<close>-th message the channel loop takes is the
  \<open>i\<close>-th message on the wire: its header and payload if the payload fits the limit, and its
  header with \<open>ErrMessageTooLarge\<close> if not, in which case the messages after it are unaffected.
\<close>

theorem reader_delivers_in_order:
  assumes "reader_reach (newReader s ch limit) (r, h, taken)"
    and "tr_content s = frames wire @ rest" and "limit \<noteq> 0"
    and "\<forall>x \<in> set wire. length (snd x) < 2 ^ 64"
    and "i < length taken" and "i < length wire"
  shows "seen (taken ! i) = arrival (unat limit) (wire ! i)"
proof -
  have "read_in_order (unat limit) wire rest (r, h, taken)"
    using read_in_order_reach [OF assms(1-4)] .
  then consider k where "k \<le> length wire"
      "map seen (read_log (r, h, taken)) = map (arrival (unat limit)) (take k wire)"
    | more where "map seen (read_log (r, h, taken)) = map (arrival (unat limit)) wire @ more"
    unfolding read_in_order_def by blast
  moreover have "map seen (read_log (r, h, taken)) ! i = seen (taken ! i)"
    "i < length (map seen (read_log (r, h, taken)))"
    using assms(5) by (simp_all add: read_log_def nth_append)
  ultimately show ?thesis
    by cases (use assms(6) in \<open>simp_all add: nth_append\<close>)
qed

lemma reader_example_content:
  "tr_content \<lparr>tr_in = [header_bytes \<lparr>hType = 6, hControl = 0, hParameter = 2, hLength = 5\<rparr>, [1, 2],
       [3, 4, 5]], tr_end = None, tr_out = [], tr_wfaults = [], tr_closed = False\<rparr> =
     frames [(\<lparr>hType = 6, hControl = 0, hParameter = 2, hLength = 0\<rparr>, [1, 2, 3, 4, 5])] @ []"
  by (simp add: tr_content_def frames_def frame_def)

theorem reader_delivers_in_order_witness:
  "\<exists>r h taken. reader_reach (newReader
      \<lparr>tr_in = [header_bytes \<lparr>hType = 6, hControl = 0, hParameter = 2, hLength = 5\<rparr>, [1, 2],
         [3, 4, 5]], tr_end = None, tr_out = [], tr_wfaults = [], tr_closed = False\<rparr>
      ChannelSynchronous 4) (r, h, taken) \<and>
    seen (taken ! 0) = (\<lparr>hType = 6, hControl = 0, hParameter = 2, hLength = 5\<rparr>, [], Some ErrMessageTooLarge)"
proof -
  let ?s = "\<lparr>tr_in = [header_bytes \<lparr>hType = 6, hControl = 0, hParameter = 2, hLength = 5\<rparr>, [1, 2],
         [3, 4, 5]], tr_end = None, tr_out = [], tr_wfaults = [], tr_closed = False\<rparr>"
  let ?w = "(\<lparr>hType = 6, hControl = 0, hParameter = 2, hLength = 0\<rparr>, [1, 2, 3, 4, 5 :: byte])"
  obtain r m where r: "reader_reach (newReader ?s ChannelSynchronous 4) (r, Some m, [m])"
    using reader_takes_first [of ?s "fst ?w" "snd ?w" "[]" 4 ChannelSynchronous] reader_example_content
    by (auto simp: frames_def)
  have "seen ([m] ! 0) = arrival (unat (4 :: uint64)) ([?w] ! 0)"
    using reader_delivers_in_order [OF r reader_example_content] by simp
  also have "\<dots> = (\<lparr>hType = 6, hControl = 0, hParameter = 2, hLength = 5\<rparr>, [], Some ErrMessageTooLarge)"
    by (simp add: arrival_def)
  finally show ?thesis using r by blast
qed



end
