(* ===== verification/Serve.thy ===== *)
theory Serve
  imports Data_Path Reader
begin

text \<open>
  The connection handlers (\<open>server/serve.go\<close>).

  A handler maps the server state to the new state and Go's error result; \<open>None\<close> stands for a
  call that does not return. Handlers take, as arguments, what the environment decides while they
  run: whether the context is cancelled, what the queued-input predicate answers, and the
  schedule of a waiting lock request. A channel loop is given the sequence of messages its
  reader hands it (theory \<open>Reader\<close>) together with those answers; the end of the
  sequence is the end of the connection.
\<close>

section \<open>Helpers\<close>

definition responseScratch :: "nat \<Rightarrow> uint64 \<Rightarrow> nat" where
  "responseScratch buf limit = (if limit = 0 \<or> limit \<ge> of_nat buf then buf else unat limit)"

definition decodeMaxSize :: "bytes \<Rightarrow> uint64" where
  "decodeMaxSize payload =
     (if length payload < 8 then 0
      else foldl (\<lambda>v i. push_bit 8 v OR ucast (payload ! i)) 0 [0..<8])"

text \<open>The loop of \<open>putUint64\<close> from index \<open>i - 1\<close> down to 0.\<close>

fun putUint64_loop :: "nat \<Rightarrow> bytes \<Rightarrow> uint64 \<Rightarrow> bytes" where
  "putUint64_loop 0 b v = b"
| "putUint64_loop (Suc i) b v = putUint64_loop i (b[i := ucast v]) (drop_bit 8 v)"

definition putUint64 :: "bytes \<Rightarrow> uint64 \<Rightarrow> bytes" where
  "putUint64 b v = putUint64_loop 8 b v"

definition readSubAddress :: "'s read_fun \<Rightarrow> 's \<Rightarrow> Header \<Rightarrow> uint64 \<Rightarrow> ('s \<times> (gerror + bytes)) option" where
  "readSubAddress rd st h limit =
     (case CheckLength (hLength h) limit of
        Some e \<Rightarrow> Some (st, Inl e)
      | None \<Rightarrow>
          if hLength h = 0 then Some (st, Inr [])
          else map_option (\<lambda>(st, _, buf, err). (st, case err of Some e \<Rightarrow> Inl e | None \<Rightarrow> Inr buf))
                 (ReadPayload rd None st () (hLength h) (replicate (unat (hLength h)) 0)))"

section \<open>Counting and reporting\<close>

definition Server_countInterrupted :: "('d, 'x) Server \<Rightarrow> Interrupted_kind \<Rightarrow> ('d, 'x) Server" where
  "Server_countInterrupted s i =
     (case i of
        InterruptedRMTMismatch \<Rightarrow>
          Server_count s (\<lambda>c. c\<lparr>ct_SilentInterrupted := ct_SilentInterrupted c + 1\<rparr>)
      | InterruptedInputQueued \<Rightarrow>
          Server_count s (\<lambda>c. c\<lparr>ct_InterruptedSent := ct_InterruptedSent c + 1\<rparr>)
      | NotInterrupted \<Rightarrow> s)"

definition Server_countOutcome :: "('d, 'x) Server \<Rightarrow> ResponseOutcome \<Rightarrow> ('d, 'x) Server" where
  "Server_countOutcome s oc =
     (case oc of
        ResponseAbsent \<Rightarrow>
          Server_count s (\<lambda>c. c\<lparr>ct_QueriesWithoutAnswer := ct_QueriesWithoutAnswer c + 1\<rparr>)
      | ResponseTruncated \<Rightarrow>
          Server_count s (\<lambda>c. c\<lparr>ct_TruncatedResponses := ct_TruncatedResponses c + 1\<rparr>)
      | ResponseInterrupted \<Rightarrow>
          Server_count s (\<lambda>c. c\<lparr>ct_InterruptedSent := ct_InterruptedSent c + 1\<rparr>)
      | ResponseComplete \<Rightarrow> s)"

definition count_fatal :: "('d, 'x) Server \<Rightarrow> ('d, 'x) Server" where
  "count_fatal s = Server_count s (\<lambda>c. c\<lparr>ct_FatalErrors := ct_FatalErrors c + 1\<rparr>)"

definition count_nonfatal :: "('d, 'x) Server \<Rightarrow> ('d, 'x) Server" where
  "count_nonfatal s = Server_count s (\<lambda>c. c\<lparr>ct_NonFatalErrors := ct_NonFatalErrors c + 1\<rparr>)"

definition Server_reportReadError ::
    "('d, 'x) Server \<Rightarrow> nat option \<Rightarrow> gerror \<Rightarrow> ('d, 'x) Server \<times> gerror option" where
  "Server_reportReadError s w err =
     (if errors_Is err ErrMessageTooLarge
      then let s = Server_count s (\<lambda>c. c\<lparr>ct_OversizedMessages := ct_OversizedMessages c + 1,
                                         ct_NonFatalErrors := ct_NonFatalErrors c + 1\<rparr>)
           in if w \<noteq> None then send_error s w NonFatalMessageTooLarge (ascii ''message too large'')
              else (s, None)
      else (s, Some err))"

definition Server_reportAcceptError ::
    "('d, 'x) Server \<Rightarrow> nat option \<Rightarrow> gerror \<Rightarrow> ('d, 'x) Server \<times> gerror option" where
  "Server_reportAcceptError s w err =
     (let wire = WireErrorFor err;
          s = (if errors_Is err ErrWrongChannel
               then Server_count s (\<lambda>c. c\<lparr>ct_WrongChannel := ct_WrongChannel c + 1\<rparr>) else s)
      in if we_Fatal wire
         then let s = count_fatal s;
                  s = (if w \<noteq> None then fst (send_fatal s w (we_FatalCode wire) (Error_text err)) else s)
              in (s, Some err)
         else let s = count_nonfatal s
              in if w = None then (s, None) else send_error s w (we_Code wire) (Error_text err))"

definition Server_reportOperationError ::
    "('d, 'x) Server \<Rightarrow> nat option \<Rightarrow> gerror \<Rightarrow> ('d, 'x) Server \<times> gerror option" where
  "Server_reportOperationError s w err =
     (let wire = WireErrorFor err in
      if we_Fatal wire
      then let s = count_fatal s;
               s = (if w \<noteq> None then fst (send_fatal s w (we_FatalCode wire) (Error_text err)) else s)
           in (s, Some err)
      else let s = count_nonfatal s
           in if w = None then (s, None)
              else let code = we_Code wire;
                       code = (if code = NonFatalUnidentified then CodeHandshakeTimeout else code)
                   in send_error s w code (Error_text err))"

section \<open>The synchronous channel\<close>

definition Server_handleData ::
    "('d, 'x) env \<Rightarrow> ('d, 'x) Server \<Rightarrow> bool \<Rightarrow> nat \<Rightarrow> message \<Rightarrow> nat option \<Rightarrow> nat \<Rightarrow> bool \<Rightarrow>
     (('d, 'x) Server \<times> gerror option) option" where
  "Server_handleData E s ctx p msg w buf queued =
     (let (s, interrupted, err) = Server_ReceiveData E s ctx p (ms_header msg) (ms_payload msg);
          s = Server_countInterrupted s interrupted
      in case err of
           Some e \<Rightarrow> Some (Server_reportOperationError s w e)
         | None \<Rightarrow>
             let s = upd s p (\<lambda>se. Session_feedProgramMessage (en_pol E) se (ms_payload msg)) in
             if hType (ms_header msg) \<noteq> DataEnd then Some (s, None)
             else
               let (se, disposition) = Session_programDisposition (en_pol E) (sv_heap s p);
                   s = upd s p (\<lambda>_. se)
               in if disposition \<noteq> ResponseExpected then Some (tx_op s p Transaction_Complete)
                  else
                    let (s, op) = Session_Operation s p;
                        sess = sv_heap s p;
                        r = \<lparr>rs_Sync = w, rs_Async = se_asyncW sess,
                             rs_MessageID = Header_MessageID (ms_header msg),
                             rs_Scratch = responseScratch buf (se_maxTx sess),
                             rs_InputQueued = Some (Session_syncPending sess queued)\<rparr>
                    in Option.bind (Server_SendResponse E s (ctx \<or> op \<in> sv_cancelled s) p r)
                         (\<lambda>(s, outcome, err).
                            let s = Server_countOutcome s outcome;
                                (s, err) = (case err of
                                              Some e \<Rightarrow> Server_reportOperationError s w e
                                            | None \<Rightarrow> (s, None))
                            in Some (release_operation s p op, err)))"

definition Server_handleSync ::
    "('d, 'x) env \<Rightarrow> ('d, 'x) Server \<Rightarrow> bool \<Rightarrow> nat \<Rightarrow> message \<Rightarrow> nat \<Rightarrow> bool \<Rightarrow>
     (('d, 'x) Server \<times> gerror option) option" where
  "Server_handleSync E s ctx p msg buf queued =
     (let w = se_syncW (sv_heap s p); h = ms_header msg in
      case ms_err msg of
        Some e \<Rightarrow> Some (Server_reportReadError s w e)
      | None \<Rightarrow>
          if DiscardDuringClear (sv_heap s p) h then Some (s, None)
          else case Server_Accept s (Some p) h ChannelSynchronous of
            (class, Some e) \<Rightarrow> Some (Server_reportAcceptError s w e)
          | (class, None) \<Rightarrow>
              if hType h = Data \<or> hType h = DataEnd then Server_handleData E s ctx p msg w buf queued
              else if hType h = Trigger
              then (let (s, interrupted, err) = Server_Trigger E s ctx p h;
                        s = Server_countInterrupted s interrupted
                    in case err of
                         Some e \<Rightarrow> Some (Server_reportOperationError s w e)
                       | None \<Rightarrow> Some (Server_count s (\<lambda>c. c\<lparr>ct_Triggers := ct_Triggers c + 1\<rparr>), None))
              else if hType h = DeviceClearComplete
              then (let (s, ack, clearErr) = Server_CompleteDeviceClear E s ctx p h
                    in case send s w ack [] of
                         (s, Some e) \<Rightarrow> Some (s, Some e)
                       | (s, None) \<Rightarrow>
                           let s = Server_count s (\<lambda>c. c\<lparr>ct_DeviceClears := ct_DeviceClears c + 1\<rparr>)
                           in case clearErr of
                                Some e \<Rightarrow> Some (Server_reportOperationError s w e)
                              | None \<Rightarrow> Some (s, None))
              else if hType h = FatalError then Some (count_fatal s, Some ErrClientFatal)
              else if hType h = Error then Some (count_nonfatal s, None)
              else if hType h = Initialize
              then Some (fst (send_fatal s w FatalInvalidInitSequence (ascii ''already initialized'')),
                         Some ErrInvalidInitSequence)
              else if class = ClassSyncOrdered \<and> MessageType_VendorSpecific (hType h)
              then Some (send_error (count_nonfatal s) w NonFatalUnrecognizedVendorMsg
                           (ascii ''vendor extension not enabled''))
              else Some (send_error (count_nonfatal s) w NonFatalUnrecognizedMessageType
                           (ascii ''unsupported message'')))"

text \<open>What one iteration of a channel loop is given: whether the context is done when the loop looks
  at it and whether it is while the message is handled, the message, what the queued-input
  predicate answers, and the schedule of a lock request.\<close>

record loop_input =
  li_done :: bool
  li_ctx :: bool
  li_msg :: message
  li_queued :: bool
  li_lock :: "request_event list"

fun runSync_loop ::
    "('d, 'x) env \<Rightarrow> ('d, 'x) Server \<Rightarrow> nat \<Rightarrow> nat \<Rightarrow> loop_input list \<Rightarrow>
     (('d, 'x) Server \<times> gerror option) option" where
  "runSync_loop E s p buf [] = Some (s, None)"
| "runSync_loop E s p buf (i # is) =
     (if li_done i then Some (s, Some ErrCanceled)
      else Option.bind (Server_handleSync E s (li_ctx i) p (li_msg i) buf (li_queued i))
        (\<lambda>(s, err). case err of
           Some e \<Rightarrow> Some (s, Some e)
         | None \<Rightarrow> runSync_loop E s p buf is))"

definition Server_runSync ::
    "('d, 'x) env \<Rightarrow> ('d, 'x) Server \<Rightarrow> nat \<Rightarrow> loop_input list \<Rightarrow>
     (('d, 'x) Server \<times> gerror option) option" where
  "Server_runSync E s p is =
     (let s = upd s p (\<lambda>se. Session_setSyncPending se True) in
      runSync_loop E s p (unat (cf_MaxTxPayload (sv_cfg s))) is)"

section \<open>The asynchronous channel\<close>

definition Server_handleAsync ::
    "('d, 'x) env \<Rightarrow> ('d, 'x) Server \<Rightarrow> bool \<Rightarrow> nat \<Rightarrow> message \<Rightarrow> request_event list \<Rightarrow>
     (('d, 'x) Server \<times> gerror option) option" where
  "Server_handleAsync E s ctx p msg evs =
     (let w = se_asyncW (sv_heap s p); h = ms_header msg;
          reply = (\<lambda>(s, r). case r of
                     Inl e \<Rightarrow> Server_reportOperationError s w e
                   | Inr resp \<Rightarrow> send s w resp [])
      in if w = None then Some (s, Some ErrSessionNotReady)
      else case ms_err msg of
        Some e \<Rightarrow> Some (Server_reportReadError s w e)
      | None \<Rightarrow>
          (case Server_Accept s (Some p) h ChannelAsynchronous of
             (_, Some e) \<Rightarrow> Some (Server_reportAcceptError s w e)
           | (_, None) \<Rightarrow>
               if hType h = AsyncDeviceClear then Some (reply (Server_BeginDeviceClear s p))
               else if hType h = AsyncStatusQuery
               then (let (s, r) = Server_StatusQuery E s ctx p h;
                         s = Server_count s (\<lambda>c. c\<lparr>ct_SerialPolls := ct_SerialPolls c + 1\<rparr>)
                     in Some (reply (s, r)))
               else if hType h = AsyncLock then map_option reply (Server_Lock s p h (ms_payload msg) evs)
               else if hType h = AsyncLockInfo then Some (reply (s, Server_LockInfo s p h))
               else if hType h = AsyncRemoteLocalControl then Some (reply (Server_RemoteLocal E s ctx p h))
               else if hType h = AsyncMaximumMessageSize
               then (let (s, resp, agreed) = Server_MaximumMessageSize s (Some p) (decodeMaxSize (ms_payload msg))
                     in Some (send s w resp (putUint64 (replicate 8 0) agreed)))
               else if hType h = AsyncInitialize
               then Some (fst (send s w (zero_Header\<lparr>hType := FatalError,
                            hControl := FatalInvalidInitSequence\<rparr>) []), Some ErrInvalidInitSequence)
               else if hType h = FatalError then Some (count_fatal s, Some ErrClientFatal)
               else if hType h = Error then Some (count_nonfatal s, None)
               else Some (send_error (count_nonfatal s) w NonFatalUnrecognizedMessageType
                            (ascii ''unsupported message''))))"

fun runAsync_loop ::
    "('d, 'x) env \<Rightarrow> ('d, 'x) Server \<Rightarrow> nat \<Rightarrow> loop_input list \<Rightarrow>
     (('d, 'x) Server \<times> gerror option) option" where
  "runAsync_loop E s p [] = Some (s, None)"
| "runAsync_loop E s p (i # is) =
     (if li_done i then Some (s, Some ErrCanceled)
      else Option.bind (Server_handleAsync E s (li_ctx i) p (li_msg i) (li_lock i))
        (\<lambda>(s, err). case err of
           Some e \<Rightarrow> Some (s, Some e)
         | None \<Rightarrow> runAsync_loop E s p is))"

section \<open>Connections\<close>

definition io_set_stream :: "('d, 'x) Server \<Rightarrow> nat \<Rightarrow> transport \<Rightarrow> ('d, 'x) Server" where
  "io_set_stream s st t = s\<lparr>sv_io := (sv_io s)\<lparr>io_streams := (io_streams (sv_io s))(st := t)\<rparr>\<rparr>"

definition close_stream :: "('d, 'x) Server \<Rightarrow> nat \<Rightarrow> ('d, 'x) Server" where
  "close_stream s st = s\<lparr>sv_io := fst (io_Close (sv_io s) st)\<rparr>"

definition new_writer :: "('d, 'x) Server \<Rightarrow> nat \<Rightarrow> Channel \<Rightarrow> ('d, 'x) Server \<times> nat option" where
  "new_writer s st ch = (let (io, w) = NewMessageWriter (sv_io s) st ch in (s\<lparr>sv_io := io\<rparr>, Some w))"

text \<open>The parts of the two channel handlers before their loops: the result if the handler returns,
  or the session whose loop it enters.\<close>

definition serveSync_initialize ::
    "('d, 'x) Server \<Rightarrow> nat \<Rightarrow> Header \<Rightarrow> nat option \<Rightarrow> bytes \<Rightarrow> ('d, 'x) Server \<times> (gerror option + nat)" where
  "serveSync_initialize s st h w sub =
     (case Server_Initialize s h sub st of
        (s, Inl e) \<Rightarrow>
          let wire = WireErrorFor e;
              s = fst (send_fatal s w (we_FatalCode wire) (Error_text e));
              s = close_stream s st;
              s = (if errors_Is e ErrMaxClients
                   then Server_count s (\<lambda>c. c\<lparr>ct_SessionsRefused := ct_SessionsRefused c + 1\<rparr>) else s)
          in (count_fatal s, Inl (Some e))
      | (s, Inr (p, resp)) \<Rightarrow>
          (case send s w resp [] of
             (s, Some e) \<Rightarrow> (fst (Server_removeSession s p), Inl (Some e))
           | (s, None) \<Rightarrow>
               let s = Server_count s (\<lambda>c. c\<lparr>ct_SessionsOpened := ct_SessionsOpened c + 1\<rparr>)
               in (upd s p (\<lambda>se. Session_setSyncWriter se w), Inr p)))"

definition serveSync_open ::
    "('d, 'x) Server \<Rightarrow> nat \<Rightarrow> Header \<Rightarrow> (('d, 'x) Server \<times> (gerror option + nat)) option" where
  "serveSync_open s st h =
     (let (s, w) = new_writer s st ChannelSynchronous in
      map_option (\<lambda>(t, sub).
          let s = io_set_stream s st t in
          case sub of
            Inl e \<Rightarrow>
              (close_stream (fst (send_fatal s w FatalPoorlyFormedHeader (ascii ''bad sub-address''))) st,
               Inl (Some e))
          | Inr sub \<Rightarrow> serveSync_initialize s st h w sub)
        (readSubAddress Stream_Read (io_streams (sv_io s) st) h (cf_MaxRxPayload (sv_cfg s))))"

definition Server_serveSyncChannel ::
    "('d, 'x) env \<Rightarrow> ('d, 'x) Server \<Rightarrow> nat \<Rightarrow> Header \<Rightarrow> loop_input list \<Rightarrow>
     (('d, 'x) Server \<times> gerror option) option" where
  "Server_serveSyncChannel E s st h is =
     Option.bind (serveSync_open s st h)
       (\<lambda>(s, r). case r of
          Inl err \<Rightarrow> Some (s, err)
        | Inr p \<Rightarrow>
            map_option (\<lambda>(s, err). (fst (Server_removeSession s p), err)) (Server_runSync E s p is))"

definition serveAsync_open ::
    "('d, 'x) Server \<Rightarrow> nat \<Rightarrow> Header \<Rightarrow> ('d, 'x) Server \<times> (gerror option + nat)" where
  "serveAsync_open s st h =
     (let (s, w) = new_writer s st ChannelAsynchronous in
      case Server_AsyncInitialize s h st of
        (s, Inl e) \<Rightarrow>
          let (s, fw) = new_writer s st ChannelSynchronous;
              wire = WireErrorFor e;
              s = fst (send_fatal s fw (we_FatalCode wire) (Error_text e))
          in (count_fatal (close_stream s st), Inl (Some e))
      | (s, Inr (p, resp)) \<Rightarrow>
          (case send s w resp [] of
             (s, Some e) \<Rightarrow> (s, Inl (Some e))
           | (s, None) \<Rightarrow> (upd s p (\<lambda>se. Session_setAsyncWriter se w), Inr p)))"

definition Server_serveAsyncChannel ::
    "('d, 'x) env \<Rightarrow> ('d, 'x) Server \<Rightarrow> nat \<Rightarrow> Header \<Rightarrow> loop_input list \<Rightarrow>
     (('d, 'x) Server \<times> gerror option) option" where
  "Server_serveAsyncChannel E s st h is =
     (case serveAsync_open s st h of
        (s, Inl err) \<Rightarrow> Some (s, err)
      | (s, Inr p) \<Rightarrow> runAsync_loop E s p is)"

definition Server_Serve ::
    "('d, 'x) env \<Rightarrow> ('d, 'x) Server \<Rightarrow> nat \<Rightarrow> loop_input list \<Rightarrow>
     (('d, 'x) Server \<times> gerror option) option" where
  "Server_Serve E s st is =
     Option.bind (ReadHeader Stream_Read (io_streams (sv_io s) st))
       (\<lambda>(t, r).
          let s = io_set_stream s st t in
          case r of
            Inl e \<Rightarrow> Some (close_stream s st, Some e)
          | Inr h \<Rightarrow>
              if hType h = Initialize then Server_serveSyncChannel E s st h is
              else if hType h = AsyncInitialize then Server_serveAsyncChannel E s st h is
              else
                let (s, w) = new_writer s st ChannelSynchronous;
                    s = fst (send_fatal s w FatalInvalidInitSequence
                               (ascii ''expected Initialize or AsyncInitialize''))
                in Some (count_fatal (close_stream s st), Some ErrInvalidInitSequence))"

end
