(* ===== verification/Responses.thy ===== *)
theory Responses
  imports Data_Path
begin

text \<open>
  What a response attempt puts on the wire, and that it ends: lemmas and properties of
  \<open>SendResponse\<close> and the functions it calls.
\<close>

section \<open>Steps\<close>

lemma tx_op_upd:
  "tx_op s p f = (upd s p (\<lambda>se. se\<lparr>se_tx := fst (f (se_tx (sv_heap s p)))\<rparr>), snd (f (se_tx (sv_heap s p))))"
  by (simp add: tx_op_def case_prod_unfold Let_def)

lemma send_clean:
  assumes "writer_ok (sv_io s) w ch st" "up (sv_io s) st" "MessageType_LegalOn (hType h) ch"
    "hLength h = 0 \<or> hLength h = of_nat (length payload)"
  shows "send s (Some w) h payload = (s\<lparr>sv_io := sent (sv_io s) w h payload\<rparr>, None)"
  using MessageWriter_Write_clean [OF assms] by (simp add: send_def writer_Write_def)

definition error_header :: "ErrorCode \<Rightarrow> Header" where
  "error_header code = zero_Header\<lparr>hType := Error, hControl := code\<rparr>"

lemma legal_either: "ch = ChannelSynchronous \<or> ch = ChannelAsynchronous \<Longrightarrow>
    MessageType_LegalOn Error ch \<and> MessageType_LegalOn FatalError ch"
  by (auto simp: message_lookup)

lemma legal_sync: "MessageType_LegalOn Data ChannelSynchronous"
  "MessageType_LegalOn DataEnd ChannelSynchronous" "MessageType_LegalOn Interrupted ChannelSynchronous"
  "MessageType_LegalOn AsyncInterrupted ChannelAsynchronous"
  by (simp_all add: message_lookup)

lemma send_error_clean:
  assumes "writer_ok (sv_io s) w ch st" "up (sv_io s) st"
    "ch = ChannelSynchronous \<or> ch = ChannelAsynchronous"
  shows "send_error s (Some w) code descr = (s\<lparr>sv_io := sent (sv_io s) w (error_header code) descr\<rparr>, None)"
proof -
  have "MessageWriter_Write (sv_io s) w (error_header code) descr = (sent (sv_io s) w (error_header code) descr, None)"
    using assms legal_either [OF assms(3)]
    by (intro MessageWriter_Write_clean [OF assms(1,2)]) (simp_all add: error_header_def zero_Header_def)
  then show ?thesis
    by (simp add: send_error_def MessageWriter_WriteError_def writer_Write_def error_header_def)
qed

section \<open>The messages of a response\<close>

definition data_header :: "MessageID \<Rightarrow> Header" where
  "data_header i = zero_Header\<lparr>hType := Data, hParameter := i\<rparr>"

definition end_header :: "MessageID \<Rightarrow> Header" where
  "end_header i = zero_Header\<lparr>hType := DataEnd, hParameter := i\<rparr>"

text \<open>\<open>prior\<close> is what the reads before the last one delivered, \<open>bs\<close> what the last one did, and
  \<open>failed\<close> whether the last one reported an error rather than the end.\<close>

definition response_outcome :: "bytes \<Rightarrow> bytes \<Rightarrow> bool \<Rightarrow> bool \<Rightarrow> ResponseOutcome" where
  "response_outcome prior bs failed queued =
     (if failed then (if prior @ bs = [] then ResponseAbsent else ResponseTruncated)
      else if queued then ResponseInterrupted else ResponseComplete)"

definition data_messages :: "MessageID \<Rightarrow> bytes list \<Rightarrow> (Header \<times> bytes) list" where
  "data_messages i pieces = map (\<lambda>b. (data_header i, b)) (filter (\<lambda>b. b \<noteq> []) pieces)"

definition last_messages :: "MessageID \<Rightarrow> bytes \<Rightarrow> bytes \<Rightarrow> bool \<Rightarrow> bool \<Rightarrow> (Header \<times> bytes) list" where
  "last_messages i prior bs failed queued =
     (if failed
      then data_messages i [bs] @
           [(error_header CodeResponseTimeout,
             if prior @ bs = [] then ascii ''no response from instrument''
             else ascii ''response truncated''), (end_header i, [])]
      else if queued then [(zero_Header\<lparr>hType := Interrupted, hParameter := i\<rparr>, [])]
      else [(end_header i, bs)])"

definition async_messages :: "MessageID \<Rightarrow> bool \<Rightarrow> bool \<Rightarrow> (Header \<times> bytes) list" where
  "async_messages i failed queued =
     (if \<not> failed \<and> queued then [(zero_Header\<lparr>hType := AsyncInterrupted, hParameter := i\<rparr>, [])] else [])"

definition wire :: "(Header \<times> bytes) list \<Rightarrow> bytes" where
  "wire ms = concat (map (\<lambda>(h, p). frame h p) ms)"

lemma wire_simps [simp]: "wire [] = []" "wire ((h, p) # ms) = frame h p @ wire ms"
  "wire (xs @ ys) = wire xs @ wire ys"
  by (simp_all add: wire_def)

lemma frame_length [simp]: "frame (h\<lparr>hLength := n\<rparr>) p = frame h p"
  by (simp add: frame_def)

text \<open>While a response is sent: both channels have working writers on different connections.\<close>

definition responding :: "('d, 'x) Server \<Rightarrow> nat \<Rightarrow> Response \<Rightarrow> nat \<Rightarrow> nat \<Rightarrow> bool" where
  "responding s p r st ast \<longleftrightarrow>
     (\<exists>w a. rs_Sync r = Some w \<and> rs_Async r = Some a \<and> w \<noteq> a \<and> st \<noteq> ast \<and>
        writer_ok (sv_io s) w ChannelSynchronous st \<and> up (sv_io s) st \<and>
        writer_ok (sv_io s) a ChannelAsynchronous ast \<and> up (sv_io s) ast)"

definition tx_sending :: "('d, 'x) Server \<Rightarrow> nat \<Rightarrow> bool" where
  "tx_sending s p \<longleftrightarrow> tx_state (se_tx (sv_heap s p)) \<in> {TxResponsePending, TxSendingResponse}"

text \<open>What a response leaves alone: everything else of the server, the other sessions and
  connections, and of its own session all but the transaction, the RMT tracker, the last MessageID
  and the pending flag.\<close>

definition core :: "'x Session \<Rightarrow> 'x Session" where
  "core se = se\<lparr>se_tx := zero_Transaction, se_rmt := zero_RMT, se_lastTx := 0,
     se_status := (se_status se)\<lparr>st_responsePending := False\<rparr>\<rparr>"

definition outside :: "('d, 'x) Server \<Rightarrow> nat \<Rightarrow> nat \<Rightarrow> nat \<Rightarrow>
    ('x Config \<times> (uint16 \<times> nat) list \<times> uint16 \<times> LockManager \<times> 'x ResponsePolicy option \<times> Counters) \<times>
    nat \<times> nat \<times> nat set \<times> (nat \<Rightarrow> 'x Session) \<times> (nat \<Rightarrow> transport)" where
  "outside s p st ast =
     ((sv_cfg s, sv_sessions s, sv_nextID s, sv_locks s, sv_newPolicy s, sv_counters s),
      sv_nheap s, sv_nops s, sv_cancelled s, (sv_heap s)(p := core (sv_heap s p)),
      (io_streams (sv_io s))(st := quiet_transport, ast := quiet_transport))"

definition progress :: "('d, 'x) Server \<Rightarrow> ('d, 'x) Server \<Rightarrow> nat \<Rightarrow> Response \<Rightarrow> nat \<Rightarrow> nat \<Rightarrow>
    (Header \<times> bytes) list \<Rightarrow> (Header \<times> bytes) list \<Rightarrow> bool" where
  "progress s s' p r st ast ms ams \<longleftrightarrow>
     io_out (sv_io s') st = io_out (sv_io s) st @ wire ms \<and>
     io_out (sv_io s') ast = io_out (sv_io s) ast @ wire ams \<and>
     responding s' p r st ast \<and> outside s' p st ast = outside s p st ast"

lemma progress_refl: "responding s p r st ast \<Longrightarrow> progress s s p r st ast [] []"
  by (simp add: progress_def)

lemma progress_trans:
  "progress s s1 p r st ast ms ams \<Longrightarrow> progress s1 s2 p r st ast ms' ams' \<Longrightarrow>
   progress s s2 p r st ast (ms @ ms') (ams @ ams')"
  by (simp add: progress_def)

lemma progress_responding: "progress s s' p r st ast ms ams \<Longrightarrow> responding s' p r st ast"
  by (simp add: progress_def)

lemma progress_upd:
  assumes "responding s p r st ast" "core (f (sv_heap s p)) = core (sv_heap s p)"
  shows "progress s (upd s p f) p r st ast [] []"
  using assms by (simp add: progress_def responding_def outside_def upd_def)

lemma progress_dev: "responding s p r st ast \<Longrightarrow> progress s (s\<lparr>sv_dev := d\<rparr>) p r st ast [] []"
  by (simp add: progress_def responding_def outside_def)

lemma core_updates [simp]:
  "core (se\<lparr>se_tx := t\<rparr>) = core se" "core (se\<lparr>se_rmt := m\<rparr>) = core se"
  "core (se\<lparr>se_lastTx := i\<rparr>) = core se"
  "core (se\<lparr>se_status := Status_SetResponsePending (se_status se) b\<rparr>) = core se"
  "core (Session_setLastTxMessageID se i) = core se"
  by (simp_all add: core_def Status_SetResponsePending_def Session_setLastTxMessageID_def)

lemma progress_sync:
  assumes "responding s p r st ast" "MessageType_LegalOn (hType h) ChannelSynchronous"
    "hLength h = 0 \<or> hLength h = of_nat (length payload)"
  obtains s' where "send s (rs_Sync r) h payload = (s', None)" "sv_heap s' = sv_heap s"
    "sv_dev s' = sv_dev s" "progress s s' p r st ast [(h, payload)] []"
proof -
  obtain w a where w: "rs_Sync r = Some w" "rs_Async r = Some a" "w \<noteq> a" "st \<noteq> ast"
      "writer_ok (sv_io s) w ChannelSynchronous st" "up (sv_io s) st"
      "writer_ok (sv_io s) a ChannelAsynchronous ast" "up (sv_io s) ast"
    using assms(1) by (auto simp: responding_def)
  let ?s = "s\<lparr>sv_io := sent (sv_io s) w h payload\<rparr>"
  have "mw_stream (io_writers (sv_io s) w) = st" using w(5) by (simp add: writer_ok_def)
  then have "progress s ?s p r st ast [(h, payload)] []"
    using w by (auto simp: progress_def responding_def outside_def sent_def Let_def io_out_def
        writer_ok_def up_def fun_eq_iff)
  with that [of ?s] send_clean [OF w(5,6) assms(2,3)] w(1) show ?thesis by simp
qed

lemma progress_async:
  assumes "responding s p r st ast" "MessageType_LegalOn (hType h) ChannelAsynchronous"
    "hLength h = 0 \<or> hLength h = of_nat (length payload)"
  obtains s' where "send s (rs_Async r) h payload = (s', None)" "sv_heap s' = sv_heap s"
    "sv_dev s' = sv_dev s" "progress s s' p r st ast [] [(h, payload)]"
proof -
  obtain w a where w: "rs_Sync r = Some w" "rs_Async r = Some a" "w \<noteq> a" "st \<noteq> ast"
      "writer_ok (sv_io s) w ChannelSynchronous st" "up (sv_io s) st"
      "writer_ok (sv_io s) a ChannelAsynchronous ast" "up (sv_io s) ast"
    using assms(1) by (auto simp: responding_def)
  let ?s = "s\<lparr>sv_io := sent (sv_io s) a h payload\<rparr>"
  have "mw_stream (io_writers (sv_io s) a) = ast" using w(7) by (simp add: writer_ok_def)
  then have "progress s ?s p r st ast [] [(h, payload)]"
    using w by (auto simp: progress_def responding_def outside_def sent_def Let_def io_out_def
        writer_ok_def up_def fun_eq_iff)
  with that [of ?s] send_clean [OF w(7,8) assms(2,3)] w(2) show ?thesis by simp
qed

lemma progress_error:
  assumes "responding s p r st ast"
  obtains s' where "send_error s (rs_Sync r) code descr = (s', None)" "sv_heap s' = sv_heap s"
    "sv_dev s' = sv_dev s" "progress s s' p r st ast [(error_header code, descr)] []"
proof -
  have "MessageType_LegalOn (hType (error_header code)) ChannelSynchronous"
    using legal_either by (simp add: error_header_def)
  moreover have "hLength (error_header code) = 0" by (simp add: error_header_def zero_Header_def)
  ultimately obtain s' where
    "send s (rs_Sync r) (error_header code) descr = (s', None)" "sv_heap s' = sv_heap s"
    "sv_dev s' = sv_dev s" "progress s s' p r st ast [(error_header code, descr)] []"
    using progress_sync [OF assms] by blast
  then show ?thesis
    by (intro that) (simp_all add: send_error_def MessageWriter_WriteError_def send_def error_header_def)
qed

lemma progress_wire:
  "wire ms = wire ms' \<Longrightarrow> progress s s' p r st ast ms ams = progress s s' p r st ast ms' ams"
  by (simp add: progress_def)

section \<open>Ends of a response\<close>

text \<open>The session after a response: idle, with a terminator sent or with its trackers untouched.\<close>

definition terminated :: "('d, 'x) Server \<Rightarrow> nat \<Rightarrow> MessageID \<Rightarrow> bool" where
  "terminated s' p i \<longleftrightarrow> se_tx (sv_heap s' p) = \<lparr>tx_state = TxIdle, tx_id = NoMessageID\<rparr> \<and>
     rmt_expected (se_rmt (sv_heap s' p)) \<and> se_lastTx (sv_heap s' p) = i"

definition abandoned :: "('d, 'x) Server \<Rightarrow> ('d, 'x) Server \<Rightarrow> nat \<Rightarrow> bool" where
  "abandoned s s' p \<longleftrightarrow> se_tx (sv_heap s' p) = \<lparr>tx_state = TxIdle, tx_id = NoMessageID\<rparr> \<and>
     se_rmt (sv_heap s' p) = se_rmt (sv_heap s p) \<and> se_lastTx (sv_heap s' p) = se_lastTx (sv_heap s p)"

lemma terminate_ok:
  assumes "responding s p r st ast" "tx_sending s p"
  obtains s' where "Server_terminate s p r final = (s', None)" "sv_dev s' = sv_dev s"
    "progress s s' p r st ast [(end_header (rs_MessageID r), final)] []"
    "terminated s' p (rs_MessageID r)"
proof -
  let ?h = "zero_Header\<lparr>hType := DataEnd, hParameter := rs_MessageID r, hLength := of_nat (length final)\<rparr>"
  obtain s1 where s1: "send s (rs_Sync r) ?h final = (s1, None)" "sv_heap s1 = sv_heap s"
    "sv_dev s1 = sv_dev s" "progress s s1 p r st ast [(?h, final)] []"
    using progress_sync [OF assms(1), of ?h final] legal_sync by auto
  let ?f = "\<lambda>se. (Session_setLastTxMessageID (se\<lparr>se_rmt := RMT_SentDataEnd (se_rmt se)\<rparr>)
      (rs_MessageID r))\<lparr>se_tx := (se_tx (sv_heap s p))\<lparr>tx_state := TxIdle, tx_id := NoMessageID\<rparr>\<rparr>"
  let ?s = "upd s1 p ?f"
  have "Server_terminate s p r final = (?s, None)"
    using s1 assms(2)
    by (auto simp: Server_terminate_def tx_op_upd tx_moves tx_sending_def Session_setLastTxMessageID_def)
  moreover have "progress s1 ?s p r st ast [] []"
    using progress_responding [OF s1(4)] by (rule progress_upd) simp
  with progress_trans [OF s1(4)] have "progress s ?s p r st ast [(?h, final)] []" by fastforce
  then have "progress s ?s p r st ast [(end_header (rs_MessageID r), final)] []"
    by (subst progress_wire) (simp_all add: end_header_def frame_def)
  moreover have "terminated ?s p (rs_MessageID r)"
    by (simp add: terminated_def Session_setLastTxMessageID_def RMT_SentDataEnd_def)
  ultimately show ?thesis using that s1(3) by simp
qed

lemma begin_response_ok:
  assumes "responding s p r st ast" "tx_sending s p"
  obtains s' where "tx_op s p Transaction_BeginResponse = (s', None)" "sv_dev s' = sv_dev s"
    "progress s s' p r st ast [] []" "tx_sending s' p"
    "se_rmt (sv_heap s' p) = se_rmt (sv_heap s p)" "se_lastTx (sv_heap s' p) = se_lastTx (sv_heap s p)"
proof -
  let ?s = "upd s p (\<lambda>se. se\<lparr>se_tx := (se_tx (sv_heap s p))\<lparr>tx_state := TxSendingResponse\<rparr>\<rparr>)"
  have "tx_op s p Transaction_BeginResponse = (?s, None)"
    using assms(2) by (auto simp: tx_op_upd tx_moves tx_sending_def)
  moreover have "progress s ?s p r st ast [] []" using assms(1) by (rule progress_upd) simp
  ultimately show ?thesis using that by (simp add: tx_sending_def)
qed

lemma absent_ok:
  assumes "responding s p r st ast" "tx_sending s p"
  obtains s' where "Server_completeAbsentResponse s p r = (s', ResponseAbsent, None)" "sv_dev s' = sv_dev s"
    "progress s s' p r st ast [(error_header CodeResponseTimeout, ascii ''no response from instrument''),
       (end_header (rs_MessageID r), [])] []"
    "terminated s' p (rs_MessageID r)"
proof -
  obtain s1 where s1: "send_error s (rs_Sync r) CodeResponseTimeout (ascii ''no response from instrument'') = (s1, None)"
    "sv_heap s1 = sv_heap s" "sv_dev s1 = sv_dev s"
    "progress s s1 p r st ast [(error_header CodeResponseTimeout, ascii ''no response from instrument'')] []"
    using progress_error [OF assms(1)] by blast
  have "tx_sending s1 p" using assms(2) s1(2) by (simp add: tx_sending_def)
  from begin_response_ok [OF progress_responding [OF s1(4)] this] obtain s2 where
    s2: "tx_op s1 p Transaction_BeginResponse = (s2, None)" "sv_dev s2 = sv_dev s1"
      "progress s1 s2 p r st ast [] []" "tx_sending s2 p" by metis
  from terminate_ok [OF progress_responding [OF s2(3)] s2(4)] obtain s3 where
    s3: "Server_terminate s2 p r [] = (s3, None)" "sv_dev s3 = sv_dev s2"
      "progress s2 s3 p r st ast [(end_header (rs_MessageID r), [])] []" "terminated s3 p (rs_MessageID r)"
    by metis
  have "progress s s3 p r st ast [(error_header CodeResponseTimeout, ascii ''no response from instrument''),
       (end_header (rs_MessageID r), [])] []"
    using progress_trans [OF progress_trans [OF s1(4) s2(3)] s3(3)] by simp
  moreover have "Server_completeAbsentResponse s p r = (s3, ResponseAbsent, None)"
    using s1(1) s2(1) s3(1) by (simp add: Server_completeAbsentResponse_def)
  ultimately show ?thesis using that s1(3) s2(2) s3(2,4) by simp
qed

lemma interrupted_ok:
  assumes "responding s p r st ast" "tx_sending s p"
  obtains s' where "Server_sendInterrupted s p r = (s', None)" "sv_dev s' = sv_dev s"
    "progress s s' p r st ast [(zero_Header\<lparr>hType := Interrupted, hParameter := rs_MessageID r\<rparr>, [])]
       [(zero_Header\<lparr>hType := AsyncInterrupted, hParameter := rs_MessageID r\<rparr>, [])]"
    "abandoned s s' p"
proof -
  let ?s1 = "set_pending (upd s p (\<lambda>se. se\<lparr>se_tx := (se_tx (sv_heap s p))\<lparr>tx_state := TxInterrupted\<rparr>\<rparr>)) p False"
  let ?h = "zero_Header\<lparr>hType := AsyncInterrupted, hParameter := rs_MessageID r\<rparr>"
  let ?i = "zero_Header\<lparr>hType := Interrupted, hParameter := rs_MessageID r\<rparr>"
  have len: "hLength ?h = 0" "hLength ?i = 0" by (simp_all add: zero_Header_def)
  have hdr: "?h\<lparr>hType := Interrupted\<rparr> = ?i" by (simp add: zero_Header_def)
  have t: "tx_op s p Transaction_Interrupt =
      (upd s p (\<lambda>se. se\<lparr>se_tx := (se_tx (sv_heap s p))\<lparr>tx_state := TxInterrupted\<rparr>\<rparr>), None)"
    using assms(2) by (auto simp: tx_op_upd tx_moves tx_sending_def)
  have p1: "progress s ?s1 p r st ast [] []"
    unfolding set_pending_def upd_upd using assms(1)
    by (rule progress_upd) (simp add: core_def Status_SetResponsePending_def)
  obtain s2 where s2: "send ?s1 (rs_Async r) ?h [] = (s2, None)" "sv_heap s2 = sv_heap ?s1"
    "sv_dev s2 = sv_dev ?s1" "progress ?s1 s2 p r st ast [] [(?h, [])]"
    using progress_async [OF progress_responding [OF p1], of ?h "[]"] legal_sync len by auto
  obtain s3 where s3: "send s2 (rs_Sync r) ?i [] = (s3, None)" "sv_heap s3 = sv_heap s2"
    "sv_dev s3 = sv_dev s2" "progress s2 s3 p r st ast [(?i, [])] []"
    using progress_sync [OF progress_responding [OF s2(4)], of ?i "[]"] legal_sync len by auto
  let ?s4 = "upd s3 p (\<lambda>se. se\<lparr>se_tx := (se_tx (sv_heap s3 p))\<lparr>tx_state := TxIdle, tx_id := NoMessageID\<rparr>\<rparr>)"
  have p4: "progress s3 ?s4 p r st ast [] []"
    using progress_responding [OF s3(4)] by (rule progress_upd) simp
  have c: "tx_op s3 p Transaction_Complete = (?s4, None)"
    using s2(2) s3(2) by (simp add: tx_op_upd tx_moves set_pending_def)
  have "Server_sendInterrupted s p r = (?s4, None)"
    by (simp only: Server_sendInterrupted_def t s2(1) s3(1) c Let_def prod.case option.case hdr)
  moreover have "progress s ?s4 p r st ast [(?i, [])] [(?h, [])]"
    using progress_trans [OF progress_trans [OF progress_trans [OF p1 s2(4)] s3(4)] p4] by simp
  moreover have "abandoned s ?s4 p" using s2(2) s3(2) by (simp add: abandoned_def set_pending_def)
  ultimately show ?thesis using that s2(3) s3(3) by (simp add: set_pending_def)
qed

section \<open>The loop\<close>

lemma data_messages_Cons:
  "data_messages i (b # pieces) = data_messages i [b] @ data_messages i pieces"
  by (simp add: data_messages_def)

text \<open>What an iteration does with the bytes it read, before it looks at the error and the end.\<close>

lemma chunk_ok:
  assumes "responding s p r st ast" "tx_sending s p"
  obtains s' where
    "SendResponse_chunk s p r bs eom readErr delivered =
     (s', None, if \<not> eom \<or> readErr \<noteq> None then delivered + of_nat (length bs) else delivered)"
    "sv_dev s' = sv_dev s" "tx_sending s' p"
    "progress s s' p r st ast (if \<not> eom \<or> readErr \<noteq> None then data_messages (rs_MessageID r) [bs] else []) []"
    "se_rmt (sv_heap s' p) = se_rmt (sv_heap s p)" "se_lastTx (sv_heap s' p) = se_lastTx (sv_heap s p)"
proof (cases "bs = []")
  case True
  with that [of s] progress_refl [OF assms(1)] assms(2) show ?thesis
    by (simp add: data_messages_def SendResponse_chunk_def)
next
  case False
  let ?h = "zero_Header\<lparr>hType := Data, hParameter := rs_MessageID r, hLength := of_nat (length bs)\<rparr>"
  from begin_response_ok [OF assms] obtain s1 where
    s1: "tx_op s p Transaction_BeginResponse = (s1, None)" "sv_dev s1 = sv_dev s"
    "progress s s1 p r st ast [] []" "tx_sending s1 p"
    "se_rmt (sv_heap s1 p) = se_rmt (sv_heap s p)" "se_lastTx (sv_heap s1 p) = se_lastTx (sv_heap s p)"
    by metis
  show ?thesis
  proof (cases "\<not> eom \<or> readErr \<noteq> None")
    case True
    obtain s2 where s2: "send s1 (rs_Sync r) ?h bs = (s2, None)" "sv_heap s2 = sv_heap s1"
      "sv_dev s2 = sv_dev s1" "progress s1 s2 p r st ast [(?h, bs)] []"
      using progress_sync [OF progress_responding [OF s1(3)], of ?h bs] legal_sync by auto
    have "progress s s2 p r st ast (data_messages (rs_MessageID r) [bs]) []"
      using progress_trans [OF s1(3) s2(4)] False
      by (subst (asm) progress_wire [of _ "data_messages (rs_MessageID r) [bs]"])
        (simp_all add: data_messages_def data_header_def frame_def)
    with that [of s2] s1 s2 True False show ?thesis by (simp add: tx_sending_def SendResponse_chunk_def)
  next
    case eom: False
    with that [of s1] s1 False show ?thesis by (simp add: tx_sending_def SendResponse_chunk_def)
  qed
qed

lemma iteration_more:
  assumes "responding s p r st ast" "tx_sending s p"
    "dev_Read (en_dev E) (sv_dev s) ctx (rs_Scratch r) = (d, b, False, None)"
  obtains s' where "SendResponse_iteration E s ctx p r k = (s', Inl (k + of_nat (length b)))"
    "sv_dev s' = d" "tx_sending s' p" "progress s s' p r st ast (data_messages (rs_MessageID r) [b]) []"
    "se_rmt (sv_heap s' p) = se_rmt (sv_heap s p)" "se_lastTx (sv_heap s' p) = se_lastTx (sv_heap s p)"
proof -
  let ?s = "s\<lparr>sv_dev := d\<rparr>"
  have p0: "progress s ?s p r st ast [] []" using assms(1) by (rule progress_dev)
  have t: "tx_sending ?s p" using assms(2) by (simp add: tx_sending_def)
  obtain s1 where s1: "sv_dev s1 = d" "tx_sending s1 p"
      "progress ?s s1 p r st ast (data_messages (rs_MessageID r) [b]) []"
      "se_rmt (sv_heap s1 p) = se_rmt (sv_heap s p)" "se_lastTx (sv_heap s1 p) = se_lastTx (sv_heap s p)"
      "SendResponse_iteration E s ctx p r k = (s1, Inl (k + of_nat (length b)))"
    by (rule chunk_ok [OF progress_responding [OF p0] t, where bs = b and delivered = k and eom = False and readErr = None])
      (simp add: SendResponse_iteration_def assms(3))
  with that [of s1] progress_trans [OF p0 s1(3)] show ?thesis by simp
qed

lemma of_nat_64_eq_0: "n < 2 ^ 64 \<Longrightarrow> (of_nat n :: uint64) = 0 \<longleftrightarrow> n = 0"
  using unat_of_nat_64 [of n] by auto

definition ended :: "('d, 'x) Server \<Rightarrow> ('d, 'x) Server \<Rightarrow> nat \<Rightarrow> MessageID \<Rightarrow> bool \<Rightarrow> bool" where
  "ended s s' p i interrupted \<longleftrightarrow> (if interrupted then abandoned s s' p else terminated s' p i)"

lemma iteration_failed:
  assumes "responding s p r st ast" "tx_sending s p"
    "dev_Read (en_dev E) (sv_dev s) ctx (rs_Scratch r) = (d, bs, e, Some err)"
    "length (prior @ bs) < 2 ^ 64"
  obtains s' where "SendResponse_iteration E s ctx p r (of_nat (length prior)) =
      (s', Inr (response_outcome prior bs True q, None))"
    "sv_dev s' = d" "terminated s' p (rs_MessageID r)"
    "progress s s' p r st ast (last_messages (rs_MessageID r) prior bs True q) []"
proof -
  let ?s = "s\<lparr>sv_dev := d\<rparr>" and ?i = "rs_MessageID r"
  have p0: "progress s ?s p r st ast [] []" using assms(1) by (rule progress_dev)
  have t: "tx_sending ?s p" using assms(2) by (simp add: tx_sending_def)
  obtain s1 where s1: "SendResponse_chunk ?s p r bs e (Some err) (of_nat (length prior)) =
      (s1, None, of_nat (length (prior @ bs)))" "sv_dev s1 = d" "tx_sending s1 p"
      "progress ?s s1 p r st ast (data_messages ?i [bs]) []"
    by (rule chunk_ok [OF progress_responding [OF p0] t, where bs = bs and
          delivered = "of_nat (length prior)" and eom = e and readErr = "Some err"]) simp
  have z: "(of_nat (length (prior @ bs)) :: uint64) = 0 \<longleftrightarrow> prior @ bs = []"
    by (simp only: of_nat_64_eq_0 [OF assms(4)] length_0_conv)
  note p1 = progress_trans [OF p0 s1(4), simplified]
  show ?thesis
  proof (cases "prior @ bs = []")
    case True
    obtain s2 where s2: "Server_completeAbsentResponse s1 p r = (s2, ResponseAbsent, None)"
      "sv_dev s2 = sv_dev s1"
      "progress s1 s2 p r st ast [(error_header CodeResponseTimeout, ascii ''no response from instrument''),
       (end_header ?i, [])] []" "terminated s2 p ?i"
      using absent_ok [OF progress_responding [OF p1] s1(3)] by metis
    have "SendResponse_iteration E s ctx p r (of_nat (length prior)) = (s2, Inr (ResponseAbsent, None))"
      using assms(3) s1(1) s2(1) True by (simp add: SendResponse_iteration_def)
    with that [of s2] s1(2) s2 True progress_trans [OF p1 s2(3)] show ?thesis
      by (simp add: response_outcome_def last_messages_def)
  next
    case False
    obtain s2 where s2: "send_error s1 (rs_Sync r) CodeResponseTimeout (ascii ''response truncated'') = (s2, None)"
      "sv_heap s2 = sv_heap s1" "sv_dev s2 = sv_dev s1"
      "progress s1 s2 p r st ast [(error_header CodeResponseTimeout, ascii ''response truncated'')] []"
      using progress_error [OF progress_responding [OF p1]] by blast
    have "tx_sending s2 p" using s1(3) s2(2) by (simp add: tx_sending_def)
    from terminate_ok [OF progress_responding [OF s2(4)] this] obtain s3 where
      s3: "Server_terminate s2 p r [] = (s3, None)" "sv_dev s3 = sv_dev s2"
        "progress s2 s3 p r st ast [(end_header ?i, [])] []" "terminated s3 p ?i" by metis
    have "SendResponse_iteration E s ctx p r (of_nat (length prior)) = (s3, Inr (ResponseTruncated, None))"
      using assms(3) s1(1) s2(1) s3(1) False z by (auto simp: SendResponse_iteration_def)
    moreover have "response_outcome prior bs True q = ResponseTruncated"
      "last_messages ?i prior bs True q = data_messages ?i [bs] @
         [(error_header CodeResponseTimeout, ascii ''response truncated''), (end_header ?i, [])]"
      unfolding response_outcome_def last_messages_def using False by (simp_all only: if_True if_False)
    ultimately show ?thesis
      using that [of s3] s1(2) s2(3) s3 progress_trans [OF progress_trans [OF p1 s2(4)] s3(3)] by simp
  qed
qed

lemma iteration_end:
  assumes "responding s p r st ast" "tx_sending s p" "rs_InputQueued r = Some q"
    "dev_Read (en_dev E) (sv_dev s) ctx (rs_Scratch r) = (d, bs, True, None)"
  obtains s' where "SendResponse_iteration E s ctx p r k = (s', Inr (response_outcome prior bs False q, None))"
    "sv_dev s' = d" "ended s s' p (rs_MessageID r) q"
    "progress s s' p r st ast (last_messages (rs_MessageID r) prior bs False q)
       (async_messages (rs_MessageID r) False q)"
proof -
  let ?s = "s\<lparr>sv_dev := d\<rparr>" and ?i = "rs_MessageID r"
  have p0: "progress s ?s p r st ast [] []" using assms(1) by (rule progress_dev)
  have t: "tx_sending ?s p" using assms(2) by (simp add: tx_sending_def)
  obtain s1 where s1: "SendResponse_chunk ?s p r bs True None k = (s1, None, k)" "sv_dev s1 = d"
      "tx_sending s1 p" "progress ?s s1 p r st ast [] []"
      "se_rmt (sv_heap s1 p) = se_rmt (sv_heap s p)" "se_lastTx (sv_heap s1 p) = se_lastTx (sv_heap s p)"
    by (rule chunk_ok [OF progress_responding [OF p0] t, where bs = bs and
          delivered = k and eom = True and readErr = None]) simp
  note p1 = progress_trans [OF p0 s1(4), simplified]
  show ?thesis
  proof (cases q)
    case True
    obtain s2 where s2: "Server_sendInterrupted s1 p r = (s2, None)" "sv_dev s2 = sv_dev s1"
      "progress s1 s2 p r st ast [(zero_Header\<lparr>hType := Interrupted, hParameter := ?i\<rparr>, [])]
       [(zero_Header\<lparr>hType := AsyncInterrupted, hParameter := ?i\<rparr>, [])]" "abandoned s1 s2 p"
      using interrupted_ok [OF progress_responding [OF p1] s1(3)] by metis
    have "abandoned s s2 p" using s2(4) s1(5,6) by (simp add: abandoned_def)
    with that [of s2] assms(3,4) s1(1,2) s2(1,2) True progress_trans [OF p1 s2(3)] show ?thesis
      by (simp add: SendResponse_iteration_def response_outcome_def last_messages_def
          async_messages_def ended_def)
  next
    case False
    from begin_response_ok [OF progress_responding [OF p1] s1(3)] obtain s2 where
      s2: "tx_op s1 p Transaction_BeginResponse = (s2, None)" "sv_dev s2 = sv_dev s1"
        "progress s1 s2 p r st ast [] []" "tx_sending s2 p" by metis
    from terminate_ok [OF progress_responding [OF s2(3)] s2(4)] obtain s3 where
      s3: "Server_terminate s2 p r bs = (s3, None)" "sv_dev s3 = sv_dev s2"
        "progress s2 s3 p r st ast [(end_header ?i, bs)] []" "terminated s3 p ?i" by metis
    from that [of s3] assms(3,4) s1(1,2) s2(1,2) s3 False progress_trans [OF progress_trans [OF p1 s2(3)] s3(3)]
    show ?thesis
      by (simp add: SendResponse_iteration_def response_outcome_def last_messages_def
          async_messages_def ended_def)
  qed
qed

lemma iteration_last:
  assumes "responding s p r st ast" "tx_sending s p" "rs_InputQueued r = Some q"
    "dev_Read (en_dev E) (sv_dev s) ctx (rs_Scratch r) = (d, bs, e, err)" "e \<or> err \<noteq> None"
    "length (prior @ bs) < 2 ^ 64"
  obtains s' where "SendResponse_iteration E s ctx p r (of_nat (length prior)) =
      (s', Inr (response_outcome prior bs (err \<noteq> None) q, None))"
    "sv_dev s' = d" "ended s s' p (rs_MessageID r) (err = None \<and> q)"
    "progress s s' p r st ast (last_messages (rs_MessageID r) prior bs (err \<noteq> None) q)
       (async_messages (rs_MessageID r) (err \<noteq> None) q)"
proof (cases err)
  case None
  with assms(4,5) have "dev_Read (en_dev E) (sv_dev s) ctx (rs_Scratch r) = (d, bs, True, None)" by simp
  from iteration_end [OF assms(1-3) this] obtain s' where
    "SendResponse_iteration E s ctx p r (of_nat (length prior)) = (s', Inr (response_outcome prior bs False q, None))"
    "sv_dev s' = d" "ended s s' p (rs_MessageID r) q"
    "progress s s' p r st ast (last_messages (rs_MessageID r) prior bs False q)
       (async_messages (rs_MessageID r) False q)" by metis
  with that [of s'] None show ?thesis by simp
next
  case (Some x)
  with assms(4) have "dev_Read (en_dev E) (sv_dev s) ctx (rs_Scratch r) = (d, bs, e, Some x)" by simp
  from iteration_failed [OF assms(1,2) this assms(6), where q = q] obtain s' where
    "SendResponse_iteration E s ctx p r (of_nat (length prior)) = (s', Inr (response_outcome prior bs True q, None))"
    "sv_dev s' = d" "terminated s' p (rs_MessageID r)"
    "progress s s' p r st ast (last_messages (rs_MessageID r) prior bs True q) []" by metis
  with that [of s'] Some show ?thesis by (simp add: ended_def async_messages_def)
qed

lemma loop_ok:
  assumes "response_reads (dev_Read (en_dev E)) ctx (rs_Scratch r) d0 pieces res"
    "res = (d, bs, e, err)" "responding s p r st ast" "tx_sending s p" "sv_dev s = d0"
    "rs_InputQueued r = Some q" "length (prior @ concat pieces @ bs) < 2 ^ 64"
  shows "\<exists>s'. SendResponse_loop E s ctx p r (of_nat (length prior)) =
      Some (s', response_outcome (prior @ concat pieces) bs (err \<noteq> None) q, None) \<and>
    sv_dev s' = d \<and> ended s s' p (rs_MessageID r) (err = None \<and> q) \<and>
    progress s s' p r st ast
      (data_messages (rs_MessageID r) pieces @
       last_messages (rs_MessageID r) (prior @ concat pieces) bs (err \<noteq> None) q)
      (async_messages (rs_MessageID r) (err \<noteq> None) q)"
  using assms
proof (induction arbitrary: s prior rule: response_reads.induct)
  case (last_read d0 d' bs' e' err')
  then have "dev_Read (en_dev E) (sv_dev s) ctx (rs_Scratch r) = (d, bs, e, err)" "e \<or> err \<noteq> None"
    "length (prior @ bs) < 2 ^ 64" by auto
  from iteration_last [OF last_read.prems(2,3,5) this] obtain s' where
    "SendResponse_iteration E s ctx p r (of_nat (length prior)) =
      (s', Inr (response_outcome prior bs (err \<noteq> None) q, None))"
    "sv_dev s' = d" "ended s s' p (rs_MessageID r) (err = None \<and> q)"
    "progress s s' p r st ast (last_messages (rs_MessageID r) prior bs (err \<noteq> None) q)
       (async_messages (rs_MessageID r) (err \<noteq> None) q)" by metis
  then show ?case by (subst SendResponse_loop.simps) (simp add: data_messages_def)
next
  case (more_read d0 d1 b pieces r')
  let ?i = "rs_MessageID r"
  have rd: "dev_Read (en_dev E) (sv_dev s) ctx (rs_Scratch r) = (d1, b, False, None)"
    using more_read.hyps(1) more_read.prems(4) by simp
  obtain s1 where s1: "SendResponse_iteration E s ctx p r (of_nat (length prior)) =
        (s1, Inl (of_nat (length prior) + of_nat (length b)))"
    "sv_dev s1 = d1" "tx_sending s1 p" "progress s s1 p r st ast (data_messages ?i [b]) []"
    "se_rmt (sv_heap s1 p) = se_rmt (sv_heap s p)" "se_lastTx (sv_heap s1 p) = se_lastTx (sv_heap s p)"
    using iteration_more [OF more_read.prems(2,3) rd] by metis
  have len: "length ((prior @ b) @ concat pieces @ bs) < 2 ^ 64" using more_read.prems(6) by simp
  from more_read.IH [OF more_read.prems(1) progress_responding [OF s1(4)] s1(3,2) more_read.prems(5) len]
  obtain s' where s': "SendResponse_loop E s1 ctx p r (of_nat (length (prior @ b))) =
      Some (s', response_outcome ((prior @ b) @ concat pieces) bs (err \<noteq> None) q, None)"
    "sv_dev s' = d" "ended s1 s' p ?i (err = None \<and> q)"
    "progress s1 s' p r st ast
      (data_messages ?i pieces @ last_messages ?i ((prior @ b) @ concat pieces) bs (err \<noteq> None) q)
      (async_messages ?i (err \<noteq> None) q)" by blast
  have "ended s s' p ?i (err = None \<and> q)"
    using s'(3) s1(5,6) by (auto simp: ended_def abandoned_def split: if_splits)
  moreover have "SendResponse_loop E s ctx p r (of_nat (length prior)) =
      Some (s', response_outcome (prior @ concat (b # pieces)) bs (err \<noteq> None) q, None)"
    using s1(1) s'(1) by (subst SendResponse_loop.simps) simp
  moreover note progress_trans [OF s1(4) s'(4)]
  ultimately show ?case using s'(2) data_messages_Cons [of ?i b pieces] by simp
qed

section \<open>The call\<close>

lemma Response_validate_queued:
  "Response_validate r se = None \<Longrightarrow> 0 < rs_Scratch r \<and> (\<exists>q. rs_InputQueued r = Some q)"
  by (auto simp: Response_validate_def split: if_splits)

lemma SendResponse_ok:
  assumes "Response_validate r (sv_heap s p) = None" "responding s p r st ast"
    "tx_state (se_tx (sv_heap s p)) = TxInputComplete" "rs_InputQueued r = Some q"
    "response_reads (dev_Read (en_dev E)) ctx (rs_Scratch r) (sv_dev s) pieces (d, bs, e, err)"
    "length (concat pieces @ bs) < 2 ^ 64"
  shows "\<exists>s'. Server_SendResponse E s ctx p r =
        Some (s', response_outcome (concat pieces) bs (err \<noteq> None) q, None) \<and>
      io_out (sv_io s') st = io_out (sv_io s) st @
        wire (data_messages (rs_MessageID r) pieces @
              last_messages (rs_MessageID r) (concat pieces) bs (err \<noteq> None) q) \<and>
      io_out (sv_io s') ast = io_out (sv_io s) ast @
        wire (async_messages (rs_MessageID r) (err \<noteq> None) q) \<and>
      ended s s' p (rs_MessageID r) (err = None \<and> q) \<and>
      \<not> st_responsePending (se_status (sv_heap s' p)) \<and> sv_dev s' = d \<and>
      outside s' p st ast = outside s p st ast \<and> responding s' p r st ast"
proof -
  let ?t = "upd s p (\<lambda>se. se\<lparr>se_tx := (se_tx (sv_heap s p))\<lparr>tx_state := TxResponsePending\<rparr>\<rparr>)"
  let ?s = "set_pending ?t p True"
  have tx: "tx_op s p Transaction_ExpectResponse = (?t, None)"
    using assms(3) by (simp add: tx_op_upd tx_moves)
  have p1: "progress s ?s p r st ast [] []"
    unfolding set_pending_def upd_upd using assms(2)
    by (rule progress_upd) (simp add: core_def Status_SetResponsePending_def)
  have t: "tx_sending ?s p" by (simp add: tx_sending_def set_pending_def)
  have d: "sv_dev ?s = sv_dev s" by (simp add: set_pending_def)
  have len: "length ([] @ concat pieces @ bs) < 2 ^ 64" using assms(6) by simp
  from loop_ok [OF assms(5) refl progress_responding [OF p1] t d assms(4) len] obtain s1 where
    s1: "SendResponse_loop E ?s ctx p r 0 = Some (s1, response_outcome (concat pieces) bs (err \<noteq> None) q, None)"
    "sv_dev s1 = d" "ended ?s s1 p (rs_MessageID r) (err = None \<and> q)"
    "progress ?s s1 p r st ast
      (data_messages (rs_MessageID r) pieces @ last_messages (rs_MessageID r) (concat pieces) bs (err \<noteq> None) q)
      (async_messages (rs_MessageID r) (err \<noteq> None) q)"
    by auto
  have "progress s1 (set_pending s1 p False) p r st ast [] []"
    unfolding set_pending_def using progress_responding [OF s1(4)] by (rule progress_upd) simp
  note p2 = progress_trans [OF progress_trans [OF p1 s1(4)] this, simplified]
  have "Server_SendResponse E s ctx p r =
      Some (set_pending s1 p False, response_outcome (concat pieces) bs (err \<noteq> None) q, None)"
    using assms(1) tx s1(1) by (simp add: Server_SendResponse_def)
  moreover have "ended s (set_pending s1 p False) p (rs_MessageID r) (err = None \<and> q)"
    using s1(3) by (auto simp: ended_def abandoned_def terminated_def set_pending_def split: if_splits)
  moreover have "\<not> st_responsePending (se_status (sv_heap (set_pending s1 p False) p))"
    by (simp add: set_pending_def Status_SetResponsePending_def)
  ultimately show ?thesis
    using p2 s1(2) by (intro exI [of _ "set_pending s1 p False"]) (simp add: progress_def set_pending_def responding_def)
qed

text \<open>
  C4. A response attempt on working connections returns without an error for any instrument whose
  reads end. What it puts on the synchronous channel is one Data message for each non-empty read
  before the last, with the MessageID of the query, and then: on the end of the response one
  DataEND with the last bytes; on a failed read the bytes it gave, an Error message with the
  response-timeout code and an empty DataEND; and when new input is queued at the end, Interrupted
  instead, with AsyncInterrupted on the asynchronous channel. The outcome tells these apart. The
  session is idle again with no response pending; except after an interruption the RMT tracker
  expects a delivery report and the last transmitted MessageID is the response's. Nothing else
  of the server, its sessions and its connections changes.
\<close>
theorem send_response_wire:
  assumes "Response_validate r (sv_heap s p) = None" "responding s p r st ast"
    "tx_state (se_tx (sv_heap s p)) = TxInputComplete" "rs_InputQueued r = Some q"
    "response_reads (dev_Read (en_dev E)) ctx (rs_Scratch r) (sv_dev s) pieces (d, bs, e, err)"
    "length (concat pieces @ bs) < 2 ^ 64"
  shows "\<exists>s'. Server_SendResponse E s ctx p r =
        Some (s', response_outcome (concat pieces) bs (err \<noteq> None) q, None) \<and>
      io_out (sv_io s') st = io_out (sv_io s) st @
        wire (data_messages (rs_MessageID r) pieces @
              last_messages (rs_MessageID r) (concat pieces) bs (err \<noteq> None) q) \<and>
      io_out (sv_io s') ast = io_out (sv_io s) ast @
        wire (async_messages (rs_MessageID r) (err \<noteq> None) q) \<and>
      ended s s' p (rs_MessageID r) (err = None \<and> q) \<and>
      \<not> st_responsePending (se_status (sv_heap s' p)) \<and> sv_dev s' = d \<and>
      outside s' p st ast = outside s p st ast"
  using SendResponse_ok [OF assms] by blast

lemma demo_responding:
  "rs_Sync r = Some 0 \<Longrightarrow> rs_Async r = Some 1 \<Longrightarrow> responding (upd (ready_server rs) 0 f) 0 r 1 2"
  using ready_server_io [of "testdevice_New rs"] by (simp add: responding_def)

theorem send_response_wire_witness:
  "\<exists>s'. Server_SendResponse \<lparr>en_dev = testdevice_ops, en_pol = no_policy\<rparr>
        (upd (ready_server [[49, 46, 53]]) 0 (\<lambda>se. se\<lparr>se_tx := \<lparr>tx_state = TxInputComplete, tx_id = 4\<rparr>\<rparr>))
        False 0 \<lparr>rs_Sync = Some 0, rs_Async = Some 1, rs_MessageID = 4, rs_Scratch = 2, rs_InputQueued = Some False\<rparr> =
      Some (s', ResponseComplete, None) \<and>
    io_out (sv_io s') 1 = frame (data_header 4) [49, 46] @ frame (end_header 4) [53]"
proof -
  let ?r = "\<lparr>rs_Sync = Some 0, rs_Async = Some 1, rs_MessageID = 4, rs_Scratch = 2, rs_InputQueued = Some False\<rparr>"
  let ?s = "upd (ready_server [[49, 46, 53]]) 0 (\<lambda>se. se\<lparr>se_tx := \<lparr>tx_state = TxInputComplete, tx_id = 4\<rparr>\<rparr>)"
  let ?E = "\<lparr>en_dev = testdevice_ops, en_pol = no_policy\<rparr>"
  note td = testdevice_ops_def testdevice_Read_def testdevice_fail_def testdevice_New_def testdevice_record_def
  have v: "Response_validate ?r (sv_heap ?s 0) = None"
    by (simp add: Response_validate_def ready_session_def newSession_def zero_Config_def)
  obtain d1 where d1: "testdevice_Read (testdevice_New [[49, 46, 53]]) False 2 = (d1, [49, 46], False, None)"
    "td_inFlight d1" "td_pending d1 = [53]" "td_Errors d1 = (\<lambda>_. None)" by (simp add: td Let_def)
  then obtain d where "testdevice_Read d1 False 2 = (d, [53], True, None)"
    by (simp add: testdevice_Read_def testdevice_fail_def Let_def)
  then have rd: "response_reads (dev_Read (en_dev ?E)) False (rs_Scratch ?r) (sv_dev ?s) [[49, 46]] (d, [53], True, None)"
    using d1(1) by (intro response_reads.more_read [of _ _ _ _ d1] response_reads.last_read) (simp_all add: testdevice_ops_def)
  have resp: "responding ?s 0 ?r 1 2" by (rule demo_responding) simp_all
  have tx: "tx_state (se_tx (sv_heap ?s 0)) = TxInputComplete" by simp
  have q: "rs_InputQueued ?r = Some False" by simp
  have len: "length (concat [[49, 46]] @ [53 :: byte]) < 2 ^ 64" by simp
  from send_response_wire [OF v resp tx q rd len] show ?thesis
    by (auto simp: response_outcome_def last_messages_def data_messages_def ready_server_io ready_server_io [simplified])
qed

section \<open>Termination\<close>

lemma iteration_again:
  assumes "SendResponse_iteration E s ctx p r k = (s', Inl k')"
  obtains d bs where "dev_Read (en_dev E) (sv_dev s) ctx (rs_Scratch r) = (d, bs, False, None)" "sv_dev s' = d"
proof -
  obtain d bs e err where rd: "dev_Read (en_dev E) (sv_dev s) ctx (rs_Scratch r) = (d, bs, e, err)"
    by (cases "dev_Read (en_dev E) (sv_dev s) ctx (rs_Scratch r)") auto
  obtain s1 ret k1 where c: "SendResponse_chunk (s\<lparr>sv_dev := d\<rparr>) p r bs e err k = (s1, ret, k1)"
    by (cases "SendResponse_chunk (s\<lparr>sv_dev := d\<rparr>) p r bs e err k")
  have d: "sv_dev s1 = d"
    using c by (auto simp: SendResponse_chunk_def tx_op_upd send_def Let_def split: if_splits option.splits prod.splits)
  have "err = None \<and> \<not> e \<and> s' = s1"
    using assms rd c by (auto simp: SendResponse_iteration_def Let_def split: if_splits option.splits prod.splits)
  with that [of d bs] rd d show ?thesis by simp
qed

context responding_device
begin

lemma loop_returns:
  assumes "dev_Read (en_dev E) = rd" "0 < rs_Scratch r"
  shows "SendResponse_loop E s ctx p r k \<noteq> None"
proof (induction "left (sv_dev s)" arbitrary: s k rule: less_induct)
  case less
  obtain s' x where i: "SendResponse_iteration E s ctx p r k = (s', x)"
    by (cases "SendResponse_iteration E s ctx p r k")
  show ?case
  proof (cases x)
    case (Inl k')
    from iteration_again [OF i [unfolded Inl]] obtain d bs where
      "rd (sv_dev s) ctx (rs_Scratch r) = (d, bs, False, None)" "sv_dev s' = d"
      unfolding assms(1) .
    then have "left (sv_dev s') < left (sv_dev s)" using rd_progress assms(2) by blast
    from less [OF this] i Inl show ?thesis by (subst SendResponse_loop.simps) simp
  next
    case (Inr res)
    with i show ?thesis by (subst SendResponse_loop.simps) (simp split: prod.splits)
  qed
qed

lemma response_returns:
  assumes "dev_Read (en_dev E) = rd"
  shows "\<exists>s' oc err. Server_SendResponse E s ctx p r = Some (s', oc, err)"
proof (cases "Response_validate r (sv_heap s p)")
  case None
  obtain t e where t: "tx_op s p Transaction_ExpectResponse = (t, e)" by (cases "tx_op s p Transaction_ExpectResponse")
  have "SendResponse_loop E (set_pending t p True) ctx p r 0 \<noteq> None"
    using loop_returns [OF assms] Response_validate_queued [OF None] by blast
  then obtain y where "SendResponse_loop E (set_pending t p True) ctx p r 0 = Some y" by blast
  with None t show ?thesis by (cases e; cases y) (simp_all add: Server_SendResponse_def)
qed (simp add: Server_SendResponse_def)

end

text \<open>
  C19. A response attempt always returns, whatever the state of the server, the session and the
  connections, valid arguments or not: with the scripted instrument every call of
  \<open>SendResponse\<close> has a result.
\<close>
theorem send_response_returns:
  "\<exists>s' oc err. Server_SendResponse \<lparr>en_dev = testdevice_ops, en_pol = P\<rparr> s ctx p r = Some (s', oc, err)"
  by (rule td.response_returns) (simp add: testdevice_ops_def)

lemma loop_stuck:
  assumes "\<And>d n. dev_Read (en_dev E) d ctx n = (d, [], False, None)"
  shows "SendResponse_loop E s ctx p r k = None"
proof -
  have "\<not> (\<forall>d n. dev_Read (en_dev E) d ctx n = (d, [], False, None))"
    if "SendResponse_loop E s ctx p r k = Some y" for y
    by (rule SendResponse_loop.raw_induct
          [of "\<lambda>E s ctx p r k y. \<not> (\<forall>d n. dev_Read (en_dev E) d ctx n = (d, [], False, None))", OF _ that])
      (force simp: SendResponse_iteration_def SendResponse_chunk_def)
  then show ?thesis using assms by (cases "SendResponse_loop E s ctx p r k") blast+
qed

text \<open>
  C40. An instrument that goes on returning no bytes, no end and no error keeps a response attempt
  in its loop for ever: the call does not return, whatever the deadline of the context, since the
  loop itself never looks at the context.
\<close>
theorem send_response_silent_device:
  assumes "\<And>d n. dev_Read (en_dev E) d ctx n = (d, [], False, None)"
    "Response_validate r (sv_heap s p) = None" "tx_state (se_tx (sv_heap s p)) = TxInputComplete"
  shows "Server_SendResponse E s ctx p r = None"
  using assms(2,3) loop_stuck [OF assms(1)] by (simp add: Server_SendResponse_def tx_op_upd tx_moves)

theorem send_response_silent_device_witness:
  "Server_SendResponse \<lparr>en_dev = testdevice_ops\<lparr>dev_Read := \<lambda>d ctx n. (d, [], False, None)\<rparr>, en_pol = no_policy\<rparr>
     (upd (ready_server []) 0 (\<lambda>se. se\<lparr>se_tx := \<lparr>tx_state = TxInputComplete, tx_id = 4\<rparr>\<rparr>)) True 0
     \<lparr>rs_Sync = Some 0, rs_Async = Some 1, rs_MessageID = 4, rs_Scratch = 2, rs_InputQueued = Some False\<rparr> = None"
  by (rule send_response_silent_device)
    (simp_all add: Response_validate_def ready_session_def newSession_def zero_Config_def)

end
