(* ===== verification/Handshake.thy ===== *)
theory Handshake
  imports Dispatch
begin

text \<open>
  Properties of the acceptance check, of the two initialization transactions and of Device
  Clear (theory \<open>Dispatch\<close>).
\<close>

section \<open>Acceptance\<close>

text \<open>The messages a client may send on a channel once it is open.\<close>

definition client_messages :: "Channel \<Rightarrow> MessageType set" where
  "client_messages ch =
     (case ch of
        ChannelSynchronous \<Rightarrow>
          {Initialize, FatalError, Error, Data, DataEnd, DeviceClearComplete, Trigger} \<union> {t. 128 \<le> t}
      | ChannelAsynchronous \<Rightarrow>
          {AsyncInitialize, FatalError, Error, AsyncLock, AsyncLockInfo, AsyncMaximumMessageSize,
           AsyncDeviceClear, AsyncStatusQuery, AsyncRemoteLocalControl} \<union> {t. 128 \<le> t}
      | _ \<Rightarrow> {})"

lemma classified:
  "ClassOf t \<noteq> ClassUndefined \<longleftrightarrow>
     t \<in> {AsyncLock, AsyncLockInfo, AsyncMaximumMessageSize, AsyncDeviceClear, AsyncStatusQuery,
          AsyncRemoteLocalControl, Data, DataEnd, Trigger, Initialize, AsyncInitialize,
          DeviceClearComplete, Error, FatalError} \<or> MessageType_VendorSpecific t"
  by (simp add: ClassOf_def)

lemma legal_vendor:
  "MessageType_VendorSpecific t \<Longrightarrow>
   MessageType_LegalOn t ch \<longleftrightarrow> ch = ChannelSynchronous \<or> ch = ChannelAsynchronous"
  by (auto simp: MessageType_LegalOn_def MessageType_Channel_def)

lemma client_messages_legal:
  "t \<in> client_messages ch \<longleftrightarrow> MessageType_LegalOn t ch \<and> ClassOf t \<noteq> ClassUndefined"
proof (cases "MessageType_VendorSpecific t")
  case True
  then show ?thesis
    unfolding classified using legal_vendor [OF True, of ch]
    by (cases ch) (auto simp: client_messages_def MessageType_VendorSpecific_def)
next
  case False
  then show ?thesis
    unfolding classified
    by (cases ch) (auto simp: client_messages_def message_lookup)
qed

lemma requireReady_None:
  "Session_requireReady se = None \<longleftrightarrow> se_state se = StateReady \<or> se_state se = StateClearing"
  by (cases "se_state se") (simp_all add: Session_requireReady_def)

lemma CheckLength_None: "CheckLength n limit = None \<longleftrightarrow> limit = 0 \<or> n \<le> limit"
  by (auto simp: CheckLength_def not_less)

definition rx_limit :: "('d, 'x) Server \<Rightarrow> nat option \<Rightarrow> uint64" where
  "rx_limit s sess = (case sess of None \<Rightarrow> cf_MaxRxPayload (sv_cfg s) | Some p \<Rightarrow> se_maxRx (sv_heap s p))"

lemma Accept_None_iff:
  "snd (Server_Accept s sess h ch) = None \<longleftrightarrow>
      hType h \<in> client_messages ch \<and>
      (rx_limit s sess = 0 \<or> hLength h \<le> rx_limit s sess) \<and>
      (case sess of
         None \<Rightarrow> True
       | Some p \<Rightarrow> MessageType_MinVersion (hType h) \<le> se_version (sv_heap s p) \<and>
           (ClassOf (hType h) = ClassLifecycle \<or>
            se_state (sv_heap s p) = StateReady \<or> se_state (sv_heap s p) = StateClearing))"
proof -
  have legal: "\<not> MessageType_Reserved (hType h) \<and>
      (MessageType_Defined (hType h) \<or> MessageType_VendorSpecific (hType h))"
    if "MessageType_LegalOn (hType h) ch"
    using MessageType_LegalOn_not_reserved [OF that] MessageType_partition [of "hType h"] by blast
  show ?thesis
    unfolding client_messages_legal requireReady_None [symmetric] using legal
    by (auto simp: Server_Accept_def Let_def Version_Less_less CheckLength_None [symmetric] rx_limit_def
        split: option.splits)
qed

lemma Accept_class:
  "snd (Server_Accept s sess h ch) = None \<Longrightarrow> fst (Server_Accept s sess h ch) = ClassOf (hType h)"
  by (auto simp: Server_Accept_def Let_def split: option.splits if_splits)

text \<open>
  C15. The acceptance check lets through exactly what the session can act on: a message a client
  may send on that channel, of the negotiated version, no longer than the session's receive
  limit (the server's before there is a session; zero is no limit), and, unless it belongs to the life cycle of
  the session, only once both channels are established and until the session is closed. What is
  accepted comes with its dispatch class. A refusal ends the session only for a missing channel,
  a closed session or a version mismatch; any other refusal is a non-fatal Error message.
\<close>
theorem accept_exactly:
  "(snd (Server_Accept s sess h ch) = None \<longleftrightarrow>
      hType h \<in> client_messages ch \<and>
      (rx_limit s sess = 0 \<or> hLength h \<le> rx_limit s sess) \<and>
      (case sess of
         None \<Rightarrow> True
       | Some p \<Rightarrow> MessageType_MinVersion (hType h) \<le> se_version (sv_heap s p) \<and>
           (ClassOf (hType h) = ClassLifecycle \<or>
            se_state (sv_heap s p) = StateReady \<or> se_state (sv_heap s p) = StateClearing))) \<and>
   (case snd (Server_Accept s sess h ch) of
      None \<Rightarrow> fst (Server_Accept s sess h ch) = ClassOf (hType h)
    | Some e \<Rightarrow> we_Fatal (WireErrorFor e) \<longleftrightarrow>
        e = ErrProtocolVersion \<or> e = ErrSessionNotReady \<or> e = ErrInvalidSession)"
proof -
  have "case snd (Server_Accept s sess h ch) of
      None \<Rightarrow> fst (Server_Accept s sess h ch) = ClassOf (hType h)
    | Some e \<Rightarrow> we_Fatal (WireErrorFor e) \<longleftrightarrow>
        e = ErrProtocolVersion \<or> e = ErrSessionNotReady \<or> e = ErrInvalidSession"
    by (auto simp: Server_Accept_def Let_def WireErrorFor_fatal_iff CheckLength_def Session_requireReady_def
        split: option.splits State.splits if_splits)
  then show ?thesis unfolding Accept_None_iff by blast
qed

section \<open>Initialization\<close>

lemma Initialize_cases:
  assumes "registry_inv s"
  obtains (refused) e where "Server_Initialize s h sub st = (s, Inl e)"
      "e \<in> {ErrInvalidInitSequence, ErrInvalidSubAddress, ErrProtocolVersion}"
  | (full) s' where "Server_Initialize s h sub st = (s', Inl ErrMaxClients)"
      "registry_inv s'" "sv_sessions s' = sv_sessions s" "sv_heap s' = sv_heap s" "sv_locks s' = sv_locks s"
  | (opened) s' i where
      "Server_Initialize s h sub st = (s', Inr (sv_nheap s, zero_Header\<lparr>hType := InitializeResponse,
         hParameter := EncodeInitializeResponseParameter
           (min (fst (DecodeInitializeParameter (hParameter h))) (cf_MaxVersion (sv_cfg s))) i\<rparr>))"
      "registry_inv s'" "i \<noteq> 0" "sv_sessions s' = sv_sessions s @ [(i, sv_nheap s)]"
      "map_of (sv_sessions s) i = None" "sv_cfg s' = sv_cfg s"
      "sv_heap s' = (sv_heap s)(sv_nheap s :=
         (newSession i (min (fst (DecodeInitializeParameter (hParameter h))) (cf_MaxVersion (sv_cfg s))) st
            (sv_cfg s))\<lparr>se_policy := sv_newPolicy s\<rparr>)"
      "hType h = Initialize" "Config_acceptsSubAddress (sv_cfg s) sub"
proof -
  let ?v = "min (fst (DecodeInitializeParameter (hParameter h))) (cf_MaxVersion (sv_cfg s))"
  have legal: "MessageType_LegalOn Initialize ChannelSynchronous" by (simp add: message_lookup)
  have ov: "Config_preferOverlapBit (sv_cfg s) = 0"
    using assms by (simp add: preferOverlapBit_sync registry_inv_def valid_Config_def)
  have hdr: "zero_Header\<lparr>hType := InitializeResponse, hControl := 0, hParameter := x\<rparr> =
      zero_Header\<lparr>hType := InitializeResponse, hParameter := x\<rparr>" for x
    by (simp add: zero_Header_def)
  show ?thesis
  proof (cases "hType h = Initialize \<and> Config_acceptsSubAddress (sv_cfg s) sub \<and>
      \<not> Version_Less (fst (DecodeInitializeParameter (hParameter h))) Version10")
    case False
    with legal show ?thesis
      by (cases "hType h = Initialize"; cases "Config_acceptsSubAddress (sv_cfg s) sub")
        (auto simp: Server_Initialize_def intro: refused)
  next
    case True
    then have eq: "Server_Initialize s h sub st =
      (case Server_allocateSession s ?v st of
            (s, Inl err) \<Rightarrow> (s, Inl err)
          | (s, Inr p) \<Rightarrow>
              (s, Inr (p, zero_Header\<lparr>hType := InitializeResponse,
                 hControl := Config_preferOverlapBit (sv_cfg s),
                 hParameter := EncodeInitializeResponseParameter ?v (se_id (sv_heap s p))\<rparr>)))"
      using legal by (simp add: Server_Initialize_def Negotiate_min Let_def split: prod.splits sum.splits)
    from assms show ?thesis
    proof (cases rule: allocateSession_cases [of s ?v st])
      case (allocated n i)
      obtain t where t: "Server_allocateSession s ?v st = (t, Inr (sv_nheap s))" "sv_cfg t = sv_cfg s"
          "sv_sessions t = sv_sessions s @ [(i, sv_nheap s)]"
          "sv_heap t = (sv_heap s)(sv_nheap s := (newSession i ?v st (sv_cfg s))\<lparr>se_policy := sv_newPolicy s\<rparr>)"
        using allocated(5) by simp
      with True eq ov hdr registry_inv_allocate [OF assms t(1)] allocated(2,3) show ?thesis
        by (intro opened [of t i]) (simp_all add: newSession_def)
    next
      case (exhausted n)
      with eq registry_inv_allocate [OF assms exhausted(3)] show ?thesis by (intro that(2) [of "s\<lparr>sv_nextID := n\<rparr>"]) simp_all
    next
      case full
      with eq assms show ?thesis by (intro that(2) [of s]) simp_all
    qed
  qed
qed

lemma initialize_errors_fatal:
  "e \<in> {ErrInvalidInitSequence, ErrInvalidSubAddress, ErrProtocolVersion, ErrMaxClients, ErrInvalidSession} \<Longrightarrow>
   we_Fatal (WireErrorFor e)"
  by (auto simp: WireErrorFor_fatal_iff)

text \<open>
  C17. The Initialize transaction either opens a session or leaves the table as it was. A refusal
  is a fatal error. An accepted Initialize names an accepted sub-address; the session is new,
  waits for its asynchronous channel, and has the lower of the two protocol versions; a client
  decodes from the response exactly that version and the session's identifier, and the response
  prefers synchronized mode. Existing sessions are untouched and the table stays in order.
\<close>
theorem initialize_opens_session:
  assumes "registry_inv s" "Server_Initialize s h sub st = (s', r)"
  shows "registry_inv s' \<and>
    (case r of
       Inl e \<Rightarrow> we_Fatal (WireErrorFor e) \<and> sv_sessions s' = sv_sessions s \<and> sv_heap s' = sv_heap s
     | Inr (p, resp) \<Rightarrow>
         (let v = min (fst (DecodeInitializeParameter (hParameter h))) (cf_MaxVersion (sv_cfg s));
              i = snd (DecodeInitializeResponseParameter (hParameter resp)) in
          hType resp = InitializeResponse \<and> hControl resp = 0 \<and>
          fst (DecodeInitializeResponseParameter (hParameter resp)) = v \<and>
          Config_acceptsSubAddress (sv_cfg s) sub \<and>
          i \<noteq> 0 \<and> Server_Session s i = None \<and> Server_Session s' i = Some p \<and>
          sv_heap s' p = (newSession i v st (sv_cfg s))\<lparr>se_policy := sv_newPolicy s\<rparr> \<and>
          (\<forall>j. j \<noteq> i \<longrightarrow> Server_Session s' j = Server_Session s j) \<and>
          (\<forall>q. q \<noteq> p \<longrightarrow> sv_heap s' q = sv_heap s q)))"
  using assms(1)
proof (cases rule: Initialize_cases [of s h sub st])
  case (opened t i)
  then have "s' = t" using assms(2) by simp
  with opened assms(2) show ?thesis
    by (auto simp: DecodeInitializeResponseParameter_Encode Server_Session_def map_add_def zero_Header_def
        split: option.splits)
qed (use assms initialize_errors_fatal in auto)

theorem initialize_opens_session_witness:
  "\<exists>s' p resp. Server_Initialize (demo_server []) (zero_Header\<lparr>hType := Initialize,
        hParameter := EncodeInitializeParameter Version20 (0, 0)\<rparr>) [] 3 = (s', Inr (p, resp)) \<and>
     registry_inv s' \<and> hType resp = InitializeResponse \<and>
     fst (DecodeInitializeResponseParameter (hParameter resp)) = Version10"
proof -
  let ?h = "zero_Header\<lparr>hType := Initialize, hParameter := EncodeInitializeParameter Version20 (0, 0)\<rparr>"
  obtain s' p resp where i: "Server_Initialize (demo_server []) ?h [] 3 = (s', Inr (p, resp))"
    by (simp add: Server_Initialize_def message_lookup Config_acceptsSubAddress_def server_on_def
        DecodeInitializeParameter_Encode Version_Less_def Server_allocateSession_def zero_Config_def
        Server_allocateIDLocked_def allocateID_first Let_def)
  have "min Version20 Version10 = Version10" by (simp add: min_def less_eq_Version_def Version_Less_def)
  then show ?thesis
    using i initialize_opens_session [OF demo_server_inv i]
    by (auto simp: Let_def server_on_def zero_Config_def DecodeInitializeParameter_Encode)
qed

lemma ucast_32_16: "(ucast (ucast i :: uint32) :: uint16) = i"
  by (rule bit_word_eqI) (simp add: bit_simps)

text \<open>Attaching the asynchronous channel succeeds once, for a session that waits for it.\<close>

lemma AsyncInitialize_iff:
  "Server_AsyncInitialize s h st = (s', Inr (p, resp)) \<longleftrightarrow>
     hType h = AsyncInitialize \<and> Server_Session s (ucast (hParameter h)) = Some p \<and>
     se_state (sv_heap s p) = StatePairing \<and> se_async (sv_heap s p) = None \<and>
     s' = upd s p (\<lambda>se. se\<lparr>se_async := Some st, se_state := StateReady\<rparr>) \<and>
     resp = Server_asyncInitializeResponse s' p"
proof -
  have legal: "MessageType_LegalOn AsyncInitialize ChannelAsynchronous" by (simp add: message_lookup)
  then show ?thesis
    by (auto simp: Server_AsyncInitialize_def Session_attachAsync_def Let_def upd_def
        split: option.splits if_splits)
qed

lemma AsyncInitialize_refused:
  "Server_AsyncInitialize s h st = (s', Inl e) \<Longrightarrow> s' = s \<and> e \<in> {ErrInvalidInitSequence, ErrInvalidSession}"
proof -
  have legal: "MessageType_LegalOn AsyncInitialize ChannelAsynchronous" by (simp add: message_lookup)
  then show "Server_AsyncInitialize s h st = (s', Inl e) \<Longrightarrow> s' = s \<and> e \<in> {ErrInvalidInitSequence, ErrInvalidSession}"
    by (auto simp: Server_AsyncInitialize_def Session_attachAsync_def Let_def
        split: option.splits if_splits prod.splits)
qed

text \<open>
  C16. The two channels of a client find each other: when Initialize has opened a session and an
  AsyncInitialize names the identifier the client decodes from the response, it is attached to
  that very session, which becomes ready with both connections, and no other session changes.
  Attaching is possible exactly once: any later AsyncInitialize for it is refused with a
  fatal error and changes nothing.
\<close>
theorem channels_pair:
  assumes "registry_inv s" "Server_Initialize s h sub st = (s1, Inr (p, resp))"
    "hType h2 = AsyncInitialize"
    "hParameter h2 = ucast (snd (DecodeInitializeResponseParameter (hParameter resp)))"
  shows "\<exists>s2 resp2. Server_AsyncInitialize s1 h2 ast = (s2, Inr (p, resp2)) \<and>
    hType resp2 = AsyncInitializeResponse \<and> registry_inv s2 \<and>
    Session_Ready (sv_heap s2 p) \<and> se_sync (sv_heap s2 p) = Some st \<and> se_async (sv_heap s2 p) = Some ast \<and>
    (\<forall>q. q \<noteq> p \<longrightarrow> sv_heap s2 q = sv_heap s q) \<and>
    (\<exists>e. Server_AsyncInitialize s2 h2 ast2 = (s2, Inl e) \<and> we_Fatal (WireErrorFor e))"
  using assms(1)
proof (cases rule: Initialize_cases [of s h sub st])
  case (opened t i)
  let ?s2 = "upd s1 p (\<lambda>se. se\<lparr>se_async := Some ast, se_state := StateReady\<rparr>)"
  have eq: "s1 = t" "p = sv_nheap s" using assms(2) opened(1) by auto
  have "hParameter h2 = ucast i"
    using assms(2,4) opened(1) by (auto simp: DecodeInitializeResponseParameter_Encode)
  then have i: "(ucast (hParameter h2) :: uint16) = i" by (simp add: ucast_32_16)
  have look: "Server_Session s1 i = Some p"
    using opened(4,5) eq by (simp add: Server_Session_def map_add_def)
  have a: "Server_AsyncInitialize s1 h2 ast = (?s2, Inr (p, Server_asyncInitializeResponse ?s2 p))"
    unfolding AsyncInitialize_iff using assms(3) look i opened(7) eq by (simp add: newSession_def)
  have "registry_inv ?s2" using opened(2) eq(1) by (intro registry_inv_upd) simp_all
  moreover have "\<exists>e. Server_AsyncInitialize ?s2 h2 ast2 = (?s2, Inl e) \<and> we_Fatal (WireErrorFor e)"
  proof -
    obtain s3 r where r: "Server_AsyncInitialize ?s2 h2 ast2 = (s3, r)" by fastforce
    have "r \<noteq> Inr (q, y)" for q y
      using r look i assms(3) AsyncInitialize_iff [of ?s2 h2 ast2 s3 q y]
      by (auto simp: Server_Session_def)
    then obtain e where "r = Inl e" by (cases r) auto
    with AsyncInitialize_refused [of ?s2 h2 ast2 s3 e] initialize_errors_fatal [of e] r show ?thesis by auto
  qed
  ultimately show ?thesis
    using a opened(7) eq
    by (auto simp: Server_asyncInitializeResponse_def Session_Ready_def newSession_def Let_def)
qed (use assms(2) in auto)

theorem channels_pair_witness:
  "\<exists>s1 p resp s2 resp2.
     Server_Initialize (demo_server []) (zero_Header\<lparr>hType := Initialize,
        hParameter := EncodeInitializeParameter Version20 (0, 0)\<rparr>) [] 3 = (s1, Inr (p, resp)) \<and>
     Server_AsyncInitialize s1 (zero_Header\<lparr>hType := AsyncInitialize,
        hParameter := ucast (snd (DecodeInitializeResponseParameter (hParameter resp)))\<rparr>) 4 =
       (s2, Inr (p, resp2)) \<and> Session_Ready (sv_heap s2 p)"
proof -
  let ?h = "zero_Header\<lparr>hType := Initialize, hParameter := EncodeInitializeParameter Version20 (0, 0)\<rparr>"
  obtain s1 p resp where i: "Server_Initialize (demo_server []) ?h [] 3 = (s1, Inr (p, resp))"
    by (simp add: Server_Initialize_def message_lookup Config_acceptsSubAddress_def server_on_def
        DecodeInitializeParameter_Encode Version_Less_def Server_allocateSession_def zero_Config_def
        Server_allocateIDLocked_def allocateID_first Let_def)
  let ?h2 = "zero_Header\<lparr>hType := AsyncInitialize,
        hParameter := ucast (snd (DecodeInitializeResponseParameter (hParameter resp)))\<rparr>"
  from channels_pair [OF demo_server_inv i, of ?h2 4 5]
  have "\<exists>s2 resp2. Server_AsyncInitialize s1 ?h2 4 = (s2, Inr (p, resp2)) \<and> Session_Ready (sv_heap s2 p)"
    by auto
  with i show ?thesis by blast
qed

section \<open>Device Clear\<close>

lemma valid_no_overlap: "registry_inv s \<Longrightarrow> Config_featureBitmap (sv_cfg s) r = 0"
  by (simp add: featureBitmap_sync registry_inv_def valid_Config_def)



end
