(* ===== verification/Operations.thy ===== *)
theory Operations
  imports Serve Responses Handshake
begin

text \<open>
  Properties of the message handlers of \<open>server/serve.go\<close>: what a query does from the
  message that arrives to the response that leaves, what failures do to a session, and
  the operations of the asynchronous channel.
\<close>

section \<open>Helpers of the handlers\<close>

lemma responseScratch_valid:
  assumes "0 < buf" "buf < 2 ^ 64" "0 < limit"
  shows "0 < responseScratch buf limit \<and> of_nat (responseScratch buf limit) \<le> limit"
proof (cases "limit \<ge> of_nat buf")
  case False
  then show ?thesis using assms(3) by (auto simp: responseScratch_def unat_gt_0)
qed (use assms in \<open>simp add: responseScratch_def\<close>)

lemma countInterrupted_sel [simp]:
  "sv_heap (Server_countInterrupted s i) = sv_heap s" "sv_io (Server_countInterrupted s i) = sv_io s"
  "sv_dev (Server_countInterrupted s i) = sv_dev s" "sv_nops (Server_countInterrupted s i) = sv_nops s"
  "sv_cancelled (Server_countInterrupted s i) = sv_cancelled s"
  by (simp_all add: Server_countInterrupted_def split: Interrupted_kind.splits)

lemma countOutcome_sel [simp]:
  "sv_heap (Server_countOutcome s i) = sv_heap s" "sv_io (Server_countOutcome s i) = sv_io s"
  "sv_dev (Server_countOutcome s i) = sv_dev s"
  by (simp_all add: Server_countOutcome_def split: ResponseOutcome.splits)

lemma syncPending_conj: "Session_syncPending se queued = (se_pending se \<and> queued)"
  by (simp add: Session_syncPending_def)

section \<open>Queries\<close>

text \<open>The acceptance of a program message.\<close>

lemma Accept_data:
  assumes "hType h = DataEnd \<or> hType h = Data" "se_state (sv_heap s p) = StateReady" "Version10 \<le> se_version (sv_heap s p)"
    "hLength h \<le> se_maxRx (sv_heap s p)"
  shows "Server_Accept s (Some p) h ChannelSynchronous = (ClassSyncOrdered, None)"
proof -
  have "MessageType_MinVersion DataEnd = Version10" "MessageType_MinVersion Data = Version10"
    by (simp_all add: message_lookup)
  then have "snd (Server_Accept s (Some p) h ChannelSynchronous) = None"
    unfolding Accept_None_iff using assms by (auto simp: client_messages_def rx_limit_def)
  moreover have "ClassOf (hType h) = ClassSyncOrdered" using assms(1) by (auto simp: ClassOf_def)
  ultimately show ?thesis using Accept_class [of s "Some p" h ChannelSynchronous] by (metis prod.collapse)
qed

text \<open>A complete message that the instrument takes.\<close>

lemma ReceiveData_ok:
  assumes "hType h = DataEnd" "tx_state (se_tx (sv_heap s p)) \<in> {TxIdle, TxReceivingInput}"
    "dev_Write (en_dev E) (sv_dev s) ctx payload True = (d, None)"
  obtains s' i where "Server_ReceiveData E s ctx p h payload = (s', i, None)" "sv_dev s' = d"
    "sv_io s' = sv_io s" "sv_nops s' = sv_nops s" "sv_cancelled s' = sv_cancelled s" "sv_cfg s' = sv_cfg s"
    "sv_heap s' p = (sv_heap s p)\<lparr>se_rmt := zero_RMT,
       se_status := Status_ReceivedSyncMessage (se_status (sv_heap s p)) (Header_MessageID h),
       se_tx := \<lparr>tx_state = TxInputComplete, tx_id = Header_MessageID h\<rparr>\<rparr>"
proof -
  have "(se_tx (sv_heap s p))\<lparr>tx_state := TxInputComplete, tx_id := Header_MessageID h\<rparr> =
      \<lparr>tx_state = TxInputComplete, tx_id = Header_MessageID h\<rparr>"
    by (cases "se_tx (sv_heap s p)") simp
  then show ?thesis
    using that assms
    by (auto simp: Server_ReceiveData_def RMT_ReceivedSyncMessage_def tx_op_upd tx_moves Let_def)
qed

text \<open>A session that can answer: both channels established and writable, idle, with a policy.\<close>

definition answering :: "('d, 'x) Server \<Rightarrow> nat \<Rightarrow> nat \<Rightarrow> nat \<Rightarrow> bool" where
  "answering s p st ast \<longleftrightarrow> se_state (sv_heap s p) = StateReady \<and> Version10 \<le> se_version (sv_heap s p) \<and>
     tx_state (se_tx (sv_heap s p)) \<in> {TxIdle, TxReceivingInput} \<and> 16 \<le> se_maxTx (sv_heap s p) \<and>
     (\<exists>w a. se_syncW (sv_heap s p) = Some w \<and> se_asyncW (sv_heap s p) = Some a \<and> w \<noteq> a \<and> st \<noteq> ast \<and>
        writer_ok (sv_io s) w ChannelSynchronous st \<and> up (sv_io s) st \<and>
        writer_ok (sv_io s) a ChannelAsynchronous ast \<and> up (sv_io s) ast)"

lemma answering_responding:
  "answering s p st ast \<Longrightarrow> sv_io s' = sv_io s \<Longrightarrow> rs_Sync r = se_syncW (sv_heap s p) \<Longrightarrow>
   rs_Async r = se_asyncW (sv_heap s p) \<Longrightarrow> responding s' p r st ast"
  by (auto simp: answering_def responding_def)

lemma answering_scratch:
  assumes "answering s p st ast" "0 < buf" "buf < 2 ^ 64"
  shows "0 < responseScratch buf (se_maxTx (sv_heap s p))"
    "of_nat (responseScratch buf (se_maxTx (sv_heap s p))) \<le> se_maxTx (sv_heap s p)"
proof -
  have "16 \<le> se_maxTx (sv_heap s p)" using assms(1) by (simp add: answering_def)
  then have "0 < se_maxTx (sv_heap s p)" by (rule order_less_le_trans [rotated]) simp
  then show "0 < responseScratch buf (se_maxTx (sv_heap s p))"
    "of_nat (responseScratch buf (se_maxTx (sv_heap s p))) \<le> se_maxTx (sv_heap s p)"
    using responseScratch_valid [OF assms(2,3)] by blast+
qed

lemma answering_limit: "answering s p st ast \<Longrightarrow> se_maxTx (sv_heap s p) \<noteq> 0"
  by (auto simp: answering_def)

lemma scratch_limit: "limit \<noteq> 0 \<Longrightarrow> buf < 2 ^ 64 \<Longrightarrow> responseScratch buf limit \<le> unat limit"
  by (auto simp: responseScratch_def word_le_nat_alt unat_of_nat)

lemma outside_state: "outside s' p st ast = outside s p st ast \<Longrightarrow> se_state (sv_heap s' p) = se_state (sv_heap s p)"
proof -
  assume "outside s' p st ast = outside s p st ast"
  then have "core (sv_heap s' p) = core (sv_heap s p)"
    by (auto simp: outside_def dest!: fun_cong [where x = p])
  from arg_cong [OF this, of se_state] show ?thesis by (simp add: core_def)
qed

lemma feed_sel [simp]:
  "se_maxTx (Session_feedProgramMessage ops se b) = se_maxTx se"
  "se_asyncW (Session_feedProgramMessage ops se b) = se_asyncW se"
  "se_tx (Session_feedProgramMessage ops se b) = se_tx se"
  "se_rmt (Session_feedProgramMessage ops se b) = se_rmt se"
  "se_lastTx (Session_feedProgramMessage ops se b) = se_lastTx se"
  "se_pending (Session_feedProgramMessage ops se b) = se_pending se"
  "se_state (Session_feedProgramMessage ops se b) = se_state se"
  by (simp_all add: Session_feedProgramMessage_def split: option.splits)

lemma disposition_sel [simp]:
  "se_maxTx (fst (Session_programDisposition ops se)) = se_maxTx se"
  "se_asyncW (fst (Session_programDisposition ops se)) = se_asyncW se"
  "se_tx (fst (Session_programDisposition ops se)) = se_tx se"
  "se_rmt (fst (Session_programDisposition ops se)) = se_rmt se"
  "se_lastTx (fst (Session_programDisposition ops se)) = se_lastTx se"
  "se_pending (fst (Session_programDisposition ops se)) = se_pending se"
  "se_state (fst (Session_programDisposition ops se)) = se_state se"
  by (simp_all add: Session_programDisposition_def split: option.splits)

text \<open>What the session's policy decides about a complete message.\<close>

definition expects_response :: "'x policy_ops \<Rightarrow> 'x Session \<Rightarrow> bytes \<Rightarrow> bool" where
  "expects_response ops se payload \<longleftrightarrow>
     snd (Session_programDisposition ops (Session_feedProgramMessage ops se payload)) = ResponseExpected"

lemma expects_cong: "se_policy se' = se_policy se \<Longrightarrow> expects_response ops se' b = expects_response ops se b"
  by (simp add: expects_response_def Session_programDisposition_def Session_feedProgramMessage_def split: option.splits)

text \<open>What a program message leaves of a session, and the policy it leaves.\<close>

definition profile :: "'x Session \<Rightarrow> State \<times> Version \<times> uint64 \<times> uint64 \<times> bool \<times> nat option \<times> nat option" where
  "profile se = (se_state se, se_version se, se_maxRx se, se_maxTx se, se_pending se, se_syncW se, se_asyncW se)"

definition policy_after :: "'x policy_ops \<Rightarrow> 'x Session \<Rightarrow> bytes \<Rightarrow> 'x ResponsePolicy option" where
  "policy_after ops se payload =
     se_policy (fst (Session_programDisposition ops (Session_feedProgramMessage ops se payload)))"

lemma profile_policy [simp]:
  "profile (Session_feedProgramMessage ops se b) = profile se"
  "profile (fst (Session_programDisposition ops se)) = profile se"
  by (simp_all add: profile_def Session_feedProgramMessage_def Session_programDisposition_def split: option.splits)

lemma policy_after_cong: "se_policy se' = se_policy se \<Longrightarrow> policy_after ops se' b = policy_after ops se b"
  by (simp add: policy_after_def Session_programDisposition_def Session_feedProgramMessage_def split: option.splits)

lemma outside_session:
  assumes "outside s' p st ast = outside s p st ast"
  shows "profile (sv_heap s' p) = profile (sv_heap s p)" "se_policy (sv_heap s' p) = se_policy (sv_heap s p)"
proof -
  have "core (sv_heap s' p) = core (sv_heap s p)"
    using assms by (auto simp: outside_def dest!: fun_cong [where x = p])
  from arg_cong [OF this, of profile] arg_cong [OF this, of se_policy]
  show "profile (sv_heap s' p) = profile (sv_heap s p)" "se_policy (sv_heap s' p) = se_policy (sv_heap s p)"
    by (simp_all add: core_def profile_def)
qed

lemma release_sel [simp]:
  "se_tx (sv_heap (release_operation s q op) p) = se_tx (sv_heap s p)"
  "profile (sv_heap (release_operation s q op) p) = profile (sv_heap s p)"
  "se_policy (sv_heap (release_operation s q op) p) = se_policy (sv_heap s p)"
  "se_status (sv_heap (release_operation s q op) p) = se_status (sv_heap s p)"
  "sv_io (release_operation s q op) = sv_io s" "sv_dev (release_operation s q op) = sv_dev s"
  by (simp_all add: release_operation_def profile_def)

lemma answering_keep:
  assumes "answering s p st ast" "profile (sv_heap s' p) = profile (sv_heap s p)"
    "tx_state (se_tx (sv_heap s' p)) \<in> {TxIdle, TxReceivingInput}"
    "rs_Sync r = se_syncW (sv_heap s p)" "rs_Async r = se_asyncW (sv_heap s p)" "responding s' p r st ast"
  shows "answering s' p st ast"
  using assms by (auto simp: answering_def profile_def responding_def)

text \<open>The state in which a response to the message is attempted.\<close>

lemma query_prepared:
  assumes "answering s p st ast" "hType h = DataEnd"
    "dev_Write (en_dev E) (sv_dev s) ctx payload True = (d1, None)" "expects_response (en_pol E) (sv_heap s p) payload"
    "0 < buf" "buf < 2 ^ 64"
  obtains s1 r where
    "\<And>s2 oc. Server_SendResponse E s1 (ctx \<or> sv_nops s \<in> sv_cancelled s) p r = Some (s2, oc, None) \<Longrightarrow>
       Server_handleData E s ctx p \<lparr>ms_header = h, ms_payload = payload, ms_buf = b, ms_err = None\<rparr>
         (se_syncW (sv_heap s p)) buf queued =
       Some (release_operation (Server_countOutcome s2 oc) p (sv_nops s), None)"
    "sv_io s1 = sv_io s" "sv_dev s1 = d1" "responding s1 p r st ast" "Response_validate r (sv_heap s1 p) = None"
    "tx_state (se_tx (sv_heap s1 p)) = TxInputComplete"
    "rs_MessageID r = Header_MessageID h" "rs_Scratch r = responseScratch buf (se_maxTx (sv_heap s p))"
    "rs_InputQueued r = Some (se_pending (sv_heap s p) \<and> queued)" "profile (sv_heap s1 p) = profile (sv_heap s p)"
    "se_policy (sv_heap s1 p) = policy_after (en_pol E) (sv_heap s p) payload"
    "rs_Sync r = se_syncW (sv_heap s p)" "rs_Async r = se_asyncW (sv_heap s p)"
proof -
  have tx: "tx_state (se_tx (sv_heap s p)) \<in> {TxIdle, TxReceivingInput}" using assms(1) by (simp add: answering_def)
  obtain t i where t: "Server_ReceiveData E s ctx p h payload = (t, i, None)" "sv_dev t = d1"
    "sv_io t = sv_io s" "sv_nops t = sv_nops s" "sv_cancelled t = sv_cancelled s"
    "sv_heap t p = (sv_heap s p)\<lparr>se_rmt := zero_RMT,
       se_status := Status_ReceivedSyncMessage (se_status (sv_heap s p)) (Header_MessageID h),
       se_tx := \<lparr>tx_state = TxInputComplete, tx_id = Header_MessageID h\<rparr>\<rparr>"
    using ReceiveData_ok [OF assms(2) tx assms(3)] by metis
  define u where "u = upd (Server_countInterrupted t i) p (\<lambda>se. Session_feedProgramMessage (en_pol E) se payload)"
  define v where "v = upd u p (\<lambda>_. fst (Session_programDisposition (en_pol E) (sv_heap u p)))"
  define s1 where "s1 = fst (Session_Operation v p)"
  define r where "r = \<lparr>rs_Sync = se_syncW (sv_heap s p), rs_Async = se_asyncW (sv_heap s p),
     rs_MessageID = Header_MessageID h, rs_Scratch = responseScratch buf (se_maxTx (sv_heap s p)),
     rs_InputQueued = Some (se_pending (sv_heap s p) \<and> queued)\<rparr>"
  have u: "sv_io u = sv_io s" "sv_dev u = d1" "sv_nops u = sv_nops s" "sv_cancelled u = sv_cancelled s"
    "sv_heap u p = Session_feedProgramMessage (en_pol E) (sv_heap t p) payload"
    by (simp_all add: u_def t)
  have "expects_response (en_pol E) (sv_heap t p) payload"
    using assms(4) expects_cong [of "sv_heap t p" "sv_heap s p"] t(6) by simp
  then have d: "snd (Session_programDisposition (en_pol E) (sv_heap u p)) = ResponseExpected"
    by (simp add: expects_response_def u)
  have s1: "sv_io s1 = sv_io s" "sv_dev s1 = d1" "sv_cancelled s1 = sv_cancelled s"
    "se_tx (sv_heap s1 p) = \<lparr>tx_state = TxInputComplete, tx_id = Header_MessageID h\<rparr>"
    "se_maxTx (sv_heap s1 p) = se_maxTx (sv_heap s p)"
    "se_pending (sv_heap s1 p) = se_pending (sv_heap s p)" "se_asyncW (sv_heap s1 p) = se_asyncW (sv_heap s p)"
    "Session_Operation v p = (s1, sv_nops s)"
    by (simp_all add: s1_def v_def Session_Operation_def u t(6))
  have "profile (sv_heap s1 p) = profile (sv_heap v p)" "se_policy (sv_heap s1 p) = se_policy (sv_heap v p)"
    by (simp_all add: s1_def Session_Operation_def profile_def)
  moreover have "profile (sv_heap v p) = profile (sv_heap s p)"
    by (simp add: v_def u) (simp add: t(6) profile_def)
  moreover have "se_policy (sv_heap v p) = policy_after (en_pol E) (sv_heap s p) payload"
    using policy_after_cong [of "sv_heap t p" "sv_heap s p"] t(6) by (simp add: v_def u policy_after_def)
  ultimately have keep: "profile (sv_heap s1 p) = profile (sv_heap s p)"
    "se_policy (sv_heap s1 p) = policy_after (en_pol E) (sv_heap s p) payload" by simp_all
  have "Server_handleData E s ctx p \<lparr>ms_header = h, ms_payload = payload, ms_buf = b, ms_err = None\<rparr>
         (se_syncW (sv_heap s p)) buf queued =
       Some (release_operation (Server_countOutcome s2 oc) p (sv_nops s), None)"
    if "Server_SendResponse E s1 (ctx \<or> sv_nops s \<in> sv_cancelled s) p r = Some (s2, oc, None)" for s2 oc
  proof -
    obtain se where se: "Session_programDisposition (en_pol E) (sv_heap u p) = (se, ResponseExpected)"
      using d by (metis prod.collapse)
    have v: "upd (Server_countInterrupted t i) p (\<lambda>_. se) = v" by (simp add: v_def se) (simp add: u_def)
    show ?thesis
      using that
      by (simp add: Server_handleData_def t(1) assms(2) se [unfolded u(5)] v s1 r_def syncPending_conj Let_def)
  qed
  moreover have "Response_validate r (sv_heap s1 p) = None"
    using answering_scratch [OF assms(1,5,6)] assms(1) s1(5)
    by (auto simp: Response_validate_def r_def answering_def not_less)
  moreover have "responding s1 p r st ast" using assms(1) s1(1) by (rule answering_responding) (simp_all add: r_def)
  ultimately show ?thesis
    using that [of s1 r] s1 keep assms(1) by (simp add: r_def answering_def)
qed

lemma handle_query:
  assumes "answering s p st ast" "hType h = DataEnd" "hLength h \<le> se_maxRx (sv_heap s p)"
    "dev_Write (en_dev E) (sv_dev s) ctx payload True = (d1, None)"
    "expects_response (en_pol E) (sv_heap s p) payload" "0 < buf" "buf < 2 ^ 64"
    "response_reads (dev_Read (en_dev E)) (ctx \<or> sv_nops s \<in> sv_cancelled s)
       (responseScratch buf (se_maxTx (sv_heap s p))) d1 pieces (d, bs, e, err)"
    "length (concat pieces @ bs) < 2 ^ 64" "q \<longleftrightarrow> se_pending (sv_heap s p) \<and> queued"
  shows "of_nat (responseScratch buf (se_maxTx (sv_heap s p))) \<le> se_maxTx (sv_heap s p) \<and>
    (\<exists>s'. Server_handleSync E s ctx p \<lparr>ms_header = h, ms_payload = payload, ms_buf = b, ms_err = None\<rparr>
           buf queued = Some (s', None) \<and>
       io_out (sv_io s') st = io_out (sv_io s) st @
         wire (data_messages (Header_MessageID h) pieces @
               last_messages (Header_MessageID h) (concat pieces) bs (err \<noteq> None) q) \<and>
       io_out (sv_io s') ast = io_out (sv_io s) ast @ wire (async_messages (Header_MessageID h) (err \<noteq> None) q) \<and>
       se_tx (sv_heap s' p) = \<lparr>tx_state = TxIdle, tx_id = NoMessageID\<rparr> \<and>
       \<not> st_responsePending (se_status (sv_heap s' p)) \<and> se_state (sv_heap s' p) = StateReady \<and> sv_dev s' = d \<and>
       answering s' p st ast \<and> profile (sv_heap s' p) = profile (sv_heap s p) \<and>
       se_policy (sv_heap s' p) = policy_after (en_pol E) (sv_heap s p) payload)"
proof -
  let ?m = "\<lparr>ms_header = h, ms_payload = payload, ms_buf = b, ms_err = None\<rparr>"
  obtain s1 r where s1: "\<And>s2 oc. Server_SendResponse E s1 (ctx \<or> sv_nops s \<in> sv_cancelled s) p r = Some (s2, oc, None) \<Longrightarrow>
       Server_handleData E s ctx p ?m (se_syncW (sv_heap s p)) buf queued =
       Some (release_operation (Server_countOutcome s2 oc) p (sv_nops s), None)"
    "sv_io s1 = sv_io s" "sv_dev s1 = d1" "responding s1 p r st ast" "Response_validate r (sv_heap s1 p) = None"
    "tx_state (se_tx (sv_heap s1 p)) = TxInputComplete"
    "rs_MessageID r = Header_MessageID h" "rs_Scratch r = responseScratch buf (se_maxTx (sv_heap s p))"
    "rs_InputQueued r = Some (se_pending (sv_heap s p) \<and> queued)" "profile (sv_heap s1 p) = profile (sv_heap s p)"
    "se_policy (sv_heap s1 p) = policy_after (en_pol E) (sv_heap s p) payload"
    "rs_Sync r = se_syncW (sv_heap s p)" "rs_Async r = se_asyncW (sv_heap s p)"
    using query_prepared [OF assms(1,2,4-7)] by metis
  have rd: "response_reads (dev_Read (en_dev E)) (ctx \<or> sv_nops s \<in> sv_cancelled s) (rs_Scratch r) (sv_dev s1)
      pieces (d, bs, e, err)" using assms(8) s1(3,8) by simp
  have iq: "rs_InputQueued r = Some q" using s1(9) assms(10) by simp
  from SendResponse_ok [OF s1(5,4,6) iq rd assms(9)] obtain s2 where
    s2: "Server_SendResponse E s1 (ctx \<or> sv_nops s \<in> sv_cancelled s) p r =
        Some (s2, response_outcome (concat pieces) bs (err \<noteq> None) q, None)"
      "io_out (sv_io s2) st = io_out (sv_io s) st @
        wire (data_messages (Header_MessageID h) pieces @
              last_messages (Header_MessageID h) (concat pieces) bs (err \<noteq> None) q)"
      "io_out (sv_io s2) ast = io_out (sv_io s) ast @ wire (async_messages (Header_MessageID h) (err \<noteq> None) q)"
      "ended s1 s2 p (Header_MessageID h) (err = None \<and> q)"
      "\<not> st_responsePending (se_status (sv_heap s2 p))" "sv_dev s2 = d"
      "outside s2 p st ast = outside s1 p st ast" "responding s2 p r st ast"
    unfolding s1(2,7) by metis
  let ?s' = "release_operation (Server_countOutcome s2 (response_outcome (concat pieces) bs (err \<noteq> None) q)) p (sv_nops s)"
  have tx: "se_tx (sv_heap ?s' p) = \<lparr>tx_state = TxIdle, tx_id = NoMessageID\<rparr>"
    using s2(4) by (auto simp: ended_def terminated_def abandoned_def split: if_splits)
  have prof: "profile (sv_heap ?s' p) = profile (sv_heap s p)"
    using outside_session(1) [OF s2(7)] s1(10) by simp
  have pol: "se_policy (sv_heap ?s' p) = policy_after (en_pol E) (sv_heap s p) payload"
    using outside_session(2) [OF s2(7)] s1(11) by simp
  have ans: "answering ?s' p st ast"
    by (rule answering_keep [OF assms(1) prof _ s1(12,13)]) (use tx s2(8) in \<open>simp_all add: responding_def\<close>)
  have run: "Server_handleSync E s ctx p ?m buf queued = Some (?s', None)"
    using assms(1-3) s1(1) [OF s2(1)] Accept_data [of h s p]
    by (simp add: Server_handleSync_def DiscardDuringClear_def answering_def)
  have "of_nat (responseScratch buf (se_maxTx (sv_heap s p))) \<le> se_maxTx (sv_heap s p)"
    using answering_scratch [OF assms(1,6,7)] by blast
  moreover have "se_state (sv_heap ?s' p) = StateReady" using ans by (simp add: answering_def)
  ultimately show ?thesis using run tx prof pol ans s2(2,3,5,6) by (intro conjI exI [of _ ?s']) simp_all
qed


lemma ready_answering: "answering (ready_on d) 0 1 2"
proof -
  have "Version10 \<le> Version20" by (simp add: less_eq_Version_def Version_Less_def)
  with ready_server_io [of d] show ?thesis
    by (simp add: answering_def ready_session_def newSession_def zero_Transaction_def zero_Config_def)
qed

lemma demo_query:
  fixes E s
  assumes E: "E = \<lparr>en_dev = testdevice_ops, en_pol = no_policy\<rparr>" and s: "s = ready_server [[49, 10]]"
  obtains d1 d where
    "dev_Write (en_dev E) (sv_dev s) False [63] True = (d1, None)" "expects_response (en_pol E) (sv_heap s 0) [63]"
    "response_reads (dev_Read (en_dev E)) (False \<or> sv_nops s \<in> sv_cancelled s)
      (responseScratch 8192 (se_maxTx (sv_heap s 0))) d1 [] (d, [49, 10], True, None)"
proof -
  have ex: "expects_response (en_pol E) (sv_heap s 0) [63]"
    by (simp add: E s expects_response_def Session_feedProgramMessage_def Session_programDisposition_def
        ready_session_def SCPIQueryPolicy_Feed.simps SCPIQueryPolicy_Disposition_def NewSCPIQueryPolicy_def)
  obtain d1 where w: "dev_Write (en_dev E) (sv_dev s) False [63] True = (d1, None)"
      "td_Responses d1 = [[49, 10]]" "td_Errors d1 = (\<lambda>_. None)" "\<not> td_inFlight d1" "td_respIdx d1 = 0"
    by (simp add: E s testdevice_ops_def testdevice_Write_def testdevice_fail_def testdevice_New_def testdevice_record_def)
  have sc: "responseScratch 8192 (se_maxTx (sv_heap s 0)) = 8192"
    by (simp add: s responseScratch_def ready_session_def newSession_def zero_Config_def)
  obtain d where d: "testdevice_Read d1 False 8192 = (d, [49, 10], True, None)"
    using w(2-) by (simp add: testdevice_Read_def testdevice_fail_def Let_def)
  have rd: "response_reads (dev_Read (en_dev E)) (False \<or> sv_nops s \<in> sv_cancelled s)
      (responseScratch 8192 (se_maxTx (sv_heap s 0))) d1 [] (d, [49, 10], True, None)"
    using d unfolding sc by (intro response_reads.last_read) (simp_all add: E s testdevice_ops_def)
  from that [OF w(1) ex rd] show ?thesis .
qed


text \<open>
  C33. No message of a response is longer than the client accepts. For any instrument that never
  delivers more than the buffer it is given holds, whatever the buffer of the server and the limit the
  client has announced are, every data message of the answer to a query has a payload within that limit.
\<close>
theorem response_within_limit:
  assumes "answering s p st ast" "hType h = DataEnd" "hLength h \<le> se_maxRx (sv_heap s p)"
    "dev_Write (en_dev E) (sv_dev s) ctx payload True = (d1, None)"
    "expects_response (en_pol E) (sv_heap s p) payload" "0 < buf" "buf < 2 ^ 64"
    "response_reads (dev_Read (en_dev E)) (ctx \<or> sv_nops s \<in> sv_cancelled s)
       (responseScratch buf (se_maxTx (sv_heap s p))) d1 pieces (d, bs, e, err)"
    "length (concat pieces @ bs) < 2 ^ 64" "fitting_device (dev_Read (en_dev E))"
  shows "\<exists>s' ms. Server_handleSync E s ctx p \<lparr>ms_header = h, ms_payload = payload, ms_buf = b, ms_err = None\<rparr>
       buf queued = Some (s', None) \<and> io_out (sv_io s') st = io_out (sv_io s) st @ wire ms \<and>
     list_all (\<lambda>(h', b). hType h' \<in> {Data, DataEnd} \<longrightarrow> length b \<le> unat (se_maxTx (sv_heap s p))) ms"
proof -
  have n: "responseScratch buf (se_maxTx (sv_heap s p)) \<le> unat (se_maxTx (sv_heap s p))"
    by (rule scratch_limit [OF answering_limit [OF assms(1)] assms(7)])
  have "\<forall>b \<in> set pieces. length b \<le> unat (se_maxTx (sv_heap s p))" "length bs \<le> unat (se_maxTx (sv_heap s p))"
    using fitting_device.reads_fit [OF assms(10,8)] n by auto
  then have "list_all (\<lambda>(h', b). hType h' \<in> {Data, DataEnd} \<longrightarrow> length b \<le> unat (se_maxTx (sv_heap s p)))
      (data_messages i pieces @ last_messages i (concat pieces) bs (err \<noteq> None) q)" for i q
    by (auto simp: data_messages_def last_messages_def list_all_iff error_header_def)
  with handle_query [OF assms(1-9) refl, where b = b and queued = queued] show ?thesis by blast
qed

theorem response_within_limit_witness:
  "\<exists>s' ms. Server_handleSync \<lparr>en_dev = testdevice_ops, en_pol = no_policy\<rparr> (ready_server [[49, 10]]) False 0
       \<lparr>ms_header = zero_Header\<lparr>hType := DataEnd, hParameter := 6\<rparr>, ms_payload = [63], ms_buf = 0, ms_err = None\<rparr>
       8192 False = Some (s', None) \<and> io_out (sv_io s') 1 = wire ms \<and>
     list_all (\<lambda>(h', b). hType h' \<in> {Data, DataEnd} \<longrightarrow> length b \<le> 8192) ms"
proof -
  let ?E = "\<lparr>en_dev = testdevice_ops, en_pol = no_policy\<rparr>" and ?s = "ready_server [[49, 10]]"
  obtain d1 d where
    w: "dev_Write (en_dev ?E) (sv_dev ?s) False [63] True = (d1, None)"
    and ex: "expects_response (en_pol ?E) (sv_heap ?s 0) [63]"
    and rd: "response_reads (dev_Read (en_dev ?E)) (False \<or> sv_nops ?s \<in> sv_cancelled ?s)
      (responseScratch 8192 (se_maxTx (sv_heap ?s 0))) d1 [] (d, [49, 10], True, None)"
    by (rule demo_query [OF refl refl])
  have len: "hLength (zero_Header\<lparr>hType := DataEnd, hParameter := 6\<rparr>) \<le> se_maxRx (sv_heap ?s 0)"
    by (simp add: zero_Header_def)
  have l: "length (concat [] @ [49, 10 :: byte]) < 2 ^ 64" by simp
  have f: "fitting_device (dev_Read (en_dev ?E))" using td.fitting_device_axioms by (simp add: testdevice_ops_def)
  from response_within_limit [OF ready_answering _ len w ex _ _ rd l f, where b = 0 and queued = False] show ?thesis
    by (auto simp: ready_server_io ready_server_io [simplified] ready_session_def newSession_def zero_Config_def)
qed

section \<open>Program messages without a response\<close>

text \<open>A part of a message.\<close>

lemma handle_part:
  assumes "answering s p st ast" "hType h = Data" "hLength h \<le> se_maxRx (sv_heap s p)"
    "dev_Write (en_dev E) (sv_dev s) ctx payload False = (d, None)"
  shows "\<exists>s'. Server_handleSync E s ctx p \<lparr>ms_header = h, ms_payload = payload, ms_buf = b, ms_err = None\<rparr>
       buf queued = Some (s', None) \<and> sv_io s' = sv_io s \<and> sv_dev s' = d \<and> answering s' p st ast \<and>
     profile (sv_heap s' p) = profile (sv_heap s p) \<and>
     se_policy (sv_heap s' p) = se_policy (Session_feedProgramMessage (en_pol E) (sv_heap s p) payload)"
proof -
  let ?m = "\<lparr>ms_header = h, ms_payload = payload, ms_buf = b, ms_err = None\<rparr>"
  have tx: "tx_state (se_tx (sv_heap s p)) \<in> {TxIdle, TxReceivingInput}" using assms(1) by (simp add: answering_def)
  obtain t i where t: "Server_ReceiveData E s ctx p h payload = (t, i, None)" "sv_dev t = d" "sv_io t = sv_io s"
    "tx_state (se_tx (sv_heap t p)) = TxReceivingInput" "profile (sv_heap t p) = profile (sv_heap s p)"
    "se_policy (sv_heap t p) = se_policy (sv_heap s p)"
    using tx assms(2,4)
    by (auto simp: Server_ReceiveData_def RMT_ReceivedSyncMessage_def tx_op_upd tx_moves profile_def Let_def)
  let ?s' = "upd (Server_countInterrupted t i) p (\<lambda>se. Session_feedProgramMessage (en_pol E) se payload)"
  have prof: "profile (sv_heap ?s' p) = profile (sv_heap s p)" using t(5) by simp
  have pol: "se_policy (sv_heap ?s' p) = se_policy (Session_feedProgramMessage (en_pol E) (sv_heap s p) payload)"
    using t(6) by (simp add: Session_feedProgramMessage_def split: option.splits)
  have "Server_handleSync E s ctx p ?m buf queued = Some (?s', None)"
    using assms(1-3) Accept_data [of h s p] t(1)
    by (simp add: Server_handleSync_def DiscardDuringClear_def answering_def Server_handleData_def Let_def)
  moreover have "answering ?s' p st ast"
    using assms(1) prof t(3,4) by (auto simp: answering_def profile_def)
  ultimately show ?thesis using prof pol t(2,3) by (intro exI [of _ ?s']) simp
qed

text \<open>The end of a message that is not a query.\<close>

lemma handle_command:
  assumes "answering s p st ast" "hType h = DataEnd" "hLength h \<le> se_maxRx (sv_heap s p)"
    "dev_Write (en_dev E) (sv_dev s) ctx payload True = (d, None)"
    "\<not> expects_response (en_pol E) (sv_heap s p) payload"
  shows "\<exists>s'. Server_handleSync E s ctx p \<lparr>ms_header = h, ms_payload = payload, ms_buf = b, ms_err = None\<rparr>
       buf queued = Some (s', None) \<and> sv_io s' = sv_io s \<and> sv_dev s' = d \<and> answering s' p st ast \<and>
     profile (sv_heap s' p) = profile (sv_heap s p) \<and>
     se_policy (sv_heap s' p) = policy_after (en_pol E) (sv_heap s p) payload"
proof -
  let ?m = "\<lparr>ms_header = h, ms_payload = payload, ms_buf = b, ms_err = None\<rparr>"
  have tx: "tx_state (se_tx (sv_heap s p)) \<in> {TxIdle, TxReceivingInput}" using assms(1) by (simp add: answering_def)
  obtain t i where t: "Server_ReceiveData E s ctx p h payload = (t, i, None)" "sv_dev t = d" "sv_io t = sv_io s"
    "sv_heap t p = (sv_heap s p)\<lparr>se_rmt := zero_RMT,
       se_status := Status_ReceivedSyncMessage (se_status (sv_heap s p)) (Header_MessageID h),
       se_tx := \<lparr>tx_state = TxInputComplete, tx_id = Header_MessageID h\<rparr>\<rparr>"
    using ReceiveData_ok [OF assms(2) tx assms(4)] by metis
  let ?f = "Session_feedProgramMessage (en_pol E) (sv_heap t p) payload"
  obtain se disp where se: "Session_programDisposition (en_pol E) ?f = (se, disp)" by fastforce
  have "expects_response (en_pol E) (sv_heap t p) payload = expects_response (en_pol E) (sv_heap s p) payload"
    by (rule expects_cong) (simp add: t(4))
  then have disp: "disp \<noteq> ResponseExpected" using assms(5) se by (simp add: expects_response_def)
  have tx': "se_tx se = \<lparr>tx_state = TxInputComplete, tx_id = Header_MessageID h\<rparr>"
    using arg_cong [OF se, of "\<lambda>x. se_tx (fst x)"] by (simp add: t(4))
  have prof: "profile se = profile (sv_heap s p)"
    using arg_cong [OF se, of "\<lambda>x. profile (fst x)"] by (simp add: t(4)) (simp add: profile_def)
  have pol: "se_policy se = policy_after (en_pol E) (sv_heap s p) payload"
    using policy_after_cong [of "sv_heap t p" "sv_heap s p" "en_pol E" payload] se by (simp add: t(4) policy_after_def)
  let ?s' = "upd (Server_countInterrupted t i) p (\<lambda>_. se\<lparr>se_tx := \<lparr>tx_state = TxIdle, tx_id = NoMessageID\<rparr>\<rparr>)"
  have "Server_handleSync E s ctx p ?m buf queued = Some (?s', None)"
    using assms(1-3) Accept_data [of h s p] t(1) se disp tx'
    by (simp add: Server_handleSync_def DiscardDuringClear_def answering_def Server_handleData_def tx_op_upd tx_moves Let_def)
  moreover have "answering ?s' p st ast"
    using assms(1) prof t(3) by (auto simp: answering_def profile_def)
  ultimately show ?thesis using prof pol t(2,3) by (intro exI [of _ ?s']) (simp add: profile_def)
qed

section \<open>Failures\<close>

definition fatal_header :: "FatalErrorCode \<Rightarrow> Header" where
  "fatal_header code = zero_Header\<lparr>hType := FatalError, hControl := code\<rparr>"

lemma send_fatal_clean:
  assumes "writer_ok (sv_io s) w ch st" "up (sv_io s) st" "ch = ChannelSynchronous \<or> ch = ChannelAsynchronous"
  shows "send_fatal s (Some w) code descr = (s\<lparr>sv_io := sent (sv_io s) w (fatal_header code) descr\<rparr>, None)"
proof -
  have "MessageWriter_Write (sv_io s) w (fatal_header code) descr = (sent (sv_io s) w (fatal_header code) descr, None)"
    using assms legal_either [OF assms(3)]
    by (intro MessageWriter_Write_clean [OF assms(1,2)]) (simp_all add: fatal_header_def zero_Header_def)
  then show ?thesis
    by (simp add: send_fatal_def MessageWriter_WriteFatalError_def writer_Write_def fatal_header_def)
qed

text \<open>The code of a failed operation that does not end the session.\<close>

definition operation_code :: "gerror \<Rightarrow> ErrorCode" where
  "operation_code e = (if we_Code (WireErrorFor e) = NonFatalUnidentified then CodeHandshakeTimeout
     else we_Code (WireErrorFor e))"

text \<open>
  C31. A failed operation is reported once and costs the session only when it must. On a working
  channel the client receives exactly one message: FatalError, and then the handler returns the
  error and ends the channel, exactly for a malformed header or short buffer, a version or
  initialization error, a missing channel, a closed session or too many clients; for every other
  error, any failure of the instrument among them, one Error message, and the channel
  goes on. No session, lock or table entry changes, and the matching counter goes up by one.
\<close>
theorem operation_error_reported:
  assumes "writer_ok (sv_io s) w ch st" "up (sv_io s) st" "ch = ChannelSynchronous \<or> ch = ChannelAsynchronous"
    "Server_reportOperationError s (Some w) e = (s', r)"
  shows "(if \<exists>t \<in> {ErrInvalidPrologue, ErrShortBuffer, ErrProtocolVersion, ErrSessionNotReady,
              ErrInvalidSession, ErrInvalidSubAddress, ErrInvalidInitSequence, ErrMaxClients}. errors_Is e t
     then r = Some e \<and> s' = count_fatal s\<lparr>sv_io := sv_io s'\<rparr> \<and>
       io_out (sv_io s') st = io_out (sv_io s) st @ frame (fatal_header (we_FatalCode (WireErrorFor e))) (Error_text e)
     else r = None \<and> s' = count_nonfatal s\<lparr>sv_io := sv_io s'\<rparr> \<and>
       io_out (sv_io s') st = io_out (sv_io s) st @ frame (error_header (operation_code e)) (Error_text e)) \<and>
    (\<forall>st'. st' \<noteq> st \<longrightarrow> io_out (sv_io s') st' = io_out (sv_io s) st')"
proof -
  have io: "sv_io (count_fatal s) = sv_io s" "sv_io (count_nonfatal s) = sv_io s"
    by (simp_all add: count_fatal_def count_nonfatal_def)
  have st: "mw_stream (io_writers (sv_io s) w) = st" using assms(1) by (simp add: writer_ok_def)
  have cf: "send_fatal (count_fatal s) (Some w) c t =
      (count_fatal s\<lparr>sv_io := sent (sv_io s) w (fatal_header c) t\<rparr>, None)" for c t
    using send_fatal_clean [of "count_fatal s" w ch st] assms(1-3) io by simp
  have cn: "send_error (count_nonfatal s) (Some w) c t =
      (count_nonfatal s\<lparr>sv_io := sent (sv_io s) w (error_header c) t\<rparr>, None)" for c t
    using send_error_clean [of "count_nonfatal s" w ch st] assms(1-3) io by simp
  show ?thesis
    unfolding WireErrorFor_fatal_iff [symmetric] using assms(4)
    by (auto simp: Server_reportOperationError_def operation_code_def cf cn st Let_def split: if_splits)
qed

theorem operation_error_reported_witness:
  "\<exists>s'. Server_reportOperationError (ready_server []) (Some 0) (OtherError [1]) = (s', None) \<and>
     io_out (sv_io s') 1 = frame (error_header CodeHandshakeTimeout) [1] \<and> io_out (sv_io s') 2 = []"
proof -
  obtain s' r where s': "Server_reportOperationError (ready_server []) (Some 0) (OtherError [1]) = (s', r)"
    by (cases "Server_reportOperationError (ready_server []) (Some 0) (OtherError [1])")
  have "operation_code (OtherError [1]) = CodeHandshakeTimeout"
    by (simp add: operation_code_def WireErrorFor_def FatalCodeFor_def ErrorCodeFor_def)
  with operation_error_reported [OF ready_server_io(1,2) _ s'] s' show ?thesis
    by (simp add: ready_server_io ready_server_io [simplified])
qed

text \<open>A complete message for a session that has already taken one is refused before the instrument.\<close>

lemma ReceiveData_refused:
  assumes "hType h = DataEnd" "tx_state (se_tx (sv_heap s p)) = TxInputComplete"
  shows "snd (snd (Server_ReceiveData E s ctx p h b)) = Some ErrInvalidTransition \<and>
    sv_dev (fst (Server_ReceiveData E s ctx p h b)) = sv_dev s \<and>
    se_tx (sv_heap (fst (Server_ReceiveData E s ctx p h b)) p) = se_tx (sv_heap s p)"
  using assms
  by (cases "RMT_ReceivedSyncMessage (se_rmt (sv_heap s p)) (Header_RMTDelivered h)")
    (simp add: Server_ReceiveData_def tx_op_upd Transaction_CompleteInput_def tx_To Let_def)

text \<open>A run of complete messages, each a context state, a header and a payload.\<close>

definition receive_all ::
    "('d, 'x) env \<Rightarrow> nat \<Rightarrow> ('d, 'x) Server \<Rightarrow> (bool \<times> Header \<times> bytes) list \<Rightarrow> ('d, 'x) Server" where
  "receive_all E p = foldl (\<lambda>s (ctx, h, b). fst (Server_ReceiveData E s ctx p h b))"

lemma receive_all_refused:
  assumes "\<forall>(ctx, h, b) \<in> set ms. hType h = DataEnd" "tx_state (se_tx (sv_heap s p)) = TxInputComplete"
  shows "sv_dev (receive_all E p s ms) = sv_dev s \<and> se_tx (sv_heap (receive_all E p s ms) p) = se_tx (sv_heap s p)"
  using assms
proof (induction ms arbitrary: s)
  case (Cons m ms)
  obtain ctx h b where m: "m = (ctx, h, b)" by (cases m)
  have r: "sv_dev (fst (Server_ReceiveData E s ctx p h b)) = sv_dev s"
    "se_tx (sv_heap (fst (Server_ReceiveData E s ctx p h b)) p) = se_tx (sv_heap s p)"
    using ReceiveData_refused [of h s p] Cons.prems m by simp_all
  have "receive_all E p s (m # ms) = receive_all E p (fst (Server_ReceiveData E s ctx p h b)) ms"
    by (simp add: receive_all_def m)
  with Cons.IH [of "fst (Server_ReceiveData E s ctx p h b)"] Cons.prems r show ?case by simp
qed (simp add: receive_all_def)

text \<open>
  C32. A failed write costs the messages after it. When the instrument fails to take a complete
  program message, the error is returned but the session stays in the state of a message that was
  taken: however many complete messages follow, each is refused with
  \<open>ErrInvalidTransition\<close> and none reaches the instrument, until a partial message or a Device
  Clear moves the session on.
\<close>
theorem failed_write_blocks_messages:
  assumes "hType h = DataEnd" "tx_state (se_tx (sv_heap s p)) \<in> {TxIdle, TxReceivingInput}"
    "dev_Write (en_dev E) (sv_dev s) ctx payload True = (d, Some e)"
    "\<forall>(ctx, h, b) \<in> set ms. hType h = DataEnd" "hType h' = DataEnd"
  shows "let (s1, _, err1) = Server_ReceiveData E s ctx p h payload; s2 = receive_all E p s1 ms;
             (s3, _, err3) = Server_ReceiveData E s2 ctx' p h' payload' in
         err1 = Some e \<and> err3 = Some ErrInvalidTransition \<and> sv_dev s3 = d \<and>
         tx_state (se_tx (sv_heap s3 p)) = TxInputComplete"
proof -
  let ?s1 = "fst (Server_ReceiveData E s ctx p h payload)"
  let ?s2 = "receive_all E p ?s1 ms"
  have 1: "snd (snd (Server_ReceiveData E s ctx p h payload)) = Some e" "sv_dev ?s1 = d"
    "tx_state (se_tx (sv_heap ?s1 p)) = TxInputComplete"
    using assms(1-3)
    by (auto simp: Server_ReceiveData_def RMT_ReceivedSyncMessage_def tx_op_upd tx_moves Let_def)
  have 2: "sv_dev ?s2 = d" "tx_state (se_tx (sv_heap ?s2 p)) = TxInputComplete"
    using receive_all_refused [OF assms(4) 1(3)] 1(2,3) by simp_all
  from 1(1) 2 ReceiveData_refused [OF assms(5) 2(2)] show ?thesis
    by (simp add: case_prod_unfold Let_def)
qed

theorem failed_write_blocks_messages_witness:
  "\<exists>s1 i s3 j. Server_ReceiveData \<lparr>en_dev = testdevice_ops, en_pol = no_policy\<rparr>
       (ready_server [] \<lparr>sv_dev := (testdevice_New [])\<lparr>td_Errors := (\<lambda>_. Some (OtherError []))\<rparr>\<rparr>) False 0
       (zero_Header\<lparr>hType := DataEnd\<rparr>) [42] = (s1, i, Some (OtherError [])) \<and>
     Server_ReceiveData \<lparr>en_dev = testdevice_ops, en_pol = no_policy\<rparr> s1 False 0
       (zero_Header\<lparr>hType := DataEnd\<rparr>) [43] = (s3, j, Some ErrInvalidTransition) \<and> sv_dev s3 = sv_dev s1"
proof -
  let ?E = "\<lparr>en_dev = testdevice_ops, en_pol = no_policy\<rparr>" and ?h = "zero_Header\<lparr>hType := DataEnd\<rparr>"
  let ?s = "ready_server [] \<lparr>sv_dev := (testdevice_New [])\<lparr>td_Errors := (\<lambda>_. Some (OtherError []))\<rparr>\<rparr>"
  obtain d where w: "dev_Write (en_dev ?E) (sv_dev ?s) False [42] True = (d, Some (OtherError []))"
    by (simp add: testdevice_ops_def testdevice_Write_def testdevice_fail_def testdevice_record_def)
  have t: "tx_state (se_tx (sv_heap ?s 0)) \<in> {TxIdle, TxReceivingInput}"
    by (simp add: ready_session_def newSession_def zero_Transaction_def)
  obtain s1 i e1 where r1: "Server_ReceiveData ?E ?s False 0 ?h [42] = (s1, i, e1)" by (metis prod_cases3)
  obtain s3 j e3 where r3: "Server_ReceiveData ?E s1 False 0 ?h [43] = (s3, j, e3)" by (metis prod_cases3)
  have "e1 = Some (OtherError []) \<and> e3 = Some ErrInvalidTransition \<and> sv_dev s3 = d"
    using failed_write_blocks_messages [of ?h ?s 0 ?E False "[42]" d "OtherError []" "[]" ?h False "[43]"] w t r1 r3
    by (simp add: receive_all_def)
  moreover have "sv_dev s1 = d"
    using r1 w t by (auto simp: Server_ReceiveData_def RMT_ReceivedSyncMessage_def tx_op_upd tx_moves Let_def)
  ultimately have "Server_ReceiveData ?E ?s False 0 ?h [42] = (s1, i, Some (OtherError [])) \<and>
      Server_ReceiveData ?E s1 False 0 ?h [43] = (s3, j, Some ErrInvalidTransition) \<and> sv_dev s3 = sv_dev s1"
    using r1 r3 by simp
  then show ?thesis by (intro exI)
qed

section \<open>The asynchronous channel\<close>

text \<open>A session whose asynchronous channel is open and writable.\<close>

definition async_ready :: "('d, 'x) Server \<Rightarrow> nat \<Rightarrow> nat \<Rightarrow> nat \<Rightarrow> bool" where
  "async_ready s p a ast \<longleftrightarrow> se_state (sv_heap s p) = StateReady \<and> Version10 \<le> se_version (sv_heap s p) \<and>
     se_asyncW (sv_heap s p) = Some a \<and> writer_ok (sv_io s) a ChannelAsynchronous ast \<and> up (sv_io s) ast"

lemma Accept_async:
  assumes "async_ready s p a ast" "hLength h \<le> se_maxRx (sv_heap s p)"
    "hType h \<in> {AsyncMaximumMessageSize, AsyncStatusQuery, AsyncLock, AsyncLockInfo, AsyncRemoteLocalControl}"
  shows "snd (Server_Accept s (Some p) h ChannelAsynchronous) = None"
proof -
  have "MessageType_MinVersion (hType h) = Version10" using assms(3) by (auto simp: message_lookup)
  then show ?thesis
    unfolding Accept_None_iff using assms by (auto simp: client_messages_def rx_limit_def async_ready_def)
qed

lemma async_send:
  assumes "async_ready s p a ast" "sv_io s' = sv_io s" "MessageType_LegalOn (hType h) ChannelAsynchronous"
    "hLength h = 0 \<or> hLength h = of_nat (length b)"
  obtains s'' where "send s' (Some a) h b = (s'', None)" "sv_heap s'' = sv_heap s'" "sv_dev s'' = sv_dev s'"
    "io_out (sv_io s'') = (io_out (sv_io s))(ast := io_out (sv_io s) ast @ frame h b)"
proof -
  have "mw_stream (io_writers (sv_io s) a) = ast" using assms(1) by (simp add: async_ready_def writer_ok_def)
  moreover have c: "send s' (Some a) h b = (s'\<lparr>sv_io := sent (sv_io s) a h b\<rparr>, None)"
    using send_clean [of s' a ChannelAsynchronous ast h b] assms by (simp add: async_ready_def)
  ultimately show ?thesis by (intro that [OF c]) (auto simp: fun_eq_iff)
qed

text \<open>
  C34. A serial poll answers with the instrument's status byte, its bit 4 replaced by the server's
  own message-available bit and its bit 6 raised when a service request is outstanding, and takes
  that request: the next poll does not report it again. The answer is one message on the
  asynchronous channel and nothing is sent on any other.
\<close>
theorem status_query_reply:
  assumes "async_ready s p a ast" "st_started (se_status (sv_heap s p))" "ms_err msg = None"
    "hType (ms_header msg) = AsyncStatusQuery" "hLength (ms_header msg) \<le> se_maxRx (sv_heap s p)"
    "dev_ReadStatusByte (en_dev E) (sv_dev s) ctx = (d, stb, None)"
  shows "\<exists>s' b. Server_handleAsync E s ctx p msg evs = Some (s', None) \<and> sv_dev s' = d \<and>
     io_out (sv_io s') = (io_out (sv_io s))(ast := io_out (sv_io s) ast @
       frame (zero_Header\<lparr>hType := AsyncStatusResponse, hControl := b\<rparr>) []) \<and>
     (\<forall>n. bit b n \<longleftrightarrow>
        (if n = 4 then Header_MessageID (ms_header msg) = st_lastReceived (se_status (sv_heap s p)) \<and>
           \<not> Header_RMTDelivered (ms_header msg) \<and> st_responsePending (se_status (sv_heap s p))
         else bit stb n \<or> n = 6 \<and> st_srqLatched (se_status (sv_heap s p)))) \<and>
     \<not> st_srqLatched (se_status (sv_heap s' p))"
proof -
  let ?h = "ms_header msg"
  obtain cl where acc: "Server_Accept s (Some p) ?h ChannelAsynchronous = (cl, None)"
    using Accept_async [OF assms(1,5)] assms(4) by (cases "Server_Accept s (Some p) ?h ChannelAsynchronous") simp
  have ready: "Session_requireReady (sv_heap s p) = None" and w: "se_asyncW (sv_heap s p) = Some a"
    using assms(1) by (simp_all add: async_ready_def requireReady_None)
  obtain b s1 where q: "Server_StatusQuery E s ctx p ?h =
      (s1, Inr (zero_Header\<lparr>hType := AsyncStatusResponse, hControl := b\<rparr>))"
    "sv_io s1 = sv_io s" "sv_dev s1 = d" "\<not> st_srqLatched (se_status (sv_heap s1 p))"
    "b = (if st_srqLatched (se_status (sv_heap s p)) then
            snd (Status_Byte (se_status (sv_heap s p)) stb (Header_MessageID ?h) (Header_RMTDelivered ?h)) OR StatusRQS
          else snd (Status_Byte (se_status (sv_heap s p)) stb (Header_MessageID ?h) (Header_RMTDelivered ?h)))"
    using assms(2,4,6) ready
    by (simp add: Server_StatusQuery_def Let_def Status_Byte_started Status_TakeServiceRequest_def)
  let ?s2 = "Server_count s1 (\<lambda>c. c\<lparr>ct_SerialPolls := ct_SerialPolls c + 1\<rparr>)"
  let ?r = "zero_Header\<lparr>hType := AsyncStatusResponse, hControl := b\<rparr>"
  have s2: "sv_io ?s2 = sv_io s" "sv_heap ?s2 = sv_heap s1" "sv_dev ?s2 = d"
    using q(2,3) by (simp_all add: Server_count_def)
  obtain s' where s': "send ?s2 (Some a) ?r [] = (s', None)" "sv_heap s' = sv_heap s1" "sv_dev s' = d"
    "io_out (sv_io s') = (io_out (sv_io s))(ast := io_out (sv_io s) ast @ frame ?r [])"
    using async_send [OF assms(1) s2(1), of ?r "[]"] s2(2,3)
    by (auto simp: zero_Header_def message_lookup MessageType_LegalOn_def)
  have run: "Server_handleAsync E s ctx p msg evs = Some (s', None)"
    using assms(3,4) acc w q(1) s'(1) by (simp add: Server_handleAsync_def Let_def)
  have bits: "bit b n \<longleftrightarrow>
        (if n = 4 then Header_MessageID ?h = st_lastReceived (se_status (sv_heap s p)) \<and>
           \<not> Header_RMTDelivered ?h \<and> st_responsePending (se_status (sv_heap s p))
         else bit stb n \<or> n = 6 \<and> st_srqLatched (se_status (sv_heap s p)))" for n
    unfolding q(5) Status_Byte_started [OF assms(2)]
    by (auto simp: bit_StatusMAV bit_StatusRQS bit_simps dest: bit_imp_le_length)
  show ?thesis using run s'(2-) q(4) bits by auto
qed

lemma ready_server_async: "async_ready (ready_on d) 0 1 2"
proof -
  have "Version10 \<le> Version20" by (simp add: less_eq_Version_def Version_Less_def)
  with ready_server_io [of d] show ?thesis by (simp add: async_ready_def ready_session_def newSession_def)
qed

lemma ready_server_started: "st_started (se_status (sv_heap (ready_on d) 0))"
  by (simp add: ready_session_def newSession_def)

theorem status_query_reply_witness:
  "\<exists>s' b. Server_handleAsync \<lparr>en_dev = testdevice_ops, en_pol = no_policy\<rparr> (ready_server []) False 0
       \<lparr>ms_header = zero_Header\<lparr>hType := AsyncStatusQuery\<rparr>, ms_payload = [], ms_buf = 0, ms_err = None\<rparr> []
       = Some (s', None) \<and>
     io_out (sv_io s') 2 = frame (zero_Header\<lparr>hType := AsyncStatusResponse, hControl := b\<rparr>) [] \<and> \<not> bit b 4"
proof -
  let ?E = "\<lparr>en_dev = testdevice_ops, en_pol = no_policy\<rparr>" and ?s = "ready_server []"
  let ?m = "\<lparr>ms_header = zero_Header\<lparr>hType := AsyncStatusQuery\<rparr>, ms_payload = [], ms_buf = 0, ms_err = None\<rparr>"
  obtain d where r: "dev_ReadStatusByte (en_dev ?E) (sv_dev ?s) False = (d, 0, None)"
    by (simp add: testdevice_ops_def testdevice_ReadStatusByte_def testdevice_fail_def testdevice_record_def
        testdevice_New_def)
  have pending: "\<not> st_responsePending (se_status (sv_heap ?s 0))"
    by (simp add: ready_session_def newSession_def status_defs)
  have "\<exists>s' b. Server_handleAsync ?E ?s False 0 ?m [] = Some (s', None) \<and> sv_dev s' = d \<and>
     io_out (sv_io s') = (io_out (sv_io ?s))(2 := io_out (sv_io ?s) 2 @
       frame (zero_Header\<lparr>hType := AsyncStatusResponse, hControl := b\<rparr>) []) \<and>
     (\<forall>n. bit b n \<longleftrightarrow>
        (if n = 4 then Header_MessageID (ms_header ?m) = st_lastReceived (se_status (sv_heap ?s 0)) \<and>
           \<not> Header_RMTDelivered (ms_header ?m) \<and> st_responsePending (se_status (sv_heap ?s 0))
         else bit (0 :: byte) n \<or> n = 6 \<and> st_srqLatched (se_status (sv_heap ?s 0)))) \<and>
     \<not> st_srqLatched (se_status (sv_heap s' 0))"
    by (rule status_query_reply [OF ready_server_async ready_server_started _ _ _ r])
      (simp_all add: zero_Header_def)
  with pending show ?thesis by (fastforce simp: ready_server_io)
qed

section \<open>Maximum message size\<close>

lemma upt_8: "[0..<8] = [0, 1, 2, 3, 4, 5, 6, 7 :: nat]"
  by (simp add: upt_rec)

lemma decodeMaxSize_Uint64: "8 \<le> length b \<Longrightarrow> decodeMaxSize b = BigEndian_Uint64 b"
  unfolding decodeMaxSize_def BigEndian_Uint64_def upt_8
  by (simp add: push_bit_or ac_simps)

lemma decodeMaxSize_PutUint64: "decodeMaxSize (BigEndian_PutUint64 v @ rest) = v"
proof -
  have "BigEndian_Uint64 (BigEndian_PutUint64 v @ rest) = BigEndian_Uint64 (BigEndian_PutUint64 v)"
    by (simp add: BigEndian_Uint64_def nth_append)
  then show ?thesis by (simp add: decodeMaxSize_Uint64)
qed

lemma putUint64_PutUint64: "length b = 8 \<Longrightarrow> putUint64 b v = BigEndian_PutUint64 v"
  unfolding length_8_conv
  by (auto simp: putUint64_def BigEndian_PutUint64_def numeral_eq_Suc drop_bit_drop_bit)

text \<open>
  C35. The maximum message sizes are exchanged. The client's size is read from the eight
  big-endian bytes it sends and, unless it is below the smallest size the server accepts,
  becomes the limit of what this session is sent; the server answers with its own receive limit in the same
  encoding. Nothing else of any session changes.
\<close>
theorem maximum_size_exchanged:
  assumes "async_ready s p a ast" "ms_err msg = None" "hType (ms_header msg) = AsyncMaximumMessageSize"
    "hLength (ms_header msg) \<le> se_maxRx (sv_heap s p)" "ms_payload msg = BigEndian_PutUint64 v @ rest"
  shows "\<exists>s'. Server_handleAsync E s ctx p msg evs = Some (s', None) \<and> sv_dev s' = sv_dev s \<and>
     sv_heap s' = (sv_heap s)(p := (sv_heap s p)\<lparr>se_maxTx := if 256 \<le> v then v else se_maxTx (sv_heap s p)\<rparr>) \<and>
     io_out (sv_io s') = (io_out (sv_io s))(ast := io_out (sv_io s) ast @
       frame (zero_Header\<lparr>hType := AsyncMaximumMessageSizeResponse\<rparr>)
         (BigEndian_PutUint64 (cf_MaxRxPayload (sv_cfg s))))"
proof -
  let ?h = "ms_header msg" and ?r = "zero_Header\<lparr>hType := AsyncMaximumMessageSizeResponse, hLength := 8\<rparr>"
  let ?b = "BigEndian_PutUint64 (cf_MaxRxPayload (sv_cfg s))"
  let ?s1 = "if 256 \<le> v then upd s p (\<lambda>se. se\<lparr>se_maxTx := v\<rparr>) else s"
  obtain cl where acc: "Server_Accept s (Some p) ?h ChannelAsynchronous = (cl, None)"
    using Accept_async [OF assms(1,4)] assms(3) by (cases "Server_Accept s (Some p) ?h ChannelAsynchronous") simp
  have w: "se_asyncW (sv_heap s p) = Some a" using assms(1) by (simp add: async_ready_def)
  have m: "Server_MaximumMessageSize s (Some p) v = (?s1, ?r, cf_MaxRxPayload (sv_cfg s))"
    by (simp add: Server_MaximumMessageSize_def)
  have s1: "sv_io ?s1 = sv_io s" "sv_dev ?s1 = sv_dev s" "sv_heap ?s1 =
      (sv_heap s)(p := (sv_heap s p)\<lparr>se_maxTx := if 256 \<le> v then v else se_maxTx (sv_heap s p)\<rparr>)"
    by (auto simp: upd_def)
  obtain s' where s': "send ?s1 (Some a) ?r ?b = (s', None)" "sv_heap s' = sv_heap ?s1" "sv_dev s' = sv_dev s"
    "io_out (sv_io s') = (io_out (sv_io s))(ast := io_out (sv_io s) ast @ frame ?r ?b)"
    using async_send [OF assms(1) s1(1), of ?r ?b] s1(2) by (auto simp: message_lookup)
  have "Server_handleAsync E s ctx p msg evs = Some (s', None)"
    using assms(2,3,5) acc w m s'(1)
    by (simp add: Server_handleAsync_def Let_def decodeMaxSize_PutUint64 putUint64_PutUint64)
  moreover have "frame ?r ?b = frame (zero_Header\<lparr>hType := AsyncMaximumMessageSizeResponse\<rparr>) ?b"
    by (simp add: frame_def)
  ultimately show ?thesis using s'(2-) s1(3) by auto
qed

theorem maximum_size_exchanged_witness:
  "\<exists>s'. Server_handleAsync \<lparr>en_dev = testdevice_ops, en_pol = no_policy\<rparr> (ready_server []) False 0
       \<lparr>ms_header = zero_Header\<lparr>hType := AsyncMaximumMessageSize, hLength := 8\<rparr>,
        ms_payload = [0, 0, 0, 0, 0, 0, 4, 0], ms_buf = 0, ms_err = None\<rparr> [] = Some (s', None) \<and>
     se_maxTx (sv_heap s' 0) = 1024"
proof -
  let ?m = "\<lparr>ms_header = zero_Header\<lparr>hType := AsyncMaximumMessageSize, hLength := 8\<rparr>,
        ms_payload = [0, 0, 0, 0, 0, 0, 4, 0], ms_buf = 0, ms_err = None\<rparr>"
  have pl: "ms_payload ?m = BigEndian_PutUint64 1024 @ []" by (simp add: BigEndian_PutUint64_def)
  have len: "hLength (ms_header ?m) \<le> se_maxRx (sv_heap (ready_server []) 0)"
    by (simp add: ready_session_def newSession_def zero_Config_def)
  from maximum_size_exchanged [OF ready_server_async _ _ len pl] show ?thesis by fastforce
qed

end
