(* ===== verification/Instrument.thy ===== *)
theory Instrument
  imports Operations Go_Strings
begin

text \<open>
  The simulated instrument of \<open>examples/server/main.go\<close> and how its responses are read in pieces.
  Reading and printing a floating-point voltage is an argument of the definitions; the
  log has no effect on anything else and is left out.
\<close>

section \<open>The instrument\<close>

record 'f float_ops =
  fl_zero :: 'f
  fl_ParseFloat :: "bytes \<Rightarrow> 'f option"
  fl_FormatE6 :: "'f \<Rightarrow> bytes"

record 'f instrument =
  in_input :: bytes
  in_response :: bytes
  in_status :: byte
  in_esr :: byte
  in_voltage :: 'f
  in_triggered :: nat

definition statusESB :: byte where "statusESB = push_bit 5 1"
definition esrCME :: byte where "esrCME = push_bit 5 1"

definition instrument_reply :: "'f instrument \<Rightarrow> bytes \<Rightarrow> 'f instrument" where
  "instrument_reply d s = d\<lparr>in_response := in_response d @ s @ [0x0A]\<rparr>"

definition instrument_commandError :: "'f instrument \<Rightarrow> 'f instrument" where
  "instrument_commandError d = d\<lparr>in_esr := in_esr d OR esrCME, in_status := in_status d OR statusESB\<rparr>"

text \<open>The decimal rendering \<open>%04d\<close>.\<close>

definition pad4 :: "bytes \<Rightarrow> bytes" where
  "pad4 s = replicate (4 - length s) 0x30 @ s"

definition instrument_executeOne :: "'f float_ops \<Rightarrow> 'f instrument \<Rightarrow> bytes \<Rightarrow> 'f instrument" where
  "instrument_executeOne fl d cmd =
     (let upper = ToUpper cmd in
      if upper = ascii ''*IDN?'' then instrument_reply d (ascii ''GoTMC,HiSLIP Simulated Instrument,0,0.1.0'')
      else if upper = ascii ''*RST''
      then d\<lparr>in_voltage := fl_zero fl, in_triggered := 0, in_esr := 0, in_status := 0\<rparr>
      else if upper = ascii ''*CLS'' then d\<lparr>in_esr := 0, in_status := in_status d AND NOT statusESB\<rparr>
      else if upper = ascii ''*OPC?'' then instrument_reply d (ascii ''1'')
      else if upper = ascii ''*ESR?''
      then (instrument_reply d (Itoa (unat (in_esr d))))\<lparr>in_esr := 0, in_status := in_status d AND NOT statusESB\<rparr>
      else if upper = ascii ''*STB?'' then instrument_reply d (Itoa (unat (in_status d)))
      else if upper = ascii ''*TST?'' then instrument_reply d (ascii ''0'')
      else if upper = ascii ''SYST:ERR?'' \<or> upper = ascii ''SYSTEM:ERROR?''
      then (if in_esr d AND esrCME \<noteq> 0
            then (instrument_reply d (ascii ''-113,\"Undefined header\"''))\<lparr>in_esr := in_esr d AND NOT esrCME\<rparr>
            else instrument_reply d (ascii ''0,\"No error\"''))
      else if upper = ascii ''MEAS:VOLT?'' \<or> upper = ascii ''MEASURE:VOLTAGE?''
      then instrument_reply d (fl_FormatE6 fl (in_voltage d))
      else if upper = ascii ''TRIG:COUNT?'' then instrument_reply d (Itoa (in_triggered d))
      else if HasPrefix upper (ascii ''SOUR:VOLT '') \<or> HasPrefix upper (ascii ''SOURCE:VOLTAGE '')
      then (let fields = Fields cmd in
            if length fields = 2
            then (case fl_ParseFloat fl (fields ! 1) of
                    Some v \<Rightarrow> d\<lparr>in_voltage := v\<rparr>
                  | None \<Rightarrow> instrument_commandError d)
            else instrument_commandError d)
      else if upper = ascii ''CURV?'' \<or> upper = ascii ''WAV:DATA?''
      then (let payload = map of_nat [0..<4096];
                header = ascii ''#4'' @ pad4 (Itoa (length payload))
            in d\<lparr>in_response := in_response d @ header @ payload @ [0x0A]\<rparr>)
      else instrument_commandError d)"

definition instrument_execute :: "'f float_ops \<Rightarrow> 'f instrument \<Rightarrow> bytes \<Rightarrow> 'f instrument" where
  "instrument_execute fl d program =
     foldl (\<lambda>d cmd. let cmd = TrimSpace cmd in if cmd = [] then d else instrument_executeOne fl d cmd)
       d (SplitSeq program 0x3B)"

definition instrument_Write ::
    "'f float_ops \<Rightarrow> 'f instrument \<Rightarrow> bool \<Rightarrow> bytes \<Rightarrow> bool \<Rightarrow> 'f instrument \<times> gerror option" where
  "instrument_Write fl d ctx p end' =
     (let d = d\<lparr>in_input := in_input d @ p\<rparr> in
      if \<not> end' then (d, None)
      else
        let program = TrimRight (in_input d) [0x0D, 0x0A];
            d = d\<lparr>in_input := []\<rparr>
        in (instrument_execute fl d program, None))"

definition instrument_Read ::
    "'f instrument \<Rightarrow> bool \<Rightarrow> nat \<Rightarrow> 'f instrument \<times> bytes \<times> bool \<times> gerror option" where
  "instrument_Read d ctx len =
     (if in_response d = []
      then (d, [], False, Some (OtherError (ascii ''instrument: no response available'')))
      else
        let p = take len (in_response d);
            d = d\<lparr>in_response := drop (length p) (in_response d)\<rparr>
        in (d, p, in_response d = [], None))"

definition instrument_Clear :: "'f instrument \<Rightarrow> bool \<Rightarrow> 'f instrument \<times> gerror option" where
  "instrument_Clear d ctx = (d\<lparr>in_input := [], in_response := []\<rparr>, None)"

definition instrument_Trigger :: "'f instrument \<Rightarrow> bool \<Rightarrow> 'f instrument \<times> gerror option" where
  "instrument_Trigger d ctx = (d\<lparr>in_triggered := in_triggered d + 1\<rparr>, None)"

definition instrument_ReadStatusByte :: "'f instrument \<Rightarrow> bool \<Rightarrow> 'f instrument \<times> byte \<times> gerror option" where
  "instrument_ReadStatusByte d ctx = (d, in_status d, None)"

definition instrument_RemoteLocal ::
    "'f instrument \<Rightarrow> bool \<Rightarrow> RemoteLocalMode \<Rightarrow> 'f instrument \<times> gerror option" where
  "instrument_RemoteLocal d ctx mode = (d, None)"

definition instrument_DeviceName :: bytes where
  "instrument_DeviceName = ascii ''GoTMC HiSLIP Simulated Instrument''"

text \<open>The instrument as a device, and one that has just been switched on.\<close>

definition instrument_ops :: "'f float_ops \<Rightarrow> 'f instrument Device" where
  "instrument_ops fl = \<lparr>dev_Write = instrument_Write fl, dev_Read = instrument_Read,
     dev_Clear = instrument_Clear, dev_Trigger = instrument_Trigger,
     dev_ReadStatusByte = instrument_ReadStatusByte, dev_RemoteLocal = instrument_RemoteLocal\<rparr>"

definition zero_instrument :: "'f float_ops \<Rightarrow> 'f instrument" where
  "zero_instrument fl = \<lparr>in_input = [], in_response = [], in_status = 0, in_esr = 0,
     in_voltage = fl_zero fl, in_triggered = 0\<rparr>"

section \<open>Lemmas\<close>

text \<open>The instrument keeps the contract of a device that ends its responses.\<close>

interpretation ins: responding_device instrument_Read "\<lambda>d. length (in_response d)"
proof (unfold_locales, goal_cases)
  case (2 d ctx n d' bs)
  then show ?case by (auto simp: instrument_Read_def Let_def split: if_splits)
qed (auto simp: instrument_Read_def Let_def split: if_splits)

text \<open>Reading a response through a buffer gives it in pieces of the size of the buffer.\<close>

lemma chunks_step: "0 < n \<Longrightarrow> xs \<noteq> [] \<Longrightarrow> chunks n xs = take n xs # chunks n (drop n xs)"
  by (subst chunks.simps) simp

lemma chunks_not_Nil: "0 < n \<Longrightarrow> xs \<noteq> [] \<Longrightarrow> chunks n xs \<noteq> []"
  by (simp add: chunks_step)

lemma instrument_reads:
  assumes "0 < n" "in_response d \<noteq> []"
  shows "response_reads instrument_Read ctx n d (butlast (chunks n (in_response d)))
    (d\<lparr>in_response := []\<rparr>, last (chunks n (in_response d)), True, None)"
  using assms
proof (induction "length (in_response d)" arbitrary: d rule: less_induct)
  case less
  let ?r = "in_response d"
  let ?d = "d\<lparr>in_response := drop n ?r\<rparr>"
  have rd: "instrument_Read d ctx n = (?d, take n ?r, drop n ?r = [], None)"
    using less.prems by (cases "n \<le> length ?r") (simp_all add: instrument_Read_def Let_def min_def)
  note c = chunks_step [OF less.prems]
  show ?case
  proof (cases "drop n ?r = []")
    case True
    then have "?d = d\<lparr>in_response := []\<rparr>" by simp
    with rd True show ?thesis unfolding c by (simp add: response_reads.last_read)
  next
    case False
    have "response_reads instrument_Read ctx n ?d (butlast (chunks n (drop n ?r)))
      (d\<lparr>in_response := []\<rparr>, last (chunks n (drop n ?r)), True, None)"
      using less.hyps [of ?d] less.prems False by simp
    with rd False show ?thesis
      unfolding c using chunks_not_Nil [OF less.prems(1) False] by (simp add: response_reads.more_read)
  qed
qed

lemma instrument_no_response:
  assumes "in_response d = []"
  shows "response_reads instrument_Read ctx n d []
    (d, [], False, Some (OtherError (ascii ''instrument: no response available'')))"
  using assms by (intro response_reads.last_read) (simp_all add: instrument_Read_def)

text \<open>A program message may arrive in any number of pieces.\<close>

lemma instrument_pieces:
  "foldl (\<lambda>d p. fst (instrument_Write fl d ctx p False)) d ps = d\<lparr>in_input := in_input d @ concat ps\<rparr>"
  by (induction ps arbitrary: d) (simp_all add: instrument_Write_def)

end
