(* ===== verification/Conversation.thy ===== *)
theory Conversation
  imports Instrument
begin

text \<open>
  A whole session in front of the simulated instrument. The abstract machine of this theory knows
  nothing of transactions, operations or status trackers: an instrument, a policy, and for
  every message what goes out on the two channels. The synchronous loop of the server implements it.
\<close>

section \<open>The abstract machine\<close>

text \<open>The messages of a response, which may be announced as interrupted at its end.\<close>

definition reply_messages :: "MessageID \<Rightarrow> nat \<Rightarrow> bytes \<Rightarrow> bool \<Rightarrow> (Header \<times> bytes) list" where
  "reply_messages i n r queued =
     (if r = [] then [(error_header CodeResponseTimeout, ascii ''no response from instrument''), (end_header i, [])]
      else map (\<lambda>b. (data_header i, b)) (butlast (chunks n r)) @
        [if queued then (zero_Header\<lparr>hType := Interrupted, hParameter := i\<rparr>, [])
         else (end_header i, last (chunks n r))])"

type_synonym ('f, 'x) talk = "'f instrument \<times> 'x ResponsePolicy"

definition taken :: "'x policy_ops \<Rightarrow> 'f float_ops \<Rightarrow> ('f, 'x) talk \<Rightarrow> loop_input \<Rightarrow> ('f, 'x) talk" where
  "taken ops fl t i =
     (let b = ms_payload (li_msg i) in
      (fst (instrument_Write fl (fst t) False b (hType (ms_header (li_msg i)) = DataEnd)),
       if b = [] then snd t else ResponsePolicy_Feed ops (snd t) b))"

definition exchange :: "'x policy_ops \<Rightarrow> 'f float_ops \<Rightarrow> nat \<Rightarrow> ('f, 'x) talk \<Rightarrow> loop_input \<Rightarrow>
    ('f, 'x) talk \<times> (Header \<times> bytes) list \<times> (Header \<times> bytes) list" where
  "exchange ops fl n t i =
     (let h = ms_header (li_msg i); (d, pol) = taken ops fl t i in
      if hType h \<noteq> DataEnd then ((d, pol), [], [])
      else if ResponsePolicy_Disposition ops pol \<noteq> ResponseExpected then ((d, ResponsePolicy_Reset ops pol), [], [])
      else ((d\<lparr>in_response := []\<rparr>, ResponsePolicy_Reset ops pol),
            reply_messages (Header_MessageID h) n (in_response d) (li_queued i),
            async_messages (Header_MessageID h) (in_response d = []) (li_queued i)))"

fun exchanges :: "'x policy_ops \<Rightarrow> 'f float_ops \<Rightarrow> nat \<Rightarrow> ('f, 'x) talk \<Rightarrow> loop_input list \<Rightarrow>
    ('f, 'x) talk \<times> (Header \<times> bytes) list \<times> (Header \<times> bytes) list" where
  "exchanges ops fl n t [] = (t, [], [])"
| "exchanges ops fl n t (i # is) =
     (let (t, ms, ams) = exchange ops fl n t i; (t, ms', ams') = exchanges ops fl n t is in (t, ms @ ms', ams @ ams'))"

text \<open>No reply is longer than a counter of 64 bits can tell.\<close>

fun replies_fit :: "'x policy_ops \<Rightarrow> 'f float_ops \<Rightarrow> nat \<Rightarrow> ('f, 'x) talk \<Rightarrow> loop_input list \<Rightarrow> bool" where
  "replies_fit ops fl n t [] \<longleftrightarrow> True"
| "replies_fit ops fl n t (i # is) \<longleftrightarrow> int (length (in_response (fst (taken ops fl t i)))) < 2 ^ 64 \<and>
     replies_fit ops fl n (fst (exchange ops fl n t i)) is"

text \<open>A message of a program that arrives in order.\<close>

definition program_input :: "uint64 \<Rightarrow> loop_input \<Rightarrow> bool" where
  "program_input limit i \<longleftrightarrow> \<not> li_done i \<and> ms_err (li_msg i) = None \<and> hLength (ms_header (li_msg i)) \<le> limit \<and>
     (hType (ms_header (li_msg i)) = Data \<or> hType (ms_header (li_msg i)) = DataEnd)"

text \<open>A session that is in a talk.\<close>

definition attending :: "('f instrument, 'x) Server \<Rightarrow> nat \<Rightarrow> nat \<Rightarrow> nat \<Rightarrow> uint64 \<Rightarrow> uint64 \<Rightarrow> ('f, 'x) talk \<Rightarrow> bool" where
  "attending s p st ast rx tx t \<longleftrightarrow> answering s p st ast \<and> se_maxRx (sv_heap s p) = rx \<and> se_maxTx (sv_heap s p) = tx \<and>
     sv_dev s = fst t \<and> se_policy (sv_heap s p) = Some (snd t)"

section \<open>Lemmas\<close>

lemma data_messages_chunks:
  "data_messages i (butlast (chunks n r)) = map (\<lambda>b. (data_header i, b)) (butlast (chunks n r))"
proof -
  have "filter (\<lambda>b. b \<noteq> []) (butlast (chunks n r)) = butlast (chunks n r)"
    by (rule filter_True) (auto dest!: in_set_butlastD length_chunks)
  then show ?thesis by (simp add: data_messages_def)
qed

lemma reply_reads:
  assumes "0 < n"
  obtains pieces bs e err where
    "response_reads instrument_Read ctx n d pieces (d\<lparr>in_response := []\<rparr>, bs, e, err)"
    "data_messages i pieces @ last_messages i (concat pieces) bs (err \<noteq> None) q = reply_messages i n (in_response d) q"
    "err \<noteq> None \<longleftrightarrow> in_response d = []" "length (concat pieces @ bs) = length (in_response d)"
proof (cases "in_response d = []")
  case True
  then have e: "d\<lparr>in_response := []\<rparr> = d" by simp
  show ?thesis
  proof (rule that)
    show "response_reads instrument_Read ctx n d [] (d\<lparr>in_response := []\<rparr>, [], False,
        Some (OtherError (ascii ''instrument: no response available'')))"
      unfolding e by (rule instrument_no_response [OF True])
  qed (use True in \<open>simp_all add: data_messages_def last_messages_def reply_messages_def del: ascii_Cons\<close>)
next
  case False
  have "concat (butlast (chunks n (in_response d))) @ last (chunks n (in_response d)) = in_response d"
    using concat_chunks [OF assms, of "in_response d"] chunks_not_Nil [OF assms False]
    by (metis append_butlast_last_id concat.simps concat_append append_Nil2)
  with that [OF instrument_reads [OF assms False]] False show ?thesis
    by (simp add: data_messages_chunks last_messages_def reply_messages_def)
qed

lemma profile_eqD:
  "profile se' = profile se \<Longrightarrow> se_maxRx se' = se_maxRx se \<and> se_maxTx se' = se_maxTx se \<and> se_pending se' = se_pending se"
  by (simp add: profile_def)

text \<open>The policy of a session in a talk.\<close>

lemma feed_policy:
  "se_policy se = Some pol \<Longrightarrow> se_policy (Session_feedProgramMessage ops se b) =
     Some (if b = [] then pol else ResponsePolicy_Feed ops pol b)"
  by (simp add: Session_feedProgramMessage_def)

lemma policy_decision:
  assumes "se_policy se = Some pol"
  shows "expects_response ops se b \<longleftrightarrow>
      ResponsePolicy_Disposition ops (if b = [] then pol else ResponsePolicy_Feed ops pol b) = ResponseExpected"
    "policy_after ops se b = Some (ResponsePolicy_Reset ops (if b = [] then pol else ResponsePolicy_Feed ops pol b))"
  using feed_policy [OF assms, of ops b]
  by (simp_all add: expects_response_def policy_after_def Session_programDisposition_def)

lemma instrument_Write_ok:
  "instrument_Write fl d ctx b e = (fst (instrument_Write fl d False b e), None)"
  by (simp add: instrument_Write_def Let_def)

text \<open>A query.\<close>

lemma reply_step:
  assumes "answering s p st ast" "hType h = DataEnd" "hLength h \<le> se_maxRx (sv_heap s p)"
    "dev_Write (en_dev E) (sv_dev s) ctx payload True = (d, None)"
    "expects_response (en_pol E) (sv_heap s p) payload" "0 < buf" "buf < 2 ^ 64"
    "en_dev E = instrument_ops fl" "length (in_response d) < 2 ^ 64" "se_pending (sv_heap s p)"
  shows "\<exists>s'. Server_handleSync E s ctx p \<lparr>ms_header = h, ms_payload = payload, ms_buf = b, ms_err = None\<rparr>
       buf q = Some (s', None) \<and>
     io_out (sv_io s') st = io_out (sv_io s) st @
       wire (reply_messages (Header_MessageID h) (responseScratch buf (se_maxTx (sv_heap s p))) (in_response d) q) \<and>
     io_out (sv_io s') ast = io_out (sv_io s) ast @ wire (async_messages (Header_MessageID h) (in_response d = []) q) \<and>
     sv_dev s' = d\<lparr>in_response := []\<rparr> \<and> answering s' p st ast \<and> profile (sv_heap s' p) = profile (sv_heap s p) \<and>
     se_policy (sv_heap s' p) = policy_after (en_pol E) (sv_heap s p) payload"
proof -
  let ?n = "responseScratch buf (se_maxTx (sv_heap s p))" and ?ctx = "ctx \<or> sv_nops s \<in> sv_cancelled s"
  obtain pieces bs e err where
    r: "response_reads instrument_Read ?ctx ?n d pieces (d\<lparr>in_response := []\<rparr>, bs, e, err)"
      "data_messages (Header_MessageID h) pieces @ last_messages (Header_MessageID h) (concat pieces) bs (err \<noteq> None) q =
       reply_messages (Header_MessageID h) ?n (in_response d) q"
      "err \<noteq> None \<longleftrightarrow> in_response d = []" "length (concat pieces @ bs) = length (in_response d)"
    by (rule reply_reads [OF answering_scratch(1) [OF assms(1,6,7)]])
  have rd: "instrument_Read = dev_Read (en_dev E)" by (simp add: assms(8) instrument_ops_def)
  have len: "length (concat pieces @ bs) < 2 ^ 64" using r(4) assms(9) by simp
  have q: "q \<longleftrightarrow> se_pending (sv_heap s p) \<and> q" using assms(10) by simp
  from handle_query [OF assms(1-7) r(1) [unfolded rd] len q, of b] show ?thesis
    unfolding r(2) unfolding r(3) by blast
qed

text \<open>One message.\<close>

lemma exchange_step:
  assumes "attending s p st ast rx tx t \<and> se_pending (sv_heap s p)" "program_input rx i" "en_dev E = instrument_ops fl" "0 < buf" "buf < 2 ^ 64"
    "length (in_response (fst (taken (en_pol E) fl t i))) < 2 ^ 64"
    "exchange (en_pol E) fl (responseScratch buf tx) t i = (t', ms, ams)"
  obtains s' where "Server_handleSync E s (li_ctx i) p (li_msg i) buf (li_queued i) = Some (s', None)"
    "attending s' p st ast rx tx t' \<and> se_pending (sv_heap s' p)" "io_out (sv_io s') st = io_out (sv_io s) st @ wire ms"
    "io_out (sv_io s') ast = io_out (sv_io s) ast @ wire ams"
proof -
  let ?h = "ms_header (li_msg i)" and ?b = "ms_payload (li_msg i)" and ?n = "responseScratch buf tx"
  let ?pol = "if ?b = [] then snd t else ResponsePolicy_Feed (en_pol E) (snd t) ?b"
  have msg: "li_msg i = \<lparr>ms_header = ?h, ms_payload = ?b, ms_buf = ms_buf (li_msg i), ms_err = None\<rparr>"
    using assms(2) by (cases "li_msg i") (simp add: program_input_def)
  have a: "answering s p st ast" "hLength ?h \<le> se_maxRx (sv_heap s p)" "se_policy (sv_heap s p) = Some (snd t)"
    "sv_dev s = fst t" "se_maxTx (sv_heap s p) = tx" "se_maxRx (sv_heap s p) = rx" "se_pending (sv_heap s p)"
    using assms(1,2) by (simp_all add: attending_def program_input_def)
  define d1 where "d1 = fst (instrument_Write fl (fst t) False ?b (hType ?h = DataEnd))"
  have w: "dev_Write (en_dev E) (sv_dev s) (li_ctx i) ?b (hType ?h = DataEnd) = (d1, None)"
    unfolding assms(3) a(4) d1_def using instrument_Write_ok by (simp add: instrument_ops_def)
  have tk: "taken (en_pol E) fl t i = (d1, ?pol)" by (simp add: taken_def d1_def Let_def)
  consider (part) "hType ?h = Data"
    | (command) "hType ?h = DataEnd" "ResponsePolicy_Disposition (en_pol E) ?pol \<noteq> ResponseExpected"
    | (query) "hType ?h = DataEnd" "ResponsePolicy_Disposition (en_pol E) ?pol = ResponseExpected"
    using assms(2) by (auto simp: program_input_def)
  then show ?thesis
  proof cases
    case part
    then have "dev_Write (en_dev E) (sv_dev s) (li_ctx i) ?b False = (d1, None)" using w by simp
    from handle_part [OF a(1) part a(2) this, of "ms_buf (li_msg i)" buf "li_queued i"] obtain s' where
      s': "Server_handleSync E s (li_ctx i) p (li_msg i) buf (li_queued i) = Some (s', None)"
        "sv_io s' = sv_io s" "sv_dev s' = d1" "answering s' p st ast" "profile (sv_heap s' p) = profile (sv_heap s p)"
        "se_policy (sv_heap s' p) = Some ?pol"
      unfolding msg [symmetric] feed_policy [OF a(3)] by blast
    have "(t', ms, ams) = ((d1, ?pol), [], [])" using assms(7) part tk by (simp add: exchange_def Let_def)
    with that [OF s'(1)] s' profile_eqD [OF s'(5)] a show ?thesis by (simp add: attending_def)
  next
    case command
    then have "dev_Write (en_dev E) (sv_dev s) (li_ctx i) ?b True = (d1, None)"
      "\<not> expects_response (en_pol E) (sv_heap s p) ?b"
      using w by (simp_all add: policy_decision(1) [OF a(3)])
    from handle_command [OF a(1) command(1) a(2) this, of "ms_buf (li_msg i)" buf "li_queued i"] obtain s' where
      s': "Server_handleSync E s (li_ctx i) p (li_msg i) buf (li_queued i) = Some (s', None)"
        "sv_io s' = sv_io s" "sv_dev s' = d1" "answering s' p st ast" "profile (sv_heap s' p) = profile (sv_heap s p)"
        "se_policy (sv_heap s' p) = Some (ResponsePolicy_Reset (en_pol E) ?pol)"
      unfolding msg [symmetric] policy_decision(2) [OF a(3)] by blast
    have "(t', ms, ams) = ((d1, ResponsePolicy_Reset (en_pol E) ?pol), [], [])"
      using assms(7) command tk by (simp add: exchange_def Let_def)
    with that [OF s'(1)] s' profile_eqD [OF s'(5)] a show ?thesis by (simp add: attending_def)
  next
    case query
    then have w': "dev_Write (en_dev E) (sv_dev s) (li_ctx i) ?b True = (d1, None)"
      "expects_response (en_pol E) (sv_heap s p) ?b"
      using w by (simp_all add: policy_decision(1) [OF a(3)])
    have "length (in_response d1) < 2 ^ 64" using assms(6) unfolding tk by simp
    from reply_step [OF a(1) query(1) a(2) w' assms(4,5,3) this a(7), of "ms_buf (li_msg i)" "li_queued i"] obtain s' where
      s': "Server_handleSync E s (li_ctx i) p (li_msg i) buf (li_queued i) = Some (s', None)"
        "io_out (sv_io s') st = io_out (sv_io s) st @ wire (reply_messages (Header_MessageID ?h) ?n (in_response d1) (li_queued i))"
        "io_out (sv_io s') ast = io_out (sv_io s) ast @
           wire (async_messages (Header_MessageID ?h) (in_response d1 = []) (li_queued i))"
        "sv_dev s' = d1\<lparr>in_response := []\<rparr>" "answering s' p st ast" "profile (sv_heap s' p) = profile (sv_heap s p)"
        "se_policy (sv_heap s' p) = Some (ResponsePolicy_Reset (en_pol E) ?pol)"
      unfolding msg [symmetric] policy_decision(2) [OF a(3)] a(5) by blast
    have "(t', ms, ams) = ((d1\<lparr>in_response := []\<rparr>, ResponsePolicy_Reset (en_pol E) ?pol),
        reply_messages (Header_MessageID ?h) ?n (in_response d1) (li_queued i),
        async_messages (Header_MessageID ?h) (in_response d1 = []) (li_queued i))"
      using assms(7) query tk by (simp add: exchange_def Let_def)
    with that [OF s'(1)] s' profile_eqD [OF s'(6)] a show ?thesis by (simp add: attending_def)
  qed
qed

text \<open>The loop.\<close>

lemma exchanges_run:
  assumes "attending s p st ast rx tx t \<and> se_pending (sv_heap s p)" "en_dev E = instrument_ops fl" "0 < buf" "buf < 2 ^ 64"
    "list_all (program_input rx) is" "replies_fit (en_pol E) fl (responseScratch buf tx) t is"
    "exchanges (en_pol E) fl (responseScratch buf tx) t is = (t', ms, ams)"
  shows "\<exists>s'. runSync_loop E s p buf is = Some (s', None) \<and> attending s' p st ast rx tx t' \<and>
    io_out (sv_io s') st = io_out (sv_io s) st @ wire ms \<and> io_out (sv_io s') ast = io_out (sv_io s) ast @ wire ams"
  using assms(1,5-7)
proof (induction "is" arbitrary: s t ms ams)
  case (Cons i rest)
  obtain t1 ms1 ams1 where x: "exchange (en_pol E) fl (responseScratch buf tx) t i = (t1, ms1, ams1)"
    by (metis prod_cases3)
  obtain ms2 ams2 where y: "exchanges (en_pol E) fl (responseScratch buf tx) t1 rest = (t', ms2, ams2)"
    "ms = ms1 @ ms2" "ams = ams1 @ ams2"
    using Cons.prems(4) x by (auto split: prod.splits)
  have i: "program_input rx i" "length (in_response (fst (taken (en_pol E) fl t i))) < 2 ^ 64"
    "list_all (program_input rx) rest" "replies_fit (en_pol E) fl (responseScratch buf tx) t1 rest"
    using Cons.prems(2,3) x by simp_all
  obtain s1 where s1: "Server_handleSync E s (li_ctx i) p (li_msg i) buf (li_queued i) = Some (s1, None)"
    "attending s1 p st ast rx tx t1 \<and> se_pending (sv_heap s1 p)" "io_out (sv_io s1) st = io_out (sv_io s) st @ wire ms1"
    "io_out (sv_io s1) ast = io_out (sv_io s) ast @ wire ams1"
    by (rule exchange_step [OF Cons.prems(1) i(1) assms(2-4) i(2) x])
  from Cons.IH [OF s1(2) i(3,4) y(1)] show ?case
    using s1(1,3,4) y(2,3) i(1) by (auto simp: program_input_def)
qed simp

lemma runSync_exchanges:
  assumes "attending s p st ast rx tx t" "en_dev E = instrument_ops fl" "0 < cf_MaxTxPayload (sv_cfg s)"
    "n = responseScratch (unat (cf_MaxTxPayload (sv_cfg s))) tx" "list_all (program_input rx) is"
    "replies_fit (en_pol E) fl n t is" "exchanges (en_pol E) fl n t is = (t', ms, ams)"
  shows "\<exists>s'. Server_runSync E s p is = Some (s', None) \<and> attending s' p st ast rx tx t' \<and>
    io_out (sv_io s') st = io_out (sv_io s) st @ wire ms \<and> io_out (sv_io s') ast = io_out (sv_io s) ast @ wire ams"
proof -
  let ?s = "upd s p (\<lambda>se. se\<lparr>se_pending := True\<rparr>)"
  have "attending ?s p st ast rx tx t \<and> se_pending (sv_heap ?s p)"
    using assms(1) by (auto simp add: attending_def answering_def)
  moreover have "0 < unat (cf_MaxTxPayload (sv_cfg s))" using assms(3) by (simp add: unat_gt_0)
  moreover have "unat (cf_MaxTxPayload (sv_cfg s)) < 2 ^ 64" using unsigned_less [of "cf_MaxTxPayload (sv_cfg s)"] by simp
  ultimately show ?thesis
    using exchanges_run [of ?s p st ast rx tx t E fl _ "is" t' ms ams] assms(2,4-7)
    by (simp add: Server_runSync_def Let_def)
qed

section \<open>Properties\<close>

text \<open>
  C1. The synchronous loop implements the abstract machine. For any program of messages in order, of
  any length and cut into parts in any way, the loop of a session in front of the simulated instrument
  runs to its end without an error, has written on the two channels exactly the messages the
  machine of the instrument and the policy alone gives, in their order and no others, and leaves a
  session that is ready for more, with the instrument and the policy as the machine leaves them.
\<close>
theorem conversation_refined:
  assumes "attending s p st ast rx tx t" "en_dev E = instrument_ops fl" "0 < cf_MaxTxPayload (sv_cfg s)"
    "n = responseScratch (unat (cf_MaxTxPayload (sv_cfg s))) tx" "list_all (program_input rx) is"
    "replies_fit (en_pol E) fl n t is" "exchanges (en_pol E) fl n t is = (t', ms, ams)"
  shows "\<exists>s'. Server_runSync E s p is = Some (s', None) \<and> attending s' p st ast rx tx t' \<and>
    io_out (sv_io s') st = io_out (sv_io s) st @ wire ms \<and> io_out (sv_io s') ast = io_out (sv_io s) ast @ wire ams"
  using runSync_exchanges [OF assms] .

definition plain_float :: "int float_ops" where
  "plain_float = \<lparr>fl_zero = 0, fl_ParseFloat = (\<lambda>_. None), fl_FormatE6 = (\<lambda>_. ascii ''0.000000E+00'')\<rparr>"

definition arrived :: "MessageType \<Rightarrow> MessageID \<Rightarrow> string \<Rightarrow> bool \<Rightarrow> loop_input" where
  "arrived t i text queued =
     \<lparr>li_done = False, li_ctx = False,
      li_msg = \<lparr>ms_header = zero_Header\<lparr>hType := t, hParameter := i\<rparr>, ms_payload = ascii text, ms_buf = 0, ms_err = None\<rparr>,
      li_queued = queued, li_lock = []\<rparr>"

text \<open>A session of five messages: a query in two parts, a command that is wrong, the query of the event
  register that tells so, and a query that is interrupted.\<close>

definition demo_inputs :: "loop_input list" where
  "demo_inputs = [arrived Data 2 ''*id'' False, arrived DataEnd 4 ''n?'' False, arrived DataEnd 6 ''bogus'' False,
     arrived DataEnd 8 ''*esr?'' False, arrived DataEnd 10 ''*opc?'' True]"

definition demo_attending :: "(int instrument, unit) Server" where
  "demo_attending = (let s = ready_on (zero_instrument plain_float) in s\<lparr>sv_cfg := (sv_cfg s)\<lparr>cf_MaxTxPayload := 16\<rparr>\<rparr>)"

lemma demo_exchanges:
  "exchanges no_policy plain_float 16 (zero_instrument plain_float, SCPIQuery NewSCPIQueryPolicy) demo_inputs =
     ((zero_instrument plain_float, SCPIQuery NewSCPIQueryPolicy),
      [(data_header 4, ascii ''GoTMC,HiSLIP Sim''), (data_header 4, ascii ''ulated Instrumen''),
       (end_header 4, ascii ''t,0,0.1.0'' @ [0x0A]), (end_header 8, ascii ''32'' @ [0x0A]),
       (zero_Header\<lparr>hType := Interrupted, hParameter := 10\<rparr>, [])],
      [(zero_Header\<lparr>hType := AsyncInterrupted, hParameter := 10\<rparr>, [])])"
  by code_simp

lemma demo_replies_fit:
  "replies_fit no_policy plain_float 16 (zero_instrument plain_float, SCPIQuery NewSCPIQueryPolicy) demo_inputs"
  by code_simp

lemma demo_attending_facts:
  "attending demo_attending 0 1 2 8192 8192 (zero_instrument plain_float, SCPIQuery NewSCPIQueryPolicy)"
  "16 = responseScratch (unat (cf_MaxTxPayload (sv_cfg demo_attending))) 8192"
  "0 < cf_MaxTxPayload (sv_cfg demo_attending)"
  "io_out (sv_io demo_attending) 1 = []" "io_out (sv_io demo_attending) 2 = []"
proof -
  have m: "se_maxRx ready_session = 8192" "se_maxTx ready_session = 8192"
    by (simp_all add: ready_session_def newSession_def zero_Config_def)
  show "attending demo_attending 0 1 2 8192 8192 (zero_instrument plain_float, SCPIQuery NewSCPIQueryPolicy)"
    using ready_answering [of "zero_instrument plain_float"] m
    by (simp add: attending_def answering_def demo_attending_def Let_def) (simp add: ready_session_def)
qed (simp_all add: demo_attending_def Let_def responseScratch_def ready_server_io ready_server_io [simplified])

theorem conversation_refined_witness:
  "\<exists>s'. Server_runSync \<lparr>en_dev = instrument_ops plain_float, en_pol = no_policy\<rparr> demo_attending 0 demo_inputs = Some (s', None) \<and>
     io_out (sv_io s') 1 = frame (data_header 4) (ascii ''GoTMC,HiSLIP Sim'') @ frame (data_header 4) (ascii ''ulated Instrumen'') @
       frame (end_header 4) (ascii ''t,0,0.1.0'' @ [0x0A]) @ frame (end_header 8) (ascii ''32'' @ [0x0A]) @
       frame (zero_Header\<lparr>hType := Interrupted, hParameter := 10\<rparr>) [] \<and>
     io_out (sv_io s') 2 = frame (zero_Header\<lparr>hType := AsyncInterrupted, hParameter := 10\<rparr>) []"
proof -
  let ?E = "\<lparr>en_dev = instrument_ops plain_float, en_pol = no_policy\<rparr>"
  let ?t = "(zero_instrument plain_float, SCPIQuery NewSCPIQueryPolicy)"
  have i: "list_all (program_input 8192) demo_inputs"
    by (simp add: demo_inputs_def arrived_def program_input_def zero_Header_def)
  note facts = demo_attending_facts
  from conversation_refined [of demo_attending 0 1 2 8192 8192 ?t ?E plain_float, OF facts(1) _ facts(3,2) i]
    demo_exchanges demo_replies_fit facts(4,5)
  show ?thesis by (auto simp del: ascii_Cons)
qed

end
