(* ===== verification/System.thy ===== *)
theory System
  imports Serve Responses Handshake
begin

text \<open>
  The server as a whole: what every operation keeps, whichever handler runs it and however
  the handlers of the connections interleave.

  The locale \<open>channel_invariant\<close> lists the elementary changes the operations of the synchronous channel
  are made of, \<open>async_invariant\<close> adds the one of the asynchronous channel, and \<open>server_invariant\<close> those that
  open and close sessions. A predicate that
  survives each of them survives every handler, and hence holds in every state the step
  relation reaches.
\<close>

section \<open>Elementary changes\<close>

text \<open>A session that is open has both connections; one that waits has only the first; a closed
  one has none. It can always be sent something.\<close>

definition session_ok :: "'x Session \<Rightarrow> bool" where
  "session_ok se \<longleftrightarrow> 16 \<le> se_maxTx se \<and> (se_sync se = None \<longleftrightarrow> se_state se = StateClosed) \<and>
     (se_async se = None \<longleftrightarrow> se_state se = StatePairing \<or> se_state se = StateClosed)"

lemma session_ok_writers [simp]:
  "session_ok (se\<lparr>se_syncW := w\<rparr>) = session_ok se" "session_ok (se\<lparr>se_asyncW := w\<rparr>) = session_ok se"
  by (simp_all add: session_ok_def)

text \<open>The life of a session: its identity is fixed, it never waits for a second channel again,
  and it never comes back once closed.\<close>

definition evolves :: "'x Session \<Rightarrow> 'x Session \<Rightarrow> bool" where
  "evolves se se' \<longleftrightarrow> se_id se' = se_id se \<and> se_version se' = se_version se \<and> se_maxRx se' = se_maxRx se \<and>
     (se_state se = StateClosed \<longrightarrow> se_state se' = StateClosed) \<and>
     (se_state se' = StatePairing \<longrightarrow> se_state se = StatePairing) \<and>
     (session_ok se \<longrightarrow> session_ok se')"

lemma evolves_refl [simp]: "evolves se se"
  by (simp add: evolves_def)

lemma evolves_trans: "evolves se se' \<Longrightarrow> evolves se' se'' \<Longrightarrow> evolves se se''"
  unfolding evolves_def by metis

text \<open>Changes that do not touch any of that.\<close>

definition vitals :: "'x Session \<Rightarrow> (uint16 \<times> Version \<times> uint64 \<times> uint64 \<times> State) \<times> nat option \<times> nat option \<times> nat option \<times> nat option" where
  "vitals se = ((se_id se, se_version se, se_maxRx se, se_maxTx se, se_state se),
     se_sync se, se_async se, se_syncW se, se_asyncW se)"

lemma vitals_fields [simp]:
  "vitals (se\<lparr>se_rmt := a\<rparr>) = vitals se" "vitals (se\<lparr>se_status := b\<rparr>) = vitals se"
  "vitals (se\<lparr>se_tx := c\<rparr>) = vitals se" "vitals (se\<lparr>se_opCancel := d\<rparr>) = vitals se"
  "vitals (se\<lparr>se_pending := f\<rparr>) = vitals se" "vitals (se\<lparr>se_policy := g\<rparr>) = vitals se"
  "vitals (Session_setLastTxMessageID se i) = vitals se"
  by (simp_all add: vitals_def Session_setLastTxMessageID_def)

lemma evolves_vitals [simp]: "vitals se' = vitals se \<Longrightarrow> evolves se se'"
  by (simp add: vitals_def evolves_def session_ok_def)

lemma vitals_policy [simp]:
  "vitals (Session_feedProgramMessage ops se chunk) = vitals se"
  "vitals (fst (Session_programDisposition ops se)) = vitals se"
  by (simp_all add: Session_feedProgramMessage_def Session_programDisposition_def split: option.splits)

lemma evolves_ops [simp]:
  "evolves se (Session_beginClear se)" "evolves se (Session_completeClear se ov)"
  "evolves se (fst (Session_attachAsync se st))"
  "evolves se (se\<lparr>se_sync := None, se_async := None, se_state := StateClosed, se_opCancel := None\<rparr>)"
  "256 \<le> n \<Longrightarrow> evolves se (se\<lparr>se_maxTx := n\<rparr>)"
  "evolves se (se\<lparr>se_syncW := w\<rparr>)" "evolves se (se\<lparr>se_asyncW := w\<rparr>)"
  by (auto simp: evolves_def session_ok_def Session_beginClear_def Session_completeClear_def Let_def
      Session_attachAsync_def word_le_nat_alt split: State.splits)

text \<open>What the handlers of a channel do to a session: everything but closing it and giving it its
  writers.\<close>

definition serves :: "'x Session \<Rightarrow> 'x Session \<Rightarrow> bool" where
  "serves se se' \<longleftrightarrow> evolves se se' \<and> se_sync se' = se_sync se \<and> se_syncW se' = se_syncW se \<and>
     se_asyncW se' = se_asyncW se \<and> (se_state se \<noteq> StatePairing \<longrightarrow> se_async se' = se_async se)"

lemma serves_vitals [simp]: "vitals se' = vitals se \<Longrightarrow> serves se se'"
  by (simp add: serves_def) (simp add: vitals_def)

lemma serves_ops [simp]:
  "serves se (Session_beginClear se)" "serves se (Session_completeClear se ov)"
  "256 \<le> n \<Longrightarrow> serves se (se\<lparr>se_maxTx := n\<rparr>)"
proof -
  have "fst (snd (vitals (Session_beginClear se))) = se_sync se" "snd (snd (vitals (Session_beginClear se))) = snd (snd (vitals se))"
    "fst (snd (vitals (Session_completeClear se ov))) = se_sync se" "snd (snd (vitals (Session_completeClear se ov))) = snd (snd (vitals se))"
    by (simp_all add: vitals_def Session_beginClear_def Session_completeClear_def Let_def)
  then show "serves se (Session_beginClear se)" "serves se (Session_completeClear se ov)"
    "256 \<le> n \<Longrightarrow> serves se (se\<lparr>se_maxTx := n\<rparr>)"
    unfolding serves_def by (simp_all add: vitals_def)
qed

text \<open>A writer of a channel of a connection, as far as its references are concerned.\<close>

definition writer_of :: "io \<Rightarrow> nat \<Rightarrow> Channel \<Rightarrow> nat \<Rightarrow> bool" where
  "writer_of io w ch st \<longleftrightarrow> w < io_nwriters io \<and> mw_channel (io_writers io w) = ch \<and> mw_stream (io_writers io w) = st"

text \<open>A connection that has only been read from.\<close>

definition same_output :: "transport \<Rightarrow> transport \<Rightarrow> bool" where
  "same_output t t' \<longleftrightarrow> tr_out t' = tr_out t \<and> tr_wfaults t' = tr_wfaults t \<and> tr_closed t' = tr_closed t"

lemma same_output_refl [simp]: "same_output t t"
  by (simp add: same_output_def)

lemma same_output_trans: "same_output t t' \<Longrightarrow> same_output t' t'' \<Longrightarrow> same_output t t''"
  by (simp add: same_output_def)

lemma Stream_Read_output: "Stream_Read t n = Some (t', r) \<Longrightarrow> same_output t t'"
  by (auto simp: same_output_def Let_def elim!: Stream_Read.elims split: if_splits list.splits option.splits)

lemma ReadFull_loop_output:
  "ReadFull_loop Stream_Read t want acc = Some y \<Longrightarrow> same_output t (fst y)"
proof (rule mp, rule ReadFull_loop.raw_induct
    [of "\<lambda>rd t want acc y. rd = Stream_Read \<longrightarrow> same_output t (fst y)" Stream_Read t want acc y])
  fix f rd t want acc y
  assume IH: "\<And>rd t want acc y. f rd t want acc = Some y \<Longrightarrow> rd = Stream_Read \<longrightarrow> same_output t (fst y)"
    and eq: "(if want \<le> length acc then Some (t, acc, None)
      else Option.bind (rd t (want - length acc)) (\<lambda>(s', bs, err).
        case err of
          None \<Rightarrow> f rd s' want (acc @ bs)
        | Some e \<Rightarrow>
            Some (s', acc @ bs,
              if want \<le> length (acc @ bs) then None
              else if acc @ bs \<noteq> [] \<and> e = EOF then Some ErrUnexpectedEOF
              else Some e))) = Some y"
  show "rd = Stream_Read \<longrightarrow> same_output t (fst y)"
  proof
    assume rd: "rd = Stream_Read"
    show "same_output t (fst y)"
    proof (cases "want \<le> length acc")
      case True
      with eq show ?thesis by auto
    next
      case False
      with eq obtain s' bs err where r: "rd t (want - length acc) = Some (s', bs, err)"
        by (auto simp: bind_eq_Some_conv)
      then have "same_output t s'" using rd Stream_Read_output by blast
      moreover have "same_output s' (fst y)"
        using eq False r IH [of rd s' want "acc @ bs" y] rd by (cases err) auto
      ultimately show ?thesis by (rule same_output_trans)
    qed
  qed
qed simp_all

lemma ReadFull_output: "ReadFull Stream_Read t want = Some y \<Longrightarrow> same_output t (fst y)"
  unfolding ReadFull_def by (rule ReadFull_loop_output)

lemma ReadPayload_loop_output:
  "ReadPayload_loop Stream_Read None t (c :: unit) n scratch = Some y \<Longrightarrow> same_output t (fst y)"
proof (rule mp, rule ReadPayload_loop.raw_induct
    [of "\<lambda>rd cs t c n scratch y. rd = Stream_Read \<and> cs = None \<longrightarrow> same_output t (fst y)"
      Stream_Read None t c n scratch y])
  fix f rd t n scratch and cs :: "(unit \<Rightarrow> bytes \<Rightarrow> unit \<times> gerror option) option"
    and c :: unit and y :: "transport \<times> unit \<times> bytes \<times> gerror option"
  assume IH: "\<And>rd cs t c n scratch y. f rd cs t c n scratch = Some y \<Longrightarrow>
      rd = Stream_Read \<and> cs = None \<longrightarrow> same_output t (fst y)"
    and eq: "(if n = 0 then Some (t, c, scratch, None)
      else let chunk = min n (length scratch) in
        Option.bind (ReadFull rd t chunk) (\<lambda>(s', bs, err).
          let scratch' = bs @ drop (length bs) scratch in
          case err of
            Some e \<Rightarrow> Some (s', c, scratch', Some e)
          | None \<Rightarrow>
              (case cs of
                 None \<Rightarrow> f rd cs s' c (n - chunk) scratch'
               | Some g \<Rightarrow>
                   (case g c (take chunk scratch') of
                      (c', Some e) \<Rightarrow> Some (s', c', scratch', Some e)
                    | (c', None) \<Rightarrow> f rd cs s' c' (n - chunk) scratch')))) = Some y"
  show "rd = Stream_Read \<and> cs = None \<longrightarrow> same_output t (fst y)"
  proof (clarify)
    assume rd: "rd = Stream_Read" "cs = None"
    show "same_output t (fst y)"
    proof (cases "n = 0")
      case True
      with eq show ?thesis by auto
    next
      case False
      let ?k = "min n (length scratch)"
      from eq False obtain s' bs err where r: "ReadFull rd t ?k = Some (s', bs, err)"
        by (auto simp: bind_eq_Some_conv Let_def)
      then have "same_output t s'" using rd ReadFull_output by fastforce
      moreover have "same_output s' (fst y)"
        using eq False r rd IH [of rd None s' c "n - ?k" "bs @ drop (length bs) scratch" y]
        by (cases err) (auto simp: Let_def)
      ultimately show ?thesis by (rule same_output_trans)
    qed
  qed
qed simp_all

lemma ReadPayload_output: "ReadPayload Stream_Read None t () n scratch = Some y \<Longrightarrow> same_output t (fst y)"
  using ReadPayload_loop_output [of t "()" "unat n" scratch y] by (auto simp: ReadPayload_def split: if_splits)

lemma readSubAddress_output:
  assumes "readSubAddress Stream_Read t h limit = Some (t', r)"
  shows "same_output t t'"
proof (cases "CheckLength (hLength h) limit \<noteq> None \<or> hLength h = 0")
  case True
  with assms show ?thesis by (auto simp: readSubAddress_def split: option.splits)
next
  case False
  with assms obtain y where "ReadPayload Stream_Read None t () (hLength h) (replicate (unat (hLength h)) 0) = Some y"
      "fst y = t'"
    by (auto simp: readSubAddress_def)
  then show ?thesis using ReadPayload_output by blast
qed

lemma ReadHeader_output:
  assumes "ReadHeader Stream_Read t = Some (t', r)"
  shows "same_output t t'"
proof -
  from assms obtain y where "ReadFull Stream_Read t HeaderSize = Some y" "fst y = t'"
    by (auto simp: ReadHeader_def bind_eq_Some_conv split: option.splits)
  then show ?thesis using ReadFull_output by blast
qed

lemma writer_of_write [simp]:
  "writer_of (fst (writer_Write io w h b)) v ch st \<longleftrightarrow> writer_of io v ch st"
proof (cases w)
  case (Some u)
  obtain io' e where "MessageWriter_Write io u h b = (io', e)" by fastforce
  with Some MessageWriter_Write_effect [OF this] show ?thesis
    by (cases "v = u") (simp_all add: writer_Write_def writer_of_def)
qed (simp add: writer_Write_def)

lemma writer_of_send [simp]: "writer_of (sv_io (fst (send s w h b))) v ch st \<longleftrightarrow> writer_of (sv_io s) v ch st"
  by (simp add: send_def case_prod_unfold Let_def)

lemma send_heap [simp]: "sv_heap (fst (send s w h b)) = sv_heap s"
  by (simp add: send_def case_prod_unfold Let_def)

lemma writer_of_new: "writer_of (fst (NewMessageWriter io st ch)) (io_nwriters io) ch st"
  by (simp add: writer_of_def NewMessageWriter_def)

lemma Initialize_new:
  assumes "Server_Initialize s h sub st = (s', Inr (p, resp))"
  shows "sv_io s' = sv_io s" "se_sync (sv_heap s' p) = Some st"
  using assms
  by (auto simp: Server_Initialize_def Server_allocateSession_def Server_allocateIDLocked_def newSession_def Let_def
      split: if_splits prod.splits sum.splits option.splits)

locale channel_invariant =
  fixes inv :: "('d, 'x) Server \<Rightarrow> bool"
  assumes inv_fields: "inv s \<Longrightarrow> inv (s\<lparr>sv_dev := d\<rparr>)" "inv s \<Longrightarrow> inv (s\<lparr>sv_counters := c\<rparr>)"
      "inv s \<Longrightarrow> inv (s\<lparr>sv_nops := n\<rparr>)" "inv s \<Longrightarrow> inv (s\<lparr>sv_cancelled := cs\<rparr>)"
    and inv_upd: "inv s \<Longrightarrow> serves (sv_heap s p) (f (sv_heap s p)) \<Longrightarrow> inv (upd s p f)"
    and inv_write: "inv s \<Longrightarrow> inv (s\<lparr>sv_io := fst (writer_Write (sv_io s) w h b)\<rparr>)"
begin

text \<open>One rule for each way an operation is put together: whatever is bound on the way, the state
  bound along with it has the invariant.\<close>

lemma inv_pair: "inv (fst x) \<Longrightarrow> (\<And>s e. inv s \<Longrightarrow> inv (fst (g s e))) \<Longrightarrow> inv (fst (case x of (s, e) \<Rightarrow> g s e))"
  by (cases x) simp

lemma inv_lets:
  "inv s \<Longrightarrow> (\<And>s. inv s \<Longrightarrow> inv (fst (l s))) \<Longrightarrow> inv (fst (Let s l))"
  "inv (fst x) \<Longrightarrow> (\<And>s e. inv s \<Longrightarrow> inv (fst (g s e))) \<Longrightarrow> inv (fst (let (s, e) = x in g s e))"
  by (cases x; simp)+

lemma inv_binds:
  "(\<And>a b. inv (fst (h a b))) \<Longrightarrow> inv (fst (case y of (a, b) \<Rightarrow> h a b))"
  "(\<And>a. inv (fst (k a))) \<Longrightarrow> inv (fst (Let z k))"
  "inv (fst m) \<Longrightarrow> (\<And>x. inv (fst (n x))) \<Longrightarrow> inv (fst (case ox of None \<Rightarrow> m | Some x \<Rightarrow> n x))"
  "(\<And>x. inv (fst (n' x))) \<Longrightarrow> (\<And>x. inv (fst (m' x))) \<Longrightarrow>
   inv (fst (case sx of Inl x \<Rightarrow> n' x | Inr x \<Rightarrow> m' x))"
  "inv (fst i) \<Longrightarrow> inv (fst j) \<Longrightarrow> inv (fst (if b then i else j))"
  "inv s \<Longrightarrow> inv (fst (s, r))"
  by (auto split: prod.splits option.splits sum.splits)

lemma inv_tx: "inv s \<Longrightarrow> inv (fst (tx_op s p f))"
  unfolding tx_op_upd fst_conv by (rule inv_upd) simp_all

lemma inv_send: "inv s \<Longrightarrow> inv (fst (send s w h b))" "inv s \<Longrightarrow> inv (fst (send_error s w c d))"
  "inv s \<Longrightarrow> inv (fst (send_fatal s w c d))"
  using inv_write [of s]
  by (simp_all add: send_def send_error_def send_fatal_def MessageWriter_WriteError_def
      MessageWriter_WriteFatalError_def case_prod_unfold Let_def)

lemma inv_count: "inv s \<Longrightarrow> inv (Server_count s f)" "inv s \<Longrightarrow> inv (count_fatal s)"
  "inv s \<Longrightarrow> inv (count_nonfatal s)" "inv s \<Longrightarrow> inv (Server_countInterrupted s i)"
  "inv s \<Longrightarrow> inv (Server_countOutcome s oc)"
  using inv_fields(2)
  by (simp_all add: Server_count_def count_fatal_def count_nonfatal_def Server_countInterrupted_def
      Server_countOutcome_def split: Interrupted_kind.splits ResponseOutcome.splits)

lemma inv_pending: "inv s \<Longrightarrow> inv (set_pending s p b)"
  unfolding set_pending_def by (rule inv_upd) simp_all

lemma inv_cancel: "inv s \<Longrightarrow> inv (cancel s c)"
  by (simp add: cancel_def inv_fields split: option.splits)

lemma inv_operation: "inv s \<Longrightarrow> inv (fst (Session_Operation s p))" "inv s \<Longrightarrow> inv (release_operation s p op)"
  "inv s \<Longrightarrow> inv (Session_abortOperation s p)"
  unfolding Session_Operation_def release_operation_def Session_abortOperation_def fst_conv
  by (intro inv_upd inv_cancel inv_fields; simp)+

lemmas pres = inv_lets inv_pair inv_tx inv_send inv_count inv_pending inv_cancel inv_operation
  inv_fields inv_upd inv_binds

lemma inv_ReceiveData: "inv s \<Longrightarrow> inv (fst (Server_ReceiveData E s ctx p h b))"
  unfolding Server_ReceiveData_def by (rule pres | assumption | simp; fail)+

lemma inv_terminate: "inv s \<Longrightarrow> inv (fst (Server_terminate s p r final))"
  unfolding Server_terminate_def by (rule pres | assumption | simp; fail)+

lemma inv_absent: "inv s \<Longrightarrow> inv (fst (Server_completeAbsentResponse s p r))"
  unfolding Server_completeAbsentResponse_def by (rule pres inv_terminate | assumption | simp; fail)+

lemma inv_interrupted: "inv s \<Longrightarrow> inv (fst (Server_sendInterrupted s p r))"
  unfolding Server_sendInterrupted_def by (rule pres | assumption | simp; fail)+

lemma inv_chunk: "inv s \<Longrightarrow> inv (fst (SendResponse_chunk s p r bs eom err k))"
  unfolding SendResponse_chunk_def by (rule pres | assumption | simp; fail)+

lemma inv_iteration: "inv s \<Longrightarrow> inv (fst (SendResponse_iteration E s ctx p r k))"
  unfolding SendResponse_iteration_def
  by (rule pres inv_chunk inv_terminate inv_absent inv_interrupted | assumption | simp; fail)+

lemma inv_Trigger: "inv s \<Longrightarrow> inv (fst (Server_Trigger E s ctx p h))"
  unfolding Server_Trigger_def by (rule pres | assumption | simp; fail)+

lemma inv_StatusQuery: "inv s \<Longrightarrow> inv (fst (Server_StatusQuery E s ctx p h))"
  unfolding Server_StatusQuery_def by (rule pres | assumption | simp; fail)+

lemma inv_ServiceRequest: "inv s \<Longrightarrow> inv (fst (Server_ServiceRequest s sess b))"
  unfolding Server_ServiceRequest_def by (rule pres | assumption | simp; fail)+

lemma inv_RemoteLocal: "inv s \<Longrightarrow> inv (fst (Server_RemoteLocal E s ctx p h))"
  unfolding Server_RemoteLocal_def by (rule pres | assumption | simp; fail)+

lemma inv_BeginDeviceClear: "inv s \<Longrightarrow> inv (fst (Server_BeginDeviceClear s p))"
  unfolding Server_BeginDeviceClear_def by (rule pres | assumption | simp; fail)+

lemma inv_CompleteDeviceClear: "inv s \<Longrightarrow> inv (fst (Server_CompleteDeviceClear E s ctx p h))"
  unfolding Server_CompleteDeviceClear_def by (rule pres | assumption | simp; fail)+

lemma inv_report: "inv s \<Longrightarrow> inv (fst (Server_reportReadError s w e))"
  "inv s \<Longrightarrow> inv (fst (Server_reportAcceptError s w e))"
  "inv s \<Longrightarrow> inv (fst (Server_reportOperationError s w e))"
  unfolding Server_reportReadError_def Server_reportAcceptError_def Server_reportOperationError_def
  by (rule pres | assumption | simp add: inv_count inv_send; fail)+

lemma inv_MaximumMessageSize: "inv s \<Longrightarrow> inv (fst (Server_MaximumMessageSize s sess n))"
  using inv_upd [of s _ "\<lambda>se. se\<lparr>se_maxTx := n\<rparr>"]
  by (simp add: Server_MaximumMessageSize_def Let_def split: option.splits)

lemma inv_attach: "inv s \<Longrightarrow> inv (fst (Server_AsyncInitialize s h st))"
proof -
  assume "inv s"
  show ?thesis
  proof (cases "snd (Server_AsyncInitialize s h st)")
    case (Inl e)
    then show ?thesis
      using AsyncInitialize_refused [of s h st "fst (Server_AsyncInitialize s h st)" e] \<open>inv s\<close>
      by (metis prod.collapse)
  next
    case (Inr y)
    then have "fst (Server_AsyncInitialize s h st) =
        upd s (fst y) (\<lambda>se. se\<lparr>se_async := Some st, se_state := StateReady\<rparr>)"
      "se_state (sv_heap s (fst y)) = StatePairing" "se_async (sv_heap s (fst y)) = None"
      using AsyncInitialize_iff [of s h st "fst (Server_AsyncInitialize s h st)" "fst y" "snd y"]
      by (metis prod.collapse)+
    then show ?thesis
      using \<open>inv s\<close> by (simp add: inv_upd serves_def evolves_def session_ok_def)
  qed
qed

text \<open>Calls that may not return.\<close>

definition inv_opt :: "(('d, 'x) Server \<times> 'r) option \<Rightarrow> bool" where
  "inv_opt x \<longleftrightarrow> (\<forall>r. x = Some r \<longrightarrow> inv (fst r))"

lemma inv_opt_return: "inv (fst r) \<Longrightarrow> inv_opt (Some r)" "inv_opt None"
  by (simp_all add: inv_opt_def)

lemma inv_opt_map:
  assumes "inv_opt x" "\<And>s e. inv s \<Longrightarrow> inv (fst (f s e))"
  shows "inv_opt (map_option (\<lambda>(s, e). f s e) x)"
proof (cases x)
  case (Some r)
  with assms(1) assms(2) [of "fst r" "snd r"] show ?thesis by (simp add: inv_opt_def case_prod_unfold)
qed (simp add: inv_opt_def)

lemma inv_opt_bind:
  assumes "inv_opt x" "\<And>s e. inv s \<Longrightarrow> inv_opt (g s e)"
  shows "inv_opt (Option.bind x (\<lambda>(s, e). g s e))"
proof (cases x)
  case (Some r)
  with assms(1) assms(2) [of "fst r" "snd r"] show ?thesis by (simp add: inv_opt_def case_prod_unfold)
qed (simp add: inv_opt_def)

lemma inv_opt_binds:
  "inv s \<Longrightarrow> (\<And>s. inv s \<Longrightarrow> inv_opt (l s)) \<Longrightarrow> inv_opt (Let s l)"
  "inv (fst y) \<Longrightarrow> (\<And>s e. inv s \<Longrightarrow> inv_opt (k s e)) \<Longrightarrow> inv_opt (let (s, e) = y in k s e)"
  "inv (fst y) \<Longrightarrow> (\<And>s e. inv s \<Longrightarrow> inv_opt (k s e)) \<Longrightarrow> inv_opt (case y of (s, e) \<Rightarrow> k s e)"
  "(\<And>a b. inv_opt (h a b)) \<Longrightarrow> inv_opt (case u of (a, b) \<Rightarrow> h a b)"
  "(\<And>a. inv_opt (m a)) \<Longrightarrow> inv_opt (Let v m)"
  "inv_opt n \<Longrightarrow> (\<And>x. inv_opt (o' x)) \<Longrightarrow> inv_opt (case ox of None \<Rightarrow> n | Some x \<Rightarrow> o' x)"
  "(\<And>x. inv_opt (o' x)) \<Longrightarrow> (\<And>x. inv_opt (q x)) \<Longrightarrow> inv_opt (case sx of Inl x \<Rightarrow> o' x | Inr x \<Rightarrow> q x)"
  "inv_opt n \<Longrightarrow> inv_opt n' \<Longrightarrow> inv_opt (if b then n else n')"
  by (cases y; cases u; cases ox; cases sx; simp)+

lemmas opt_pres = inv_opt_return inv_opt_map inv_opt_bind inv_opt_binds pres

lemma inv_loop: "inv s \<Longrightarrow> inv_opt (SendResponse_loop E s ctx p r k)"
proof -
  have "inv s \<longrightarrow> inv (fst y)" if "SendResponse_loop E s ctx p r k = Some y" for y
  proof (rule SendResponse_loop.raw_induct [of "\<lambda>E s ctx p r k y. inv s \<longrightarrow> inv (fst y)", OF _ that])
    fix f E s ctx p r k y
    assume "\<And>E s ctx p r k y. f E s ctx p r k = Some y \<Longrightarrow> inv s \<longrightarrow> inv (fst y)"
      "(case SendResponse_iteration E s ctx p r k of (s, Inl k) \<Rightarrow> f E s ctx p r k
        | (s, Inr (oc, err)) \<Rightarrow> Some (s, oc, err)) = Some y"
    then show "inv s \<longrightarrow> inv (fst y)"
      using inv_iteration [of s E ctx p r k] by (auto split: prod.splits sum.splits)
  qed
  then show "inv s \<Longrightarrow> inv_opt (SendResponse_loop E s ctx p r k)" by (simp add: inv_opt_def)
qed

lemma inv_SendResponse: "inv s \<Longrightarrow> inv_opt (Server_SendResponse E s ctx p r)"
  unfolding Server_SendResponse_def by (rule opt_pres inv_loop | assumption | simp add: inv_pending; fail)+

lemma inv_disposition:
  assumes "inv s" "\<And>s d. inv s \<Longrightarrow> inv_opt (k s d)"
  shows "inv_opt (let (se, d) = Session_programDisposition ops (sv_heap s p); s = upd s p (\<lambda>_. se) in k s d)"
proof -
  let ?x = "Session_programDisposition ops (sv_heap s p)"
  have "inv (upd s p (\<lambda>_. fst ?x))" using assms(1) by (rule inv_upd) simp
  from assms(2) [OF this, of "snd ?x"] show ?thesis by (simp add: Let_def case_prod_unfold)
qed

lemma inv_handleData: "inv s \<Longrightarrow> inv_opt (Server_handleData E s ctx p msg w buf q)"
  unfolding Server_handleData_def
  by (rule inv_disposition opt_pres inv_report inv_SendResponse inv_ReceiveData | assumption | simp; fail)+

lemma inv_handleSync: "inv s \<Longrightarrow> inv_opt (Server_handleSync E s ctx p msg buf q)"
  unfolding Server_handleSync_def
  by (rule opt_pres inv_report inv_handleData inv_Trigger inv_CompleteDeviceClear | assumption | simp; fail)+

lemma inv_runSync: "inv s \<Longrightarrow> inv_opt (runSync_loop E s p buf iks)"
proof (induction iks arbitrary: s)
  case (Cons i iks)
  show ?case
    unfolding runSync_loop.simps using Cons.prems
    by - (rule opt_pres inv_handleSync Cons.IH | assumption | simp; fail)+
qed (simp add: inv_opt_def)

end

text \<open>The asynchronous channel also changes the locks.\<close>

locale async_invariant = channel_invariant +
  assumes inv_locks: "inv s \<Longrightarrow> (lock_inv (sv_locks s) \<longrightarrow> lock_inv m) \<Longrightarrow> inv (s\<lparr>sv_locks := m\<rparr>)"
begin

lemma inv_Lock: "inv s \<Longrightarrow> inv_opt (Server_Lock s p h str evs)"
proof -
  assume inv: "inv s"
  have req: "inv (s\<lparr>sv_locks := m\<rparr>)" if "LockManager_Request (sv_locks s) i str t evs = Some (m, r)" for i t m r
    using inv that lock_inv_run [of "sv_locks s"]
    by (intro inv_locks) (auto simp: LockManager_Request_def split: option.splits if_splits request_pc.splits)
  then show ?thesis
    using inv_locks [OF inv] inv lock_inv_release [of "sv_locks s" "se_id (sv_heap s p)"]
    by (auto simp: Server_Lock_def inv_opt_def Let_def split: option.splits prod.splits)
qed

lemma inv_handleAsync: "inv s \<Longrightarrow> inv_opt (Server_handleAsync E s ctx p msg evs)"
  unfolding Server_handleAsync_def Let_def
  by (rule opt_pres inv_report inv_Lock inv_BeginDeviceClear inv_StatusQuery inv_RemoteLocal
      inv_MaximumMessageSize | assumption | simp; fail)+

lemma inv_runAsync: "inv s \<Longrightarrow> inv_opt (runAsync_loop E s p iks)"
proof (induction iks arbitrary: s)
  case (Cons i iks)
  show ?case
    unfolding runAsync_loop.simps using Cons.prems
    by - (rule opt_pres inv_handleAsync Cons.IH | assumption | simp; fail)+
qed (simp add: inv_opt_def)

end

locale server_invariant = async_invariant +
  assumes inv_new_writer: "inv s \<Longrightarrow> inv (s\<lparr>sv_io := fst (NewMessageWriter (sv_io s) st ch)\<rparr>)"
    and inv_close: "inv s \<Longrightarrow> inv (s\<lparr>sv_io := fst (io_Close (sv_io s) st)\<rparr>)"
    and inv_read: "inv s \<Longrightarrow> same_output (io_streams (sv_io s) st) t \<Longrightarrow> inv (io_set_stream s st t)"
    and inv_closed: "inv s \<Longrightarrow> inv (upd s p (\<lambda>se. se\<lparr>se_sync := None, se_async := None,
      se_state := StateClosed, se_opCancel := None\<rparr>))"
    and inv_allocate: "inv s \<Longrightarrow> inv (fst (Server_allocateSession s v st))"
    and inv_delete: "inv s \<Longrightarrow> inv (s\<lparr>sv_sessions := AList.delete i (sv_sessions s)\<rparr>)"
      "inv s \<Longrightarrow> inv (s\<lparr>sv_sessions := []\<rparr>)"
    and inv_syncW: "inv s \<Longrightarrow> writer_of (sv_io s) w ChannelSynchronous st \<Longrightarrow> se_sync (sv_heap s p) = Some st \<Longrightarrow>
      inv (upd s p (\<lambda>se. Session_setSyncWriter se (Some w)))"
    and inv_asyncW: "inv s \<Longrightarrow> writer_of (sv_io s) w ChannelAsynchronous st \<Longrightarrow> se_async (sv_heap s p) = Some st \<Longrightarrow>
      se_state (sv_heap s p) \<noteq> StatePairing \<Longrightarrow> inv (upd s p (\<lambda>se. Session_setAsyncWriter se (Some w)))"
begin

lemma inv_Initialize: "inv s \<Longrightarrow> inv (fst (Server_Initialize s h sub st))"
  unfolding Server_Initialize_def by (rule pres inv_allocate | assumption | simp; fail)+

lemma inv_close_streams: "inv s \<Longrightarrow> inv (s\<lparr>sv_io := fst (close_streams (sv_io s) sts e)\<rparr>)"
proof (induction "sv_io s" sts e arbitrary: s rule: close_streams.induct)
  case (3 st sts e)
  obtain io err where io: "io_Close (sv_io s) st = (io, err)" by fastforce
  then have "inv (s\<lparr>sv_io := io\<rparr>)" using inv_close [OF 3(2), of st] by simp
  with 3(1) [OF refl, of "s\<lparr>sv_io := io\<rparr>" err] io show ?case by simp
qed simp_all

lemma inv_session_close: "inv s \<Longrightarrow> inv (fst (Session_close s p))"
proof -
  let ?s = "upd s p (\<lambda>se. se\<lparr>se_sync := None, se_async := None, se_state := StateClosed, se_opCancel := None\<rparr>)"
  assume "inv s"
  then have "inv (cancel ?s (se_opCancel (sv_heap s p)))" by (intro inv_cancel inv_closed)
  from inv_close_streams [OF this] show ?thesis
    by (simp add: Session_close_def Let_def case_prod_unfold)
qed

lemma inv_remove: "inv s \<Longrightarrow> inv (fst (Server_removeSession s p))"
  unfolding Server_removeSession_def Let_def
  by (rule inv_session_close inv_delete inv_locks | simp add: lock_inv_release_all)+

lemma inv_close_sessions: "inv s \<Longrightarrow> inv (fst (close_sessions_loop s ps e))"
proof (induction ps arbitrary: s e)
  case (Cons p ps)
  have "inv (fst (Session_close (s\<lparr>sv_locks := LockManager_ReleaseAll (sv_locks s) (se_id (sv_heap s p))\<rparr>) p))"
    using Cons.prems by (intro inv_session_close inv_locks) (simp_all add: lock_inv_release_all)
  from Cons.IH [OF this] show ?case by (simp add: Let_def case_prod_unfold)
qed simp

lemma inv_CloseAll: "inv s \<Longrightarrow> inv (fst (Server_CloseAll s))"
  unfolding Server_CloseAll_def Let_def by (intro inv_close_sessions inv_delete)

lemma inv_writer: "inv s \<Longrightarrow> inv (fst (new_writer s st ch))"
  using inv_new_writer [of s st ch] by (simp add: new_writer_def Let_def case_prod_unfold)

lemma inv_close_stream: "inv s \<Longrightarrow> inv (close_stream s st)"
  unfolding close_stream_def by (rule inv_close)

lemma inv_sync_initialize:
  assumes "inv s" "writer_of (sv_io s) w ChannelSynchronous st"
  shows "inv (fst (serveSync_initialize s st h (Some w) sub))"
proof -
  obtain s1 r where i: "Server_Initialize s h sub st = (s1, r)" by fastforce
  have s1: "inv s1" using inv_Initialize [OF assms(1), of h sub st] i by simp
  show ?thesis
  proof (cases r)
    case (Inl e)
    with i s1 show ?thesis
      by (simp add: serveSync_initialize_def Let_def inv_count inv_close_stream inv_send)
  next
    case (Inr y)
    obtain p resp where y: "y = (p, resp)" by (cases y)
    note new = Initialize_new [OF i [unfolded Inr y]]
    obtain s2 e where s2: "send s1 (Some w) resp [] = (s2, e)" by fastforce
    have inv: "inv s2" using inv_send(1) [OF s1, of "Some w" resp "[]"] s2 by simp
    show ?thesis
    proof (cases e)
      case None
      let ?c = "Server_count s2 (\<lambda>c. c\<lparr>ct_SessionsOpened := ct_SessionsOpened c + 1\<rparr>)"
      have "writer_of (sv_io ?c) w ChannelSynchronous st" "se_sync (sv_heap ?c p) = Some st"
        using assms(2) new s2 writer_of_send [of s1 "Some w" resp "[]" w] send_heap [of s1 "Some w" resp "[]"] by simp_all
      from inv_syncW [OF inv_count(1) [OF inv] this] show ?thesis
        using i Inr y s2 None by (simp add: serveSync_initialize_def Let_def)
    next
      case (Some x)
      with i Inr y s2 inv show ?thesis by (simp add: serveSync_initialize_def inv_remove)
    qed
  qed
qed

lemma inv_sync_open: "inv s \<Longrightarrow> inv_opt (serveSync_open s st h)"
proof -
  assume "inv s"
  let ?w = "io_nwriters (sv_io s)"
  obtain s1 where w: "new_writer s st ChannelSynchronous = (s1, Some ?w)" "writer_of (sv_io s1) ?w ChannelSynchronous st"
    using writer_of_new [of "sv_io s" st ChannelSynchronous] by (simp add: new_writer_def NewMessageWriter_def)
  have s1: "inv s1" using inv_writer [OF \<open>inv s\<close>, of st ChannelSynchronous] w by simp
  show ?thesis
  proof (cases "readSubAddress Stream_Read (io_streams (sv_io s1) st) h (cf_MaxRxPayload (sv_cfg s1))")
    case None
    then show ?thesis by (simp add: serveSync_open_def w(1) inv_opt_def)
  next
    case (Some y)
    obtain t sub where y: "y = (t, sub)" by (cases y)
    have "inv (io_set_stream s1 st t)"
      using s1 readSubAddress_output [OF Some [unfolded y]] by (rule inv_read)
    moreover have "writer_of (sv_io (io_set_stream s1 st t)) ?w ChannelSynchronous st"
      using w(2) by (simp add: io_set_stream_def writer_of_def)
    ultimately show ?thesis
      using Some by (cases sub)
        (simp_all add: y serveSync_open_def w(1) inv_opt_return Let_def inv_sync_initialize inv_close_stream inv_send)
  qed
qed

lemma inv_async_open:
  assumes "inv s"
  shows "inv (fst (serveAsync_open s st h))"
proof -
  let ?w = "io_nwriters (sv_io s)"
  obtain s1 where w: "new_writer s st ChannelAsynchronous = (s1, Some ?w)" "writer_of (sv_io s1) ?w ChannelAsynchronous st"
    using writer_of_new [of "sv_io s" st ChannelAsynchronous] by (simp add: new_writer_def NewMessageWriter_def)
  have s1: "inv s1" using inv_writer [OF assms, of st ChannelAsynchronous] w by simp
  obtain s2 r where a: "Server_AsyncInitialize s1 h st = (s2, r)" by fastforce
  have s2: "inv s2" using inv_attach [OF s1, of h st] a by simp
  show ?thesis
  proof (cases r)
    case (Inl e)
    have "inv (fst (new_writer s2 st ChannelSynchronous))" using s2 by (rule inv_writer)
    with w(1) a Inl show ?thesis
      by (simp add: serveAsync_open_def Let_def case_prod_unfold inv_count inv_close_stream inv_send)
  next
    case (Inr y)
    obtain p resp where y: "y = (p, resp)" by (cases y)
    have att: "se_async (sv_heap s2 p) = Some st" "se_state (sv_heap s2 p) \<noteq> StatePairing"
      "writer_of (sv_io s2) ?w ChannelAsynchronous st"
      using a [unfolded Inr y] w(2) by (simp_all add: AsyncInitialize_iff)
    obtain s3 e where s3: "send s2 (Some ?w) resp [] = (s3, e)" by fastforce
    have inv: "inv s3" using inv_send(1) [OF s2, of "Some ?w" resp "[]"] s3 by simp
    have "writer_of (sv_io s3) ?w ChannelAsynchronous st" "sv_heap s3 = sv_heap s2"
      using att(3) s3 writer_of_send [of s2 "Some ?w" resp "[]" ?w] send_heap [of s2 "Some ?w" resp "[]"] by simp_all
    with inv_asyncW [OF inv] att have "inv (upd s3 p (\<lambda>se. Session_setAsyncWriter se (Some ?w)))" by simp
    with w(1) a Inr y s3 inv show ?thesis by (cases e) (simp_all add: serveAsync_open_def Let_def)
  qed
qed

lemma inv_Serve: "inv s \<Longrightarrow> inv_opt (Server_Serve E s st iks)"
proof -
  assume "inv s"
  have sync: "inv_opt (Server_serveSyncChannel E s st h iks)" if "inv s" for s h
    unfolding Server_serveSyncChannel_def Server_runSync_def using that
    by - (rule opt_pres inv_sync_open inv_runSync inv_remove | assumption | simp; fail)+
  have async: "inv_opt (Server_serveAsyncChannel E s st h iks)" if "inv s" for s h
    unfolding Server_serveAsyncChannel_def using that
    by - (rule opt_pres inv_async_open inv_runAsync | assumption | simp; fail)+
  show ?thesis
  proof (cases "ReadHeader Stream_Read (io_streams (sv_io s) st)")
    case None
    then show ?thesis by (simp add: Server_Serve_def inv_opt_def)
  next
    case (Some y)
    obtain t r where y: "y = (t, r)" by (cases y)
    have inv: "inv (io_set_stream s st t)"
      using \<open>inv s\<close> ReadHeader_output [OF Some [unfolded y]] by (rule inv_read)
    show ?thesis
      unfolding Server_Serve_def Some y bind.bind_lunit prod.case using inv
      by - (rule opt_pres sync async inv_writer inv_close_stream | assumption | simp add: inv_count inv_close_stream; fail)+
  qed
qed

end

section \<open>Interleavings\<close>

text \<open>
  The steps of the server, in any order: connections arrive and open a channel, their bytes
  come in, each channel loop handles its messages, the instrument requests service, sessions are
  torn down, the server shuts down. A handler is one step; the iterations of a response in
  progress are also steps of their own, so that the other channel's handlers may run
  between the reads of a long response.
\<close>

inductive server_step :: "('d, 'x) env \<Rightarrow> ('d, 'x) Server \<Rightarrow> ('d, 'x) Server \<Rightarrow> bool" for E where
  connection: "Server_Serve E s st iks = Some (s', err) \<Longrightarrow> server_step E s s'"
| open_sync: "serveSync_open s st h = Some (s', r) \<Longrightarrow> server_step E s s'"
| open_async: "serveAsync_open s st h = (s', ra) \<Longrightarrow> server_step E s s'"
| loop_started: "server_step E s (upd s p (\<lambda>se. Session_setSyncPending se True))"
| bytes_received: "same_output (io_streams (sv_io s) st) t \<Longrightarrow> server_step E s (io_set_stream s st t)"
| sync_message: "Server_handleSync E s ctx p msg buf q = Some (s', err) \<Longrightarrow> server_step E s s'"
| response_read: "SendResponse_iteration E s ctx p r k = (s', x) \<Longrightarrow> server_step E s s'"
| async_message: "Server_handleAsync E s ctx p msg evs = Some (s', err) \<Longrightarrow> server_step E s s'"
| service_request: "Server_ServiceRequest s sess b = (s', hdr) \<Longrightarrow> server_step E s s'"
| teardown: "Server_removeSession s p = (s', err) \<Longrightarrow> server_step E s s'"
| shutdown: "Server_CloseAll s = (s', err) \<Longrightarrow> server_step E s s'"

inductive server_reach :: "('d, 'x) env \<Rightarrow> ('d, 'x) Server \<Rightarrow> ('d, 'x) Server \<Rightarrow> bool" for E where
  reach_refl: "server_reach E s s"
| reach_step: "server_reach E s s' \<Longrightarrow> server_step E s' s'' \<Longrightarrow> server_reach E s s''"

context server_invariant
begin

lemma inv_step:
  assumes "server_step E s s'" "inv s"
  shows "inv s'"
  using assms
proof (cases rule: server_step.cases)
  case (connection st iks err)
  then show ?thesis using inv_Serve [OF assms(2), of E st iks] by (simp add: inv_opt_def)
next
  case (open_sync st h r)
  then show ?thesis using inv_sync_open [OF assms(2), of st h] by (simp add: inv_opt_def)
next
  case (open_async st h r)
  then show ?thesis using inv_async_open [OF assms(2), of st h] by simp
next
  case (loop_started p)
  then show ?thesis using assms(2) by (simp add: inv_upd)
next
  case (bytes_received st t)
  then show ?thesis using inv_read [OF assms(2)] by simp
next
  case (sync_message ctx p msg buf q err)
  then show ?thesis using inv_handleSync [OF assms(2), of E ctx p msg buf q] by (simp add: inv_opt_def)
next
  case (response_read ctx p r k x)
  then show ?thesis using inv_iteration [OF assms(2), of E ctx p r k] by simp
next
  case (async_message ctx p msg evs err)
  then show ?thesis using inv_handleAsync [OF assms(2), of E ctx p msg evs] by (simp add: inv_opt_def)
next
  case (service_request sess b hdr)
  then show ?thesis using inv_ServiceRequest [OF assms(2), of sess b] by simp
next
  case (teardown p err)
  then show ?thesis using inv_remove [OF assms(2), of p] by simp
next
  case (shutdown err)
  then show ?thesis using inv_CloseAll [OF assms(2)] by simp
qed

lemma inv_reach: "server_reach E s s' \<Longrightarrow> inv s \<Longrightarrow> inv s'"
  by (induction rule: server_reach.induct) (auto intro: inv_step)

end

section \<open>The table, the locks and the sessions\<close>

lemma io_updates [simp]: "sv_cfg (io_set_stream s st t) = sv_cfg s"
  "sv_sessions (io_set_stream s st t) = sv_sessions s" "sv_nextID (io_set_stream s st t) = sv_nextID s"
  "sv_nheap (io_set_stream s st t) = sv_nheap s" "sv_heap (io_set_stream s st t) = sv_heap s"
  "sv_locks (io_set_stream s st t) = sv_locks s"
  "sv_io (io_set_stream s st t) = (sv_io s)\<lparr>io_streams := (io_streams (sv_io s))(st := t)\<rparr>"
  by (simp_all add: io_set_stream_def)

lemma registry_inv_delete:
  assumes "registry_inv s"
  shows "registry_inv (s\<lparr>sv_sessions := AList.delete i (sv_sessions s)\<rparr>)"
proof -
  have "AList.delete i (sv_sessions s) = filter (\<lambda>x. i \<noteq> fst x) (sv_sessions s)"
    by (simp add: AList.delete_eq case_prod_unfold)
  moreover have "int (length (filter (\<lambda>x. i \<noteq> fst x) (sv_sessions s))) \<le> cf_MaxSessions (sv_cfg s)"
    using assms length_filter_le [of "\<lambda>x. i \<noteq> fst x" "sv_sessions s"] unfolding registry_inv_def by linarith
  ultimately show ?thesis using assms by (auto simp: registry_inv_def distinct_map intro: inj_on_subset)
qed

interpretation reg: server_invariant registry_inv
proof (unfold_locales, goal_cases)
  case (5 s p f)
  then show ?case by (auto simp: registry_inv_def serves_def evolves_def)
next
  case (12 s v st)
  then show ?case using registry_inv_allocate [OF 12, of v st] by (metis prod.collapse)
next
  case (13 s i)
  then show ?case by (rule registry_inv_delete)
qed (auto simp: registry_inv_def valid_Config_def)

lemma allocate_keeps [simp]:
  "sv_locks (fst (Server_allocateSession s v st)) = sv_locks s"
  "sv_cfg (fst (Server_allocateSession s v st)) = sv_cfg s"
  "sv_io (fst (Server_allocateSession s v st)) = sv_io s"
  by (auto simp: Server_allocateSession_def Server_allocateIDLocked_def Let_def split: option.splits prod.splits)

lemma allocate_heap:
  "p < sv_nheap s \<Longrightarrow> sv_heap (fst (Server_allocateSession s v st)) p = sv_heap s p"
  "sv_nheap s \<le> sv_nheap (fst (Server_allocateSession s v st))"
  by (auto simp: Server_allocateSession_def Server_allocateIDLocked_def Let_def split: option.splits prod.splits)

lemma allocate_new:
  "p < sv_nheap (fst (Server_allocateSession s v st)) \<Longrightarrow>
   p < sv_nheap s \<or>
   (\<exists>i. sv_heap (fst (Server_allocateSession s v st)) p = (newSession i v st (sv_cfg s))\<lparr>se_policy := sv_newPolicy s\<rparr>)"
  by (auto simp: Server_allocateSession_def Server_allocateIDLocked_def Let_def
      split: option.splits prod.splits if_splits)

definition sessions_ok :: "('d, 'x) Server \<Rightarrow> bool" where
  "sessions_ok s \<longleftrightarrow> valid_Config (sv_cfg s) \<and> (\<forall>p < sv_nheap s. session_ok (sv_heap s p))"

definition lived :: "(nat \<Rightarrow> 'x Session) \<Rightarrow> nat \<Rightarrow> ('d, 'x) Server \<Rightarrow> bool" where
  "lived h n s \<longleftrightarrow> n \<le> sv_nheap s \<and> (\<forall>p < n. evolves (h p) (sv_heap s p))"

interpretation lck: server_invariant "\<lambda>s. lock_inv (sv_locks s)"
  by unfold_locales simp_all

lemma session_ok_new:
  "valid_Config cfg \<Longrightarrow> session_ok ((newSession i v st cfg)\<lparr>se_policy := pol\<rparr>)"
  by (simp add: session_ok_def newSession_def valid_Config_def)

interpretation ses: server_invariant sessions_ok
proof (unfold_locales, goal_cases)
  case (5 s p f)
  then show ?case by (auto simp: sessions_ok_def serves_def evolves_def)
next
  case (11 s p)
  then show ?case using evolves_ops(4) by (auto simp: sessions_ok_def evolves_def)
next
  case (12 s v st)
  show ?case
    unfolding sessions_ok_def
  proof (intro conjI allI impI)
    fix p assume "p < sv_nheap (fst (Server_allocateSession s v st))"
    then show "session_ok (sv_heap (fst (Server_allocateSession s v st)) p)"
      using 12 allocate_heap(1) [of p s v st] allocate_new [of p s v st] session_ok_new
      by (auto simp: sessions_ok_def)
  qed (use 12 in \<open>simp add: sessions_ok_def\<close>)
qed (simp_all add: sessions_ok_def)

interpretation life: server_invariant "lived h n" for h n
proof (unfold_locales, goal_cases)
  case (5 s p f)
  then show ?case by (auto simp: lived_def serves_def intro: evolves_trans)
next
  case (11 s p)
  then show ?case by (auto simp: lived_def intro: evolves_trans [OF _ evolves_ops(4)])
next
  case (12 s v st)
  then show ?case
    using allocate_heap(1) [of _ s v st] allocate_heap(2) [of s v st] by (simp add: lived_def)
next
  case (15 s w st p)
  then show ?case by (auto simp: lived_def intro: evolves_trans [OF _ evolves_ops(6)])
next
  case (16 s w st p)
  then show ?case by (auto simp: lived_def intro: evolves_trans [OF _ evolves_ops(7)])
qed (simp_all add: lived_def)

section \<open>What is on the wire\<close>

text \<open>Every connection carries whole messages only, each of a type that is legal on the channel
  of a writer of that connection.\<close>

definition framed_stream :: "io \<Rightarrow> nat \<Rightarrow> bool" where
  "framed_stream io st \<longleftrightarrow> tr_wfaults (io_streams io st) = [] \<and>
     (\<exists>ms. io_out io st = wire ms \<and>
        (\<forall>m \<in> set ms. \<exists>w < io_nwriters io. mw_stream (io_writers io w) = st \<and>
           MessageType_LegalOn (hType (fst m)) (mw_channel (io_writers io w))))"

definition framed :: "io \<Rightarrow> bool" where
  "framed io \<longleftrightarrow> (\<forall>st. framed_stream io st) \<and>
     (\<forall>w < io_nwriters io. length (mw_buf (io_writers io w)) = 16) \<and>
     (\<forall>w \<ge> io_nwriters io. mw_channel (io_writers io w) = ChannelNone)"

lemma WriteMessage_whole:
  assumes "length buf = 16" "tr_wfaults t = []" "WriteMessage Stream_Write t h b buf = (t', buf', err)"
  shows "length buf' = 16 \<and> (t' = t \<or> t' = t\<lparr>tr_out := tr_out t @ frame h b\<rparr>)"
  using WriteMessage_buf [OF assms(1,3)] WriteMessage_clean [OF assms(1), of h b t] assms
  by (cases "tr_closed t")
    (auto simp: WriteMessage_def WriteHeader_encode Stream_Write_def Let_def split: if_splits)

text \<open>Writers keep their connection and channel, and more writers do no harm.\<close>

lemma framed_stream_mono:
  assumes "framed_stream io st" "io_streams io' st = io_streams io st" "io_nwriters io \<le> io_nwriters io'"
    "\<And>w. w < io_nwriters io \<Longrightarrow> mw_stream (io_writers io' w) = mw_stream (io_writers io w) \<and>
       mw_channel (io_writers io' w) = mw_channel (io_writers io w)"
  shows "framed_stream io' st"
  using assms unfolding framed_stream_def io_out_def by (metis order_less_le_trans)

text \<open>A connection to which one of its writers has added a message.\<close>

lemma framed_stream_append:
  assumes "framed_stream io st" "mw_stream (io_writers io v) = st" "v < io_nwriters io"
    "MessageType_LegalOn (hType h) (mw_channel (io_writers io v))"
    "io_streams io' st = (io_streams io st)\<lparr>tr_out := io_out io st @ frame h b\<rparr>"
    "io_nwriters io' = io_nwriters io"
    "\<And>u. mw_stream (io_writers io' u) = mw_stream (io_writers io u) \<and>
      mw_channel (io_writers io' u) = mw_channel (io_writers io u)"
  shows "framed_stream io' st"
proof -
  obtain ms where ms: "io_out io st = wire ms"
      "\<forall>m \<in> set ms. \<exists>w < io_nwriters io. mw_stream (io_writers io w) = st \<and>
         MessageType_LegalOn (hType (fst m)) (mw_channel (io_writers io w))"
    using assms(1) unfolding framed_stream_def by blast
  have "\<exists>w < io_nwriters io. mw_stream (io_writers io w) = st \<and>
      MessageType_LegalOn (hType (fst m)) (mw_channel (io_writers io w))" if "m \<in> set (ms @ [(h, b)])" for m
    using that ms(2) assms(2-4) by auto
  moreover have "io_out io' st = wire (ms @ [(h, b)])" using assms(5) ms(1) by (simp add: io_out_def)
  moreover have "tr_wfaults (io_streams io' st) = []" using assms(1,5) by (simp add: framed_stream_def)
  ultimately show ?thesis unfolding framed_stream_def assms(6) using assms(7) by metis
qed

lemma MessageWriter_Write_result:
  assumes "MessageWriter_Write io v h b = (io', err)"
    "MessageType_LegalOn (hType h) (mw_channel (io_writers io v))"
    "WriteMessage Stream_Write (io_streams io (mw_stream (io_writers io v))) h b (mw_buf (io_writers io v)) = (t, buf, e)"
  shows "io_streams io' (mw_stream (io_writers io v)) = t" "mw_buf (io_writers io' v) = buf"
  using assms by (cases e; auto simp: MessageWriter_Write_def Let_def)+

lemma framed_write:
  assumes "framed io"
  shows "framed (fst (writer_Write io w h b))"
proof (cases "\<exists>v. w = Some v \<and> MessageType_LegalOn (hType h) (mw_channel (io_writers io v))")
  case False
  then have "fst (writer_Write io w h b) = io"
    by (auto simp: writer_Write_def MessageWriter_Write_wrong_channel split: option.splits)
  with assms show ?thesis by simp
next
  case True
  then obtain v where v: "w = Some v" "MessageType_LegalOn (hType h) (mw_channel (io_writers io v))" by blast
  have n: "v < io_nwriters io"
  proof (rule ccontr)
    assume "\<not> v < io_nwriters io"
    then have "mw_channel (io_writers io v) = ChannelNone" using assms by (simp add: framed_def)
    with v(2) show False by (simp add: MessageType_LegalOn_def)
  qed
  obtain io' err where w: "MessageWriter_Write io v h b = (io', err)" by fastforce
  let ?st = "mw_stream (io_writers io v)"
  obtain t buf e where m: "WriteMessage Stream_Write (io_streams io ?st) h b (mw_buf (io_writers io v)) = (t, buf, e)"
    by (metis prod.exhaust)
  have f: "framed_stream io ?st" and buf: "length (mw_buf (io_writers io v)) = 16"
    using assms n by (simp_all add: framed_def)
  have wf: "tr_wfaults (io_streams io ?st) = []" using f by (simp add: framed_stream_def)
  note t = WriteMessage_whole [OF buf wf m]
  note io' = MessageWriter_Write_result [OF w v(2) m]
  note keep = MessageWriter_Write_effect [OF w]
  have wr: "mw_stream (io_writers io' u) = mw_stream (io_writers io u) \<and>
      mw_channel (io_writers io' u) = mw_channel (io_writers io u)" for u
    using keep(2) [of u] keep(3,4) by (cases "u = v") simp_all
  have own: "framed_stream io' ?st"
  proof (cases "t = io_streams io ?st")
    case True
    with io'(1) keep(5) wr show ?thesis by (intro framed_stream_mono [OF f]) simp_all
  next
    case False
    with t io'(1) have "io_streams io' ?st = (io_streams io ?st)\<lparr>tr_out := io_out io ?st @ frame h b\<rparr>"
      by (simp add: io_out_def)
    then show ?thesis by (rule framed_stream_append [OF f refl n v(2) _ keep(5) wr])
  qed
  have "framed_stream io' st" for st
  proof (cases "st = ?st")
    case False
    have "framed_stream io st" using assms by (simp add: framed_def)
    then show ?thesis by (rule framed_stream_mono) (use keep(1) [OF False] keep(5) wr in simp_all)
  qed (use own in simp)
  moreover have "length (mw_buf (io_writers io' u)) = 16" if "u < io_nwriters io'" for u
    using assms that io'(2) conjunct1 [OF t] keep(2) [of u] keep(5) by (cases "u = v") (simp_all add: framed_def)
  moreover have "mw_channel (io_writers io' u) = ChannelNone" if "io_nwriters io' \<le> u" for u
    using assms that wr [of u] keep(5) by (simp add: framed_def)
  ultimately have "framed io'" by (simp add: framed_def)
  then show ?thesis using v(1) w by (simp add: writer_Write_def)
qed

lemma framed_new_writer:
  assumes "framed io"
  shows "framed (fst (NewMessageWriter io st ch))"
proof -
  have "framed_stream (fst (NewMessageWriter io st ch)) u" for u
  proof -
    have "framed_stream io u" using assms by (simp add: framed_def)
    then show ?thesis by (rule framed_stream_mono) (simp_all add: NewMessageWriter_def)
  qed
  moreover have "\<forall>w < io_nwriters io. length (mw_buf (io_writers io w)) = 16"
    "\<forall>w \<ge> io_nwriters io. mw_channel (io_writers io w) = ChannelNone"
    using assms by (simp_all add: framed_def)
  ultimately show ?thesis by (simp add: framed_def NewMessageWriter_def less_Suc_eq)
qed

lemma framed_stream_same:
  assumes "framed io" "same_output (io_streams io st) t"
  shows "framed (io\<lparr>io_streams := (io_streams io)(st := t)\<rparr>)"
proof -
  have "framed_stream (io\<lparr>io_streams := (io_streams io)(st := t)\<rparr>) u" for u
    using assms by (cases "u = st") (simp_all add: framed_def framed_stream_def io_out_def same_output_def)
  then show ?thesis using assms(1) by (simp add: framed_def)
qed

lemma framed_close: "framed io \<Longrightarrow> framed (fst (io_Close io st))"
proof -
  assume "framed io"
  then have "framed_stream (fst (io_Close io st)) u" for u
    by (cases "u = st") (simp_all add: framed_def framed_stream_def io_out_def io_Close_def Stream_Close_def)
  then show ?thesis using \<open>framed io\<close> by (simp add: framed_def io_Close_def Stream_Close_def)
qed

interpretation frm: server_invariant "\<lambda>s. framed (sv_io s)"
  by unfold_locales
    (simp_all add: framed_write framed_new_writer framed_close framed_stream_same del: fun_upd_apply)

lemma framed_empty: "framed empty_io"
proof -
  have "framed_stream empty_io st" for st
    unfolding framed_stream_def
    by (intro conjI exI [of _ "[]"]) (simp_all add: empty_io_def quiet_transport_def io_out_def)
  then show ?thesis by (simp add: framed_def empty_io_def)
qed

lemma framed_ready: "framed (sv_io (ready_on d))"
  unfolding ready_on_def by (simp add: framed_empty framed_new_writer)

section \<open>Properties\<close>

text \<open>
  C9. The bookkeeping of the server survives every interleaving. Whatever connections arrive,
  whatever messages they carry, however the two channels of every session interleave with each
  other, with service requests, teardowns and shutdowns, and whatever the instrument answers:
  the session table has distinct non-zero identifiers, each leading to its own session, and no
  more sessions than configured; an open session has both its connections, a waiting one only
  the first and a closed one none, and its transmit limit is never below a header; and the lock
  manager's state is consistent.
\<close>
theorem server_bookkeeping:
  assumes "New (Some dev) cfg io = Inr s" and "server_reach E s s'"
  shows "registry_inv s' \<and> sessions_ok s' \<and> lock_inv (sv_locks s')"
proof -
  have "sessions_ok s" "lock_inv (sv_locks s)"
    using assms(1) by (auto simp: New_def sessions_ok_def Let_def validate_valid split: option.splits)
  then show ?thesis
    using reg.inv_reach ses.inv_reach lck.inv_reach assms(2) registry_inv_New [OF assms(1)] by blast
qed

theorem server_bookkeeping_witness:
  "\<exists>s'. server_step \<lparr>en_dev = testdevice_ops, en_pol = no_policy\<rparr> (demo_server []) s' \<and>
     registry_inv s' \<and> sessions_ok s'"
proof -
  let ?E = "\<lparr>en_dev = testdevice_ops, en_pol = no_policy\<rparr>"
  obtain s' err where "Server_CloseAll (demo_server []) = (s', err)" by fastforce
  then have "server_step ?E (demo_server []) s'" by (rule shutdown)
  with server_bookkeeping [OF demo_server_New reach_step [OF reach_refl this]] show ?thesis by blast
qed

text \<open>
  C10. On connections whose writes succeed, what any interleaving of handlers leaves on a connection is
  a sequence of whole messages, so a peer can always find the next header; and each message
  has a type that is legal on a channel for which the connection has a writer.
\<close>
theorem wire_whole_messages:
  assumes "framed (sv_io s)" and "server_reach E s s'"
  shows "\<exists>ms. io_out (sv_io s') st = wire ms \<and>
    (\<forall>m \<in> set ms. \<exists>w < io_nwriters (sv_io s'). mw_stream (io_writers (sv_io s') w) = st \<and>
       MessageType_LegalOn (hType (fst m)) (mw_channel (io_writers (sv_io s') w)))"
  using frm.inv_reach [OF assms(2,1)] unfolding framed_def framed_stream_def by blast

theorem wire_whole_messages_witness:
  "\<exists>s' ms. server_step \<lparr>en_dev = testdevice_ops, en_pol = no_policy\<rparr> (ready_server []) s' \<and>
     io_out (sv_io s') 2 = wire ms"
proof -
  let ?E = "\<lparr>en_dev = testdevice_ops, en_pol = no_policy\<rparr>"
  obtain s' h where "Server_ServiceRequest (ready_server []) (Some 0) 64 = (s', h)" by fastforce
  then have "server_step ?E (ready_server []) s'" by (rule service_request)
  with wire_whole_messages [OF framed_ready reach_step [OF reach_refl this], of 2] show ?thesis by blast
qed

text \<open>
  C12. The life of a session goes one way. Over any interleaving its identifier, its protocol
  version and its receive limit never change, once it has both channels it never waits for one
  again, and once it is closed it stays closed.
\<close>
theorem session_life:
  assumes "server_reach E s s'" and "p < sv_nheap s"
  shows "se_id (sv_heap s' p) = se_id (sv_heap s p) \<and>
    se_version (sv_heap s' p) = se_version (sv_heap s p) \<and> se_maxRx (sv_heap s' p) = se_maxRx (sv_heap s p) \<and>
    (se_state (sv_heap s p) = StateClosed \<longrightarrow> se_state (sv_heap s' p) = StateClosed) \<and>
    (se_state (sv_heap s' p) = StatePairing \<longrightarrow> se_state (sv_heap s p) = StatePairing)"
proof -
  have "lived (sv_heap s) (sv_nheap s) s" by (simp add: lived_def)
  from life.inv_reach [OF assms(1) this] assms(2) show ?thesis by (simp add: lived_def evolves_def)
qed

theorem session_life_witness:
  "\<exists>s'. server_step \<lparr>en_dev = testdevice_ops, en_pol = no_policy\<rparr> (ready_server []) s' \<and>
     se_id (sv_heap s' 0) = 1"
proof -
  let ?E = "\<lparr>en_dev = testdevice_ops, en_pol = no_policy\<rparr>"
  obtain s' err where "Server_removeSession (ready_server []) 0 = (s', err)" by fastforce
  then have step: "server_step ?E (ready_server []) s'" by (rule teardown)
  have "0 < sv_nheap (ready_server [])" by (simp add: ready_on_def)
  from session_life [OF reach_step [OF reach_refl step] this] step show ?thesis
    by (auto simp: ready_session_def newSession_def)
qed

section \<open>The end of a session\<close>

lemma Initialize_locks: "sv_locks (fst (Server_Initialize s h sub st)) = sv_locks s"
proof -
  have "sv_locks s' = sv_locks s" if "Server_allocateSession s v st = (s', r)" for v s' r
    using allocate_keeps(1) [of s v st] that by simp
  then show ?thesis by (auto simp: Server_Initialize_def Let_def split: prod.splits sum.splits)
qed

lemma send_keeps:
  "sv_sessions (fst (send s w h b)) = sv_sessions s" "sv_locks (fst (send s w h b)) = sv_locks s"
  "sv_heap (fst (send s w h b)) = sv_heap s"
  "sv_sessions (fst (send_fatal s w c d)) = sv_sessions s" "sv_locks (fst (send_fatal s w c d)) = sv_locks s"
  by (simp_all add: send_def send_fatal_def Let_def case_prod_unfold)

lemma close_stream_sel [simp]:
  "sv_sessions (close_stream s st) = sv_sessions s" "sv_locks (close_stream s st) = sv_locks s"
  "stream_closed (close_stream s st) st"
  by (simp_all add: close_stream_def stream_closed_def io_Close_def Stream_Close_def)

lemma count_closed [simp]:
  "stream_closed (count_fatal s) st = stream_closed s st" "stream_closed (Server_count s f) st = stream_closed s st"
  "sv_sessions (count_fatal s) = sv_sessions s" "sv_locks (count_fatal s) = sv_locks s"
  "sv_sessions (Server_count s f) = sv_sessions s" "sv_locks (Server_count s f) = sv_locks s"
  "sv_heap (Server_count s f) = sv_heap s"
  by (simp_all add: count_fatal_def Server_count_def stream_closed_def)

lemma removeSession_result:
  assumes "se_id (sv_heap s p) = i"
  shows "sv_sessions (fst (Server_removeSession s p)) = AList.delete i (sv_sessions s)"
    "sv_locks (fst (Server_removeSession s p)) = LockManager_ReleaseAll (sv_locks s) i"
    "se_state (sv_heap (fst (Server_removeSession s p)) p) = StateClosed"
    "stream_closed (fst (Server_removeSession s p)) st \<longleftrightarrow>
       stream_closed s st \<or> se_sync (sv_heap s p) = Some st \<or> se_async (sv_heap s p) = Some st"
proof -
  let ?s = "s\<lparr>sv_locks := LockManager_ReleaseAll (sv_locks s) i, sv_sessions := AList.delete i (sv_sessions s)\<rparr>"
  have r: "fst (Server_removeSession s p) = fst (Session_close ?s p)"
    using assms by (simp add: Server_removeSession_def Let_def)
  have c: "sv_sessions (fst (Session_close ?s p)) = sv_sessions ?s" "sv_locks (fst (Session_close ?s p)) = sv_locks ?s"
    "se_state (sv_heap (fst (Session_close ?s p)) p) = StateClosed"
    by (simp_all add: Session_close_def Let_def case_prod_unfold cancel_def split: option.splits)
  show "sv_sessions (fst (Server_removeSession s p)) = AList.delete i (sv_sessions s)"
    "sv_locks (fst (Server_removeSession s p)) = LockManager_ReleaseAll (sv_locks s) i"
    "se_state (sv_heap (fst (Server_removeSession s p)) p) = StateClosed"
    unfolding r c by simp_all
  show "stream_closed (fst (Server_removeSession s p)) st \<longleftrightarrow>
       stream_closed s st \<or> se_sync (sv_heap s p) = Some st \<or> se_async (sv_heap s p) = Some st"
    unfolding r Session_close_streams by (simp add: stream_closed_def)
qed

text \<open>A session that is being served keeps its identity, its place in the table and the locks.\<close>

definition serving :: "(uint16 \<times> nat) list \<Rightarrow> LockManager \<Rightarrow> nat \<Rightarrow> uint16 \<Rightarrow> nat \<Rightarrow> ('d, 'x) Server \<Rightarrow> bool" where
  "serving table m p i st s \<longleftrightarrow> sv_sessions s = table \<and> sv_locks s = m \<and> se_id (sv_heap s p) = i \<and>
     se_sync (sv_heap s p) = Some st"

interpretation own: channel_invariant "serving table m p i st" for table m p i st
  by unfold_locales (auto simp: serving_def serves_def evolves_def)

definition left_clean :: "('d, 'x) Server \<Rightarrow> nat \<Rightarrow> ('d, 'x) Server \<Rightarrow> bool" where
  "left_clean s st s' \<longleftrightarrow> sv_sessions s' = sv_sessions s \<and> stream_closed s' st \<and>
     (sv_locks s' = sv_locks s \<or>
      (\<exists>i. Server_Session s i = None \<and> sv_locks s' = LockManager_ReleaseAll (sv_locks s) i))"

lemma serving_removed:
  assumes "serving (sv_sessions s @ [(i, p)]) (sv_locks s) p i st s1" "Server_Session s i = None"
  shows "left_clean s st (fst (Server_removeSession s1 p))"
proof -
  have "AList.delete i (sv_sessions s @ [(i, p)]) = sv_sessions s"
    using assms(2) by (simp add: AList.delete_eq Server_Session_def map_of_eq_None_iff)
      (force simp: filter_id_conv)
  then show ?thesis
    using assms removeSession_result [of s1 p i] by (auto simp: left_clean_def serving_def)
qed

lemma sync_initialize_result:
  assumes "registry_inv s" "serveSync_initialize s st h w sub = (s1, r)"
  shows "case r of
      Inl err \<Rightarrow> left_clean s st s1
    | Inr p \<Rightarrow> \<exists>i. Server_Session s i = None \<and> serving (sv_sessions s @ [(i, p)]) (sv_locks s) p i st s1"
  using assms(1)
proof (cases rule: Initialize_cases [of s h sub st])
  case (opened s' i)
  let ?p = "sv_nheap s"
  note open' = opened(1)
  obtain resp where resp: "Server_Initialize s h sub st = (s', Inr (?p, resp))" using open' by blast
  have m: "sv_locks s' = sv_locks s" using Initialize_locks [of s h sub st] resp by simp
  have free: "Server_Session s i = None" using opened(5) by (simp add: Server_Session_def)
  obtain s2 e where snd': "send s' w resp [] = (s2, e)" by fastforce
  have own: "serving (sv_sessions s @ [(i, ?p)]) (sv_locks s) ?p i st s2"
    using send_keeps(1-3) [of s' w resp "[]"] snd' m opened(4,7) by (simp add: serving_def newSession_def)
  show ?thesis
  proof (cases e)
    case None
    have "serving (sv_sessions s @ [(i, ?p)]) (sv_locks s) ?p i st s1" "r = Inr ?p"
      using assms(2) resp snd' None own by (auto simp: serveSync_initialize_def serving_def Let_def)
    with free show ?thesis by auto
  next
    case (Some x)
    with assms(2) resp snd' have "s1 = fst (Server_removeSession s2 ?p)" "r = Inl (Some x)"
      by (auto simp: serveSync_initialize_def)
    with serving_removed [OF own free] show ?thesis by simp
  qed
qed (use assms(2) in \<open>auto simp: serveSync_initialize_def left_clean_def send_keeps Let_def\<close>)

lemma sync_open_result:
  assumes "registry_inv s" "serveSync_open s st h = Some (s1, r)"
  shows "case r of
      Inl err \<Rightarrow> left_clean s st s1
    | Inr p \<Rightarrow> \<exists>i. Server_Session s i = None \<and> serving (sv_sessions s @ [(i, p)]) (sv_locks s) p i st s1"
proof -
  obtain io w where w: "new_writer s st ChannelSynchronous = (s\<lparr>sv_io := io\<rparr>, w)"
    by (simp add: new_writer_def case_prod_unfold Let_def)
  then obtain t sub c d where sub: "(case sub of
        Inl e \<Rightarrow> (close_stream (fst (send_fatal (io_set_stream (s\<lparr>sv_io := io\<rparr>) st t) w c d)) st, Inl (Some e))
      | Inr sub \<Rightarrow> serveSync_initialize (io_set_stream (s\<lparr>sv_io := io\<rparr>) st t) st h w sub) = (s1, r)"
    using assms(2) by (auto simp: serveSync_open_def Let_def)
  let ?s = "io_set_stream (s\<lparr>sv_io := io\<rparr>) st t"
  have "registry_inv ?s" using assms(1) by (rule registry_inv_cong) simp_all
  note init = sync_initialize_result [OF this]
  have eq: "left_clean ?s st = left_clean s st" "Server_Session ?s = Server_Session s"
    by (simp_all add: left_clean_def fun_eq_iff Server_Session_def)
  show ?thesis
  proof (cases sub)
    case (Inl e)
    then have "s1 = close_stream (fst (send_fatal ?s w c d)) st" "r = Inl (Some e)"
      using sub by auto
    then show ?thesis by (simp add: left_clean_def send_keeps)
  next
    case (Inr y)
    with sub init [of st h w y s1 r] eq show ?thesis by (cases r) simp_all
  qed
qed



end
