(* ===== verification/Connection.thy ===== *)
theory Connection
  imports Conversation System
begin

text \<open>
  From two connections to a conversation: what the handshakes of the two channels leave is a session
  in which the loop of \<open>Conversation\<close> runs.
\<close>

section \<open>The synchronous channel\<close>

definition initialize_response :: "Version \<Rightarrow> uint16 \<Rightarrow> Header" where
  "initialize_response v i = zero_Header\<lparr>hType := InitializeResponse, hParameter := EncodeInitializeResponseParameter v i\<rparr>"

lemma Initialize_frame:
  assumes "Server_Initialize s h sub st = (s', r)"
  shows "sv_io s' = sv_io s" "sv_dev s' = sv_dev s" "r = Inr x \<Longrightarrow> Version10 \<le> fst (DecodeInitializeParameter (hParameter h))"
  using assms
  by (auto simp: Server_Initialize_def Server_allocateSession_def Server_allocateIDLocked_def Version_Less_less not_less Let_def
      simp del: Version10_def split: if_splits prod.splits sum.splits option.splits)

lemma initialize_opened:
  assumes "registry_inv s" "writer_ok (sv_io s) w ChannelSynchronous st" "up (sv_io s) st"
    "serveSync_initialize s st h (Some w) sub = (s1, Inr p)"
  obtains i v where
    "sv_heap s1 p = (newSession i v st (sv_cfg s))\<lparr>se_policy := sv_newPolicy s, se_syncW := Some w\<rparr>"
    "Version10 \<le> v" "Server_Session s1 i = Some p" "sv_cfg s1 = sv_cfg s" "sv_dev s1 = sv_dev s"
    "sv_io s1 = sent (sv_io s) w (initialize_response v i) []"
  using assms(1)
proof (cases rule: Initialize_cases [of s h sub st])
  case (opened s' i)
  define v where "v = min (fst (DecodeInitializeParameter (hParameter h))) (cf_MaxVersion (sv_cfg s))"
  have fr: "sv_io s' = sv_io s" "sv_dev s' = sv_dev s" "Version10 \<le> fst (DecodeInitializeParameter (hParameter h))"
    using Initialize_frame [OF opened(1)] by simp_all
  have v: "Version10 \<le> v" using fr(3) assms(1) by (simp add: v_def registry_inv_def valid_Config_def del: Version10_def)
  have snd: "send s' (Some w) (initialize_response v i) [] =
      (s'\<lparr>sv_io := sent (sv_io s) w (initialize_response v i) []\<rparr>, None)"
    using send_clean [of s' w ChannelSynchronous st "initialize_response v i" "[]"] assms(2,3) fr(1)
    by (simp add: initialize_response_def message_lookup zero_Header_def)
  have eq: "p = sv_nheap s" "s1 = upd (Server_count (s'\<lparr>sv_io := sent (sv_io s) w (initialize_response v i) []\<rparr>)
      (\<lambda>c. c\<lparr>ct_SessionsOpened := ct_SessionsOpened c + 1\<rparr>)) p (\<lambda>se. se\<lparr>se_syncW := Some w\<rparr>)"
    using assms(4) snd opened(1) unfolding v_def [symmetric] initialize_response_def [symmetric]
    by (auto simp: serveSync_initialize_def Let_def)
  have "Server_Session s1 i = Some p" using opened(4,5) eq by (simp add: Server_Session_def map_add_def)
  then show ?thesis
    using that [of i v] v eq opened(6,7) fr(2) by (simp add: v_def [symmetric] newSession_def)
qed (use assms(4) in \<open>auto simp: serveSync_initialize_def Let_def\<close>)

lemma initialize_admits:
  assumes "registry_inv s" "writer_ok (sv_io s) w ChannelSynchronous st" "up (sv_io s) st"
    "Server_Initialize s h sub st = (s', Inr (p, resp))"
  shows "\<exists>s1. serveSync_initialize s st h (Some w) sub = (s1, Inr p)"
  using assms(1)
proof (cases rule: Initialize_cases [of s h sub st])
  case (opened t i)
  then have "hType resp = InitializeResponse" "hLength resp = 0" using assms(4) by (auto simp: zero_Header_def)
  then have "snd (send s' (Some w) resp []) = None"
    using send_clean [of s' w ChannelSynchronous st resp "[]"] assms(2,3) Initialize_frame(1) [OF assms(4)]
    by (simp add: message_lookup)
  then show ?thesis using assms(4) by (cases "send s' (Some w) resp []") (simp add: serveSync_initialize_def Let_def)
qed (use assms(4) in auto)

lemma sent_rest:
  "io_nwriters (sent io w h b) = io_nwriters io"
  "x \<noteq> mw_stream (io_writers io w) \<Longrightarrow> io_streams (sent io w h b) x = io_streams io x"
  "x \<noteq> w \<Longrightarrow> io_writers (sent io w h b) x = io_writers io x"
  by (simp_all add: sent_def Let_def)

lemma sync_opened:
  assumes "registry_inv s" "up (sv_io s) st" "serveSync_open s st h = Some (s1, Inr p)"
  obtains i v where
    "sv_heap s1 p = (newSession i v st (sv_cfg s))\<lparr>se_policy := sv_newPolicy s, se_syncW := Some (io_nwriters (sv_io s))\<rparr>"
    "Version10 \<le> v" "Server_Session s1 i = Some p" "sv_cfg s1 = sv_cfg s" "sv_dev s1 = sv_dev s"
    "io_nwriters (sv_io s1) = Suc (io_nwriters (sv_io s))"
    "writer_ok (sv_io s1) (io_nwriters (sv_io s)) ChannelSynchronous st" "up (sv_io s1) st"
    "io_out (sv_io s1) st = io_out (sv_io s) st @ frame (initialize_response v i) []"
    "\<And>x. x \<noteq> st \<Longrightarrow> io_streams (sv_io s1) x = io_streams (sv_io s) x"
proof -
  let ?w = "io_nwriters (sv_io s)"
  define sn where "sn = fst (new_writer s st ChannelSynchronous)"
  have nw: "new_writer s st ChannelSynchronous = (sn, Some ?w)"
    by (simp add: sn_def new_writer_def NewMessageWriter_def)
  obtain t r where r: "readSubAddress Stream_Read (io_streams (sv_io sn) st) h (cf_MaxRxPayload (sv_cfg sn)) = Some (t, r)"
    using assms(3) nw by (auto simp: serveSync_open_def)
  then obtain sub where t: "readSubAddress Stream_Read (io_streams (sv_io sn) st) h (cf_MaxRxPayload (sv_cfg sn)) = Some (t, Inr sub)"
    "serveSync_initialize (io_set_stream sn st t) st h (Some ?w) sub = (s1, Inr p)"
    using assms(3) nw by (cases r) (simp_all add: serveSync_open_def Let_def)
  have sn: "sv_io sn = fst (NewMessageWriter (sv_io s) st ChannelSynchronous)" "sv_cfg sn = sv_cfg s"
    "sv_dev sn = sv_dev s" "sv_newPolicy sn = sv_newPolicy s" "registry_inv sn"
    using assms(1) by (simp_all add: sn_def new_writer_def case_prod_unfold Let_def registry_inv_def)
  define si where "si = io_set_stream sn st t"
  have si: "sv_cfg si = sv_cfg s" "sv_dev si = sv_dev s" "sv_newPolicy si = sv_newPolicy s" "registry_inv si"
    using sn by (simp_all add: si_def io_set_stream_def registry_inv_def)
  have io: "writer_ok (sv_io si) ?w ChannelSynchronous st" "up (sv_io si) st" "io_out (sv_io si) st = io_out (sv_io s) st"
    "io_nwriters (sv_io si) = Suc ?w" "\<And>x. x \<noteq> st \<Longrightarrow> io_streams (sv_io si) x = io_streams (sv_io s) x"
    using assms(2) readSubAddress_output [OF t(1)] sn(1)
    by (simp_all add: si_def io_set_stream_def NewMessageWriter_def writer_ok_def up_def io_out_def same_output_def)
  from initialize_opened [OF si(4) io(1,2) t(2) [folded si_def]] obtain i v where
    s1: "sv_heap s1 p = (newSession i v st (sv_cfg s))\<lparr>se_policy := sv_newPolicy s, se_syncW := Some ?w\<rparr>"
    "Version10 \<le> v" "Server_Session s1 i = Some p" "sv_cfg s1 = sv_cfg s" "sv_dev s1 = sv_dev s"
    "sv_io s1 = sent (sv_io si) ?w (initialize_response v i) []"
    unfolding si(1-3) by blast
  have st: "mw_stream (io_writers (sv_io si) ?w) = st" using io(1) by (simp add: writer_ok_def)
  show ?thesis
    by (rule that [OF s1(1-5)]) (use io st in \<open>simp_all add: s1(6) sent_rest\<close>)
qed

section \<open>The asynchronous channel\<close>

lemma async_opened:
  assumes "hType h = AsyncInitialize" "Server_Session s (ucast (hParameter h)) = Some p"
    "se_state (sv_heap s p) = StatePairing" "se_async (sv_heap s p) = None" "up (sv_io s) st"
  obtains s' a where "serveAsync_open s st h = (s', Inr p)" "hType a = AsyncInitializeResponse"
    "sv_heap s' p = (sv_heap s p)\<lparr>se_async := Some st, se_state := StateReady, se_asyncW := Some (io_nwriters (sv_io s))\<rparr>"
    "sv_cfg s' = sv_cfg s" "sv_dev s' = sv_dev s"
    "sv_io s' = sent (fst (NewMessageWriter (sv_io s) st ChannelAsynchronous)) (io_nwriters (sv_io s)) a []"
proof -
  let ?w = "io_nwriters (sv_io s)" and ?io = "fst (NewMessageWriter (sv_io s) st ChannelAsynchronous)"
  let ?sn = "s\<lparr>sv_io := ?io\<rparr>"
  have nw: "new_writer s st ChannelAsynchronous = (?sn, Some ?w)"
    by (simp add: new_writer_def NewMessageWriter_def)
  let ?t = "upd ?sn p (\<lambda>se. se\<lparr>se_async := Some st, se_state := StateReady\<rparr>)"
  let ?a = "Server_asyncInitializeResponse ?t p"
  have "Server_AsyncInitialize ?sn h st = (?t, Inr (p, ?a))"
    unfolding AsyncInitialize_iff using assms(1-4) by (simp add: Server_Session_def)
  moreover have a: "hType ?a = AsyncInitializeResponse" "hLength ?a = 0"
    by (simp_all add: Server_asyncInitializeResponse_def zero_Header_def Let_def)
  moreover have "send ?t (Some ?w) ?a [] = (?t\<lparr>sv_io := sent ?io ?w ?a []\<rparr>, None)"
    using send_clean [of ?t ?w ChannelAsynchronous st ?a "[]"] a assms(5)
    by (simp add: message_lookup writer_ok_def up_def NewMessageWriter_def)
  ultimately show ?thesis using nw
    by (intro that [of "upd (?t\<lparr>sv_io := sent ?io ?w ?a []\<rparr>) p (\<lambda>se. se\<lparr>se_asyncW := Some ?w\<rparr>)" ?a])
      (simp_all add: serveAsync_open_def Let_def)
qed

section \<open>Properties\<close>

lemma scratch_own: "responseScratch (unat limit) limit = unat limit"
  by (simp add: responseScratch_def)

text \<open>
  C2. A client that connects is served. When a server of the simulated instrument has admitted an
  \<open>Initialize\<close> on one connection and an \<open>AsyncInitialize\<close> with the identifier of its response arrives on another,
  the two become one session, and any program of messages that follows runs to its end: the synchronous connection has
  carried the \<open>InitializeResponse\<close> and the replies, the asynchronous one its response and the announcements
  of interruptions, whatever both have carried before, and nothing else.
\<close>
theorem connected_conversation:
  assumes "registry_inv s" "up (sv_io s) st" "up (sv_io s) ast" "st \<noteq> ast" "sv_newPolicy s = Some pol"
    "serveSync_open s st h = Some (s1, Inr p)"
    "hType h2 = AsyncInitialize" "hParameter h2 = ucast (se_id (sv_heap s1 p))"
    "en_dev E = instrument_ops fl" "n = unat (cf_MaxTxPayload (sv_cfg s))"
    "list_all (program_input (cf_MaxRxPayload (sv_cfg s))) is" "replies_fit (en_pol E) fl n (sv_dev s, pol) is"
    "exchanges (en_pol E) fl n (sv_dev s, pol) is = (t, ms, ams)"
  shows "\<exists>s2 s3 r a. serveAsync_open s1 ast h2 = (s2, Inr p) \<and> Server_runSync E s2 p is = Some (s3, None) \<and>
    hType r = InitializeResponse \<and> snd (DecodeInitializeResponseParameter (hParameter r)) = se_id (sv_heap s1 p) \<and>
    hType a = AsyncInitializeResponse \<and>
    io_out (sv_io s3) st = io_out (sv_io s) st @ wire ((r, []) # ms) \<and>
    io_out (sv_io s3) ast = io_out (sv_io s) ast @ wire ((a, []) # ams)"
proof -
  let ?w = "io_nwriters (sv_io s)"
  from sync_opened [OF assms(1,2,6)] obtain i v where
    s1: "sv_heap s1 p = (newSession i v st (sv_cfg s))\<lparr>se_policy := sv_newPolicy s, se_syncW := Some ?w\<rparr>"
    "Version10 \<le> v" "Server_Session s1 i = Some p" "sv_cfg s1 = sv_cfg s" "sv_dev s1 = sv_dev s"
    "io_nwriters (sv_io s1) = Suc ?w" "writer_ok (sv_io s1) ?w ChannelSynchronous st" "up (sv_io s1) st"
    "io_out (sv_io s1) st = io_out (sv_io s) st @ frame (initialize_response v i) []"
    "\<And>x. x \<noteq> st \<Longrightarrow> io_streams (sv_io s1) x = io_streams (sv_io s) x" by metis
  have id: "se_id (sv_heap s1 p) = i" by (simp add: s1(1) newSession_def)
  have ast: "up (sv_io s1) ast" "io_out (sv_io s1) ast = io_out (sv_io s) ast"
    using assms(3,4) s1(10) [of ast] by (simp_all add: up_def io_out_def)
  have look: "Server_Session s1 (ucast (hParameter h2)) = Some p" using s1(3) assms(8) id by (simp add: ucast_32_16)
  obtain s2 a where s2: "serveAsync_open s1 ast h2 = (s2, Inr p)" "hType a = AsyncInitializeResponse"
    "sv_heap s2 p = (sv_heap s1 p)\<lparr>se_async := Some ast, se_state := StateReady, se_asyncW := Some (Suc ?w)\<rparr>"
    "sv_cfg s2 = sv_cfg s" "sv_dev s2 = sv_dev s"
    "sv_io s2 = sent (fst (NewMessageWriter (sv_io s1) ast ChannelAsynchronous)) (Suc ?w) a []"
    using async_opened [OF assms(7) look _ _ ast(1)] s1(1,4-6) by (auto simp: newSession_def)
  have io: "writer_ok (sv_io s2) ?w ChannelSynchronous st" "writer_ok (sv_io s2) (Suc ?w) ChannelAsynchronous ast"
    "up (sv_io s2) st" "up (sv_io s2) ast" "io_out (sv_io s2) st = io_out (sv_io s1) st"
    "io_out (sv_io s2) ast = io_out (sv_io s) ast @ frame a []"
    using s1(6-8) ast assms(4)
    by (simp_all add: s2(6) NewMessageWriter_def writer_ok_def up_def io_out_def sent_def Let_def)
  have "attending s2 p st ast (cf_MaxRxPayload (sv_cfg s)) (cf_MaxTxPayload (sv_cfg s)) (sv_dev s, pol)"
    using s1(1,2) s2(3,5) io(1-4) assms(1,4,5)
    by (simp add: attending_def answering_def newSession_def zero_Transaction_def registry_inv_def valid_Config_def)
  moreover have "0 < cf_MaxTxPayload (sv_cfg s2)"
    using assms(1) s2(4) by (auto simp: registry_inv_def valid_Config_def word_gt_0)
  ultimately obtain s3 where s3: "Server_runSync E s2 p is = Some (s3, None)"
    "io_out (sv_io s3) st = io_out (sv_io s2) st @ wire ms" "io_out (sv_io s3) ast = io_out (sv_io s2) ast @ wire ams"
    using runSync_exchanges [OF _ assms(9) _ _ assms(11-13)] assms(10) s2(4) scratch_own by metis
  show ?thesis
    by (intro exI [of _ s2] exI [of _ s3] exI [of _ "initialize_response v i"] exI [of _ a])
      (use s1(9) s2(1,2) s3 io(5,6) id in \<open>simp add: initialize_response_def DecodeInitializeResponseParameter_Encode\<close>)
qed

definition demo_fresh :: "(int instrument, unit) Server" where
  "demo_fresh = (let s = server_on (zero_instrument plain_float); cfg = (sv_cfg s)\<lparr>cf_MaxTxPayload := 16\<rparr>
     in s\<lparr>sv_cfg := cfg, sv_heap := (\<lambda>_. newSession 0 zero_Version 0 cfg)\<rparr>)"

lemma demo_fresh_facts:
  "registry_inv demo_fresh" "up (sv_io demo_fresh) st" "io_out (sv_io demo_fresh) st = []"
  "sv_newPolicy demo_fresh = Some (SCPIQuery NewSCPIQueryPolicy)" "unat (cf_MaxTxPayload (sv_cfg demo_fresh)) = 16"
  "cf_MaxRxPayload (sv_cfg demo_fresh) = 8192" "sv_dev demo_fresh = zero_instrument plain_float"
  by (simp_all add: demo_fresh_def server_on_def Let_def registry_inv_def valid_Config_def zero_Config_def up_def io_out_def
      empty_io_def quiet_transport_def)

lemma demo_fresh_opens:
  "\<exists>s1 p. serveSync_open demo_fresh 1 (zero_Header\<lparr>hType := Initialize,
     hParameter := EncodeInitializeParameter Version20 (0, 0)\<rparr>) = Some (s1, Inr p)"
proof -
  let ?h = "zero_Header\<lparr>hType := Initialize, hParameter := EncodeInitializeParameter Version20 (0, 0)\<rparr>"
  let ?s = "io_set_stream (fst (new_writer demo_fresh 1 ChannelSynchronous)) 1 quiet_transport"
  obtain t p resp where i: "Server_Initialize ?s ?h [] 1 = (t, Inr (p, resp))"
    by (simp add: Server_Initialize_def message_lookup Config_acceptsSubAddress_def server_on_def demo_fresh_def io_set_stream_def
        new_writer_def NewMessageWriter_def DecodeInitializeParameter_Encode Version_Less_def Server_allocateSession_def zero_Config_def
        Server_allocateIDLocked_def allocateID_first Let_def)
  have "serveSync_open demo_fresh 1 ?h = Some (serveSync_initialize ?s 1 ?h (Some 0) [])"
    by (simp add: serveSync_open_def readSubAddress_def CheckLength_def zero_Header_def new_writer_def NewMessageWriter_def
        demo_fresh_def server_on_def empty_io_def Let_def)
  moreover have "registry_inv ?s" "writer_ok (sv_io ?s) 0 ChannelSynchronous 1" "up (sv_io ?s) 1"
    using demo_fresh_facts(1)
    by (simp_all add: io_set_stream_def new_writer_def NewMessageWriter_def registry_inv_def writer_ok_def up_def
        quiet_transport_def) (simp add: demo_fresh_def server_on_def empty_io_def Let_def)
  ultimately show ?thesis using initialize_admits [OF _ _ _ i] by metis
qed

theorem connected_conversation_witness:
  "\<exists>s1 p s2 s3 r a.
     serveSync_open demo_fresh 1 (zero_Header\<lparr>hType := Initialize,
        hParameter := EncodeInitializeParameter Version20 (0, 0)\<rparr>) = Some (s1, Inr p) \<and>
     serveAsync_open s1 2 (zero_Header\<lparr>hType := AsyncInitialize, hParameter := ucast (se_id (sv_heap s1 p))\<rparr>) = (s2, Inr p) \<and>
     Server_runSync \<lparr>en_dev = instrument_ops plain_float, en_pol = no_policy\<rparr> s2 p demo_inputs = Some (s3, None) \<and>
     hType r = InitializeResponse \<and> hType a = AsyncInitializeResponse \<and>
     io_out (sv_io s3) 1 = frame r [] @ frame (data_header 4) (ascii ''GoTMC,HiSLIP Sim'') @
       frame (data_header 4) (ascii ''ulated Instrumen'') @ frame (end_header 4) (ascii ''t,0,0.1.0'' @ [0x0A]) @
       frame (end_header 8) (ascii ''32'' @ [0x0A]) @ frame (zero_Header\<lparr>hType := Interrupted, hParameter := 10\<rparr>) [] \<and>
     io_out (sv_io s3) 2 = frame a [] @ frame (zero_Header\<lparr>hType := AsyncInterrupted, hParameter := 10\<rparr>) []"
proof -
  let ?h = "zero_Header\<lparr>hType := Initialize, hParameter := EncodeInitializeParameter Version20 (0, 0)\<rparr>"
  let ?E = "\<lparr>en_dev = instrument_ops plain_float, en_pol = no_policy\<rparr>"
  obtain s1 p where s1: "serveSync_open demo_fresh 1 ?h = Some (s1, Inr p)" using demo_fresh_opens by blast
  let ?h2 = "zero_Header\<lparr>hType := AsyncInitialize, hParameter := ucast (se_id (sv_heap s1 p))\<rparr>"
  have i: "list_all (program_input (cf_MaxRxPayload (sv_cfg demo_fresh))) demo_inputs"
    by (simp add: demo_inputs_def arrived_def program_input_def zero_Header_def)
  have n: "16 = unat (cf_MaxTxPayload (sv_cfg demo_fresh))" by (simp add: demo_fresh_facts(5))
  from connected_conversation [OF demo_fresh_facts(1,2,2) _ demo_fresh_facts(4) s1, of 2 ?h2 ?E plain_float, OF _ _ _ _ n i]
    demo_exchanges demo_replies_fit
  have "\<exists>s2 s3 r a. serveAsync_open s1 2 ?h2 = (s2, Inr p) \<and> Server_runSync ?E s2 p demo_inputs = Some (s3, None) \<and>
    hType r = InitializeResponse \<and> hType a = AsyncInitializeResponse \<and>
     io_out (sv_io s3) 1 = frame r [] @ frame (data_header 4) (ascii ''GoTMC,HiSLIP Sim'') @
       frame (data_header 4) (ascii ''ulated Instrumen'') @ frame (end_header 4) (ascii ''t,0,0.1.0'' @ [0x0A]) @
       frame (end_header 8) (ascii ''32'' @ [0x0A]) @ frame (zero_Header\<lparr>hType := Interrupted, hParameter := 10\<rparr>) [] \<and>
     io_out (sv_io s3) 2 = frame a [] @ frame (zero_Header\<lparr>hType := AsyncInterrupted, hParameter := 10\<rparr>) []"
    by (simp add: demo_fresh_facts del: ascii_Cons) blast
  with s1 show ?thesis by blast
qed

end
