(* ===== verification/Store_Typing.thy ===== *)
theory Store_Typing
  imports Connection
begin

text \<open>
  The references between the stores of the server. A session refers to two writers and two
  connections; a writer to its connection and its channel. In every state the references agree: the
  writer a session has for a channel exists, is a writer of that channel, and belongs to the session's own
  connection.
\<close>

section \<open>Typed sessions\<close>

definition typed_session :: "io \<Rightarrow> 'x Session \<Rightarrow> bool" where
  "typed_session io se \<longleftrightarrow>
     (\<forall>w. se_syncW se = Some w \<longrightarrow> (\<exists>st. writer_of io w ChannelSynchronous st \<and> se_sync se \<in> {None, Some st})) \<and>
     (\<forall>w. se_asyncW se = Some w \<longrightarrow> se_state se \<noteq> StatePairing \<and>
        (\<exists>st. writer_of io w ChannelAsynchronous st \<and> se_async se \<in> {None, Some st}))"

definition store_typed :: "('d, 'x) Server \<Rightarrow> bool" where
  "store_typed s \<longleftrightarrow> (\<forall>p < sv_nheap s. typed_session (sv_io s) (sv_heap s p))"

text \<open>The store of writers only grows, and no writer changes its connection or channel.\<close>

definition extends :: "io \<Rightarrow> io \<Rightarrow> bool" where
  "extends io io' \<longleftrightarrow> (\<forall>w ch st. writer_of io w ch st \<longrightarrow> writer_of io' w ch st)"

lemma extends_typed: "extends io io' \<Longrightarrow> typed_session io se \<Longrightarrow> typed_session io' se"
  unfolding typed_session_def extends_def by meson

lemma extends_ops:
  "extends io (fst (writer_Write io w h b))" "extends io (fst (NewMessageWriter io st ch))"
  "extends io (fst (io_Close io st))" "extends io (io\<lparr>io_streams := x\<rparr>)"
  by (auto simp: extends_def) (simp_all add: writer_of_def NewMessageWriter_def io_Close_def case_prod_unfold Let_def)

lemma extends_store: "store_typed s \<Longrightarrow> extends (sv_io s) io \<Longrightarrow> store_typed (s\<lparr>sv_io := io\<rparr>)"
  by (simp add: store_typed_def extends_typed)

lemma typed_serves: "typed_session io se \<Longrightarrow> serves se se' \<Longrightarrow> typed_session io se'"
  by (auto simp: typed_session_def serves_def evolves_def)

lemma typed_closed: "typed_session io se \<Longrightarrow> typed_session io
    (se\<lparr>se_sync := None, se_async := None, se_state := StateClosed, se_opCancel := None\<rparr>)"
  by (auto simp: typed_session_def)

lemma typed_new: "typed_session io ((newSession i v st cfg)\<lparr>se_policy := pol\<rparr>)"
  by (simp add: typed_session_def newSession_def)

interpretation sto: server_invariant store_typed
proof (unfold_locales, goal_cases)
  case (5 s p f)
  then show ?case by (auto simp: store_typed_def intro: typed_serves)
next
  case (10 s st t)
  then show ?case using extends_store [OF 10(1) extends_ops(4)] by (simp add: io_set_stream_def)
next
  case (12 s v st)
  show ?case
    unfolding store_typed_def
  proof (intro allI impI)
    fix p assume "p < sv_nheap (fst (Server_allocateSession s v st))"
    then show "typed_session (sv_io (fst (Server_allocateSession s v st))) (sv_heap (fst (Server_allocateSession s v st)) p)"
      using 12 allocate_heap(1) [of p s v st] allocate_new [of p s v st] typed_new by (auto simp: store_typed_def)
  qed
next
  case (15 s w st p)
  then show ?case by (auto simp: store_typed_def typed_session_def)
next
  case (16 s w st p)
  then show ?case by (auto simp: store_typed_def typed_session_def)
qed (simp_all add: extends_store extends_ops, simp_all add: store_typed_def typed_closed)

section \<open>Properties\<close>

lemma send_elsewhere:
  assumes "writer_of (sv_io s) w ch st" "c \<noteq> st"
  shows "io_streams (sv_io (fst (send s (Some w) h b))) c = io_streams (sv_io s) c"
proof -
  obtain io e where "MessageWriter_Write (sv_io s) w h b = (io, e)" by fastforce
  with MessageWriter_Write_effect(1) [OF this] assms show ?thesis
    by (simp add: send_def writer_Write_def writer_of_def)
qed

text \<open>
  C11. The references of a session are typed, in every interleaving. From the creation of a server on, the writer a session has
  for a channel exists, is a writer for that channel and for the session's own connection;
  so whatever a session that is open sends, on either channel, leaves every other connection alone.
\<close>
theorem store_typing:
  assumes "New (Some dev) cfg io = Inr s" "server_reach E s s'" "p < sv_nheap s'"
  shows "typed_session (sv_io s') (sv_heap s' p) \<and>
    (se_state (sv_heap s' p) \<in> {StateReady, StateClearing} \<longrightarrow>
      (\<exists>st ast. se_sync (sv_heap s' p) = Some st \<and> se_async (sv_heap s' p) = Some ast \<and>
        (\<forall>w h b c. se_syncW (sv_heap s' p) = Some w \<longrightarrow> c \<noteq> st \<longrightarrow>
           io_streams (sv_io (fst (send s' (Some w) h b))) c = io_streams (sv_io s') c) \<and>
        (\<forall>w h b c. se_asyncW (sv_heap s' p) = Some w \<longrightarrow> c \<noteq> ast \<longrightarrow>
           io_streams (sv_io (fst (send s' (Some w) h b))) c = io_streams (sv_io s') c)))"
proof -
  have "store_typed s" "sessions_ok s"
    using assms(1) by (auto simp: New_def store_typed_def sessions_ok_def Let_def validate_valid split: option.splits)
  then have t: "typed_session (sv_io s') (sv_heap s' p)" and ok: "session_ok (sv_heap s' p)"
    using sto.inv_reach [OF assms(2)] ses.inv_reach [OF assms(2)] assms(3) by (simp_all add: store_typed_def sessions_ok_def)
  show ?thesis
  proof (intro conjI impI t)
    assume "se_state (sv_heap s' p) \<in> {StateReady, StateClearing}"
    with ok obtain st ast where c: "se_sync (sv_heap s' p) = Some st" "se_async (sv_heap s' p) = Some ast"
      by (auto simp: session_ok_def)
    have "writer_of (sv_io s') w ChannelSynchronous st" if "se_syncW (sv_heap s' p) = Some w" for w
      using t that c(1) by (auto simp: typed_session_def)
    moreover have "writer_of (sv_io s') w ChannelAsynchronous ast" if "se_asyncW (sv_heap s' p) = Some w" for w
      using t that c(2) by (auto simp: typed_session_def)
    ultimately show "\<exists>st ast. se_sync (sv_heap s' p) = Some st \<and> se_async (sv_heap s' p) = Some ast \<and>
        (\<forall>w h b c. se_syncW (sv_heap s' p) = Some w \<longrightarrow> c \<noteq> st \<longrightarrow>
           io_streams (sv_io (fst (send s' (Some w) h b))) c = io_streams (sv_io s') c) \<and>
        (\<forall>w h b c. se_asyncW (sv_heap s' p) = Some w \<longrightarrow> c \<noteq> ast \<longrightarrow>
           io_streams (sv_io (fst (send s' (Some w) h b))) c = io_streams (sv_io s') c)"
      using c send_elsewhere by blast
  qed
qed

theorem store_typing_witness:
  "\<exists>s' p w. server_reach \<lparr>en_dev = instrument_ops plain_float, en_pol = no_policy\<rparr> demo_fresh s' \<and> p < sv_nheap s' \<and>
     se_syncW (sv_heap s' p) = Some w \<and> writer_of (sv_io s') w ChannelSynchronous 1"
proof -
  let ?E = "\<lparr>en_dev = instrument_ops plain_float, en_pol = no_policy\<rparr>"
  have new: "New (Some (zero_instrument plain_float)) (zero_Config\<lparr>cf_MaxTxPayload := 16\<rparr>) empty_io = Inr demo_fresh"
    by (simp add: New_def Config_validate_def Config_withDefaults_def demo_fresh_def server_on_def zero_Config_def Version_Less_def Let_def)
  obtain s' p where o: "serveSync_open demo_fresh 1 (zero_Header\<lparr>hType := Initialize,
      hParameter := EncodeInitializeParameter Version20 (0, 0)\<rparr>) = Some (s', Inr p)"
    using demo_fresh_opens by blast
  from o have r: "server_reach ?E demo_fresh s'" by (blast intro: reach_step reach_refl open_sync)
  obtain i v where h: "sv_heap s' p = (newSession i v 1 (sv_cfg demo_fresh))\<lparr>se_policy := sv_newPolicy demo_fresh,
      se_syncW := Some (io_nwriters (sv_io demo_fresh))\<rparr>" "Server_Session s' i = Some p"
    using sync_opened [OF demo_fresh_facts(1,2) o] by metis
  have p: "p < sv_nheap s'"
    using h(2) reg.inv_reach [OF r demo_fresh_facts(1)] by (auto simp: registry_inv_def Server_Session_def dest: map_of_SomeD)
  from store_typing [OF new r p] h(1) have "writer_of (sv_io s') (io_nwriters (sv_io demo_fresh)) ChannelSynchronous 1"
    by (auto simp: typed_session_def newSession_def)
  moreover have "se_syncW (sv_heap s' p) = Some (io_nwriters (sv_io demo_fresh))" unfolding h(1) by simp
  ultimately show ?thesis using r p by blast
qed

end
