(* ===== verification/Listener.thy ===== *)
theory Listener
  imports System Go_Strings
begin

text \<open>
  The TCP adapter: \<open>listen.go\<close>.

  A listener is the accept loop of \<open>Serve\<close>, one goroutine for each connection, and at most one call
  of \<open>Close\<close> that gets past its first critical section. The loop and that call are programs with
  a counter; every step is a critical section or a call that blocks. Connections are the streams
  of the server; the operating system's \<open>Accept\<close> is a choice of the step.
\<close>

section \<open>The listener\<close>

datatype accept_pc =
    Accepting | Accepted nat | Tracked nat | Draining | Returned "gerror option"

datatype close_pc =
    CloseIdle | ClosingListener "nat list" | ClosingConns "nat list" | ClosingServer | CloseDone

record ('d, 'x) Listener =
  ls_srv :: "('d, 'x) Server"
  ls_lnClosed :: bool
  ls_closed :: bool
  ls_conns :: "nat list"
  ls_running :: "nat list"
  ls_onError :: bool
  ls_reports :: "gerror list"
  ls_accept :: accept_pc
  ls_close :: close_pc

text \<open>The argument \<open>net_Listen\<close> is the call of the operating system.\<close>

definition Listen ::
    "(bytes \<Rightarrow> gerror option) \<Rightarrow> bytes \<Rightarrow> ('d, 'x) Server option \<Rightarrow> gerror + ('d, 'x) Listener" where
  "Listen net_Listen addr srv =
     (case srv of
        None \<Rightarrow> Inl (OtherError (ascii ''hislip: nil server''))
      | Some srv \<Rightarrow>
          let addr = (if addr = [] then ascii '':'' @ Itoa DefaultPort else addr) in
          case net_Listen addr of
            Some e \<Rightarrow> Inl e
          | None \<Rightarrow> Inr \<lparr>ls_srv = srv, ls_lnClosed = False, ls_closed = False, ls_conns = [],
              ls_running = [], ls_onError = False, ls_reports = [], ls_accept = Accepting, ls_close = CloseIdle\<rparr>)"

definition Listener_OnError :: "('d, 'x) Listener \<Rightarrow> bool \<Rightarrow> ('d, 'x) Listener" where
  "Listener_OnError l f = l\<lparr>ls_onError := f\<rparr>"

definition Listener_track :: "('d, 'x) Listener \<Rightarrow> nat \<Rightarrow> ('d, 'x) Listener" where
  "Listener_track l c = l\<lparr>ls_conns := List.insert c (ls_conns l)\<rparr>"

definition Listener_untrack :: "('d, 'x) Listener \<Rightarrow> nat \<Rightarrow> ('d, 'x) Listener" where
  "Listener_untrack l c = l\<lparr>ls_conns := removeAll c (ls_conns l)\<rparr>"

definition Listener_report :: "('d, 'x) Listener \<Rightarrow> gerror \<Rightarrow> ('d, 'x) Listener" where
  "Listener_report l e = (if ls_onError l then l\<lparr>ls_reports := ls_reports l @ [e]\<rparr> else l)"

text \<open>What \<open>Serve\<close> does with the result of \<open>Accept\<close>; \<open>ctx\<close> tells whether the context is done.\<close>

definition Serve_accepted :: "('d, 'x) Listener \<Rightarrow> bool \<Rightarrow> gerror + nat \<Rightarrow> ('d, 'x) Listener" where
  "Serve_accepted l ctx r =
     (case r of
        Inl e \<Rightarrow> if ls_closed l \<or> ctx then l\<lparr>ls_accept := Draining\<rparr> else l\<lparr>ls_accept := Returned (Some e)\<rparr>
      | Inr c \<Rightarrow> l\<lparr>ls_accept := Accepted c\<rparr>)"

text \<open>The next step of the loop after that: \<open>None\<close> when it waits.\<close>

definition Serve_next :: "('d, 'x) Listener \<Rightarrow> ('d, 'x) Listener option" where
  "Serve_next l =
     (case ls_accept l of
        Accepted c \<Rightarrow> Some ((Listener_track l c)\<lparr>ls_accept := Tracked c\<rparr>)
      | Tracked c \<Rightarrow> Some (l\<lparr>ls_running := c # ls_running l, ls_accept := Accepting\<rparr>)
      | Draining \<Rightarrow> if ls_running l = [] then Some (l\<lparr>ls_accept := Returned None\<rparr>) else None
      | _ \<Rightarrow> None)"

text \<open>The end of the goroutine of a connection.\<close>

definition Serve_ended :: "('d, 'x) Listener \<Rightarrow> nat \<Rightarrow> gerror option \<Rightarrow> ('d, 'x) Listener" where
  "Serve_ended l c err =
     (let l = (case err of Some e \<Rightarrow> Listener_report l e | None \<Rightarrow> l);
          l = Listener_untrack l c
      in l\<lparr>ls_running := remove1 c (ls_running l)\<rparr>)"

text \<open>\<open>Close\<close>: the first critical section, and the rest of the call that gets past it.\<close>

definition Listener_Close :: "('d, 'x) Listener \<Rightarrow> ('d, 'x) Listener" where
  "Listener_Close l =
     (if ls_closed l then l
      else l\<lparr>ls_closed := True, ls_close := ClosingListener (ls_conns l)\<rparr>)"

definition Close_next :: "('d, 'x) Listener \<Rightarrow> ('d, 'x) Listener option" where
  "Close_next l =
     (case ls_close l of
        ClosingListener cs \<Rightarrow> Some (l\<lparr>ls_lnClosed := True, ls_close := ClosingConns cs\<rparr>)
      | ClosingConns (c # cs) \<Rightarrow> Some (l\<lparr>ls_srv := close_stream (ls_srv l) c, ls_close := ClosingConns cs\<rparr>)
      | ClosingConns [] \<Rightarrow> Some (l\<lparr>ls_close := ClosingServer\<rparr>)
      | ClosingServer \<Rightarrow> Some (l\<lparr>ls_srv := fst (Server_CloseAll (ls_srv l)), ls_close := CloseDone\<rparr>)
      | _ \<Rightarrow> None)"

section \<open>Interleavings\<close>

text \<open>\<open>Accept\<close> gives a connection that is open and new, and only while the socket is open.\<close>

inductive listener_step :: "('d, 'x) env \<Rightarrow> ('d, 'x) Listener \<Rightarrow> ('d, 'x) Listener \<Rightarrow> bool" for E where
  accept: "ls_accept l = Accepting \<Longrightarrow> \<not> ls_lnClosed l \<Longrightarrow> \<not> stream_closed (ls_srv l) c \<Longrightarrow>
    c \<notin> set (ls_conns l) \<Longrightarrow> listener_step E l (Serve_accepted l ctx (Inr c))"
| accept_error: "ls_accept l = Accepting \<Longrightarrow> listener_step E l (Serve_accepted l ctx (Inl e))"
| loop: "Serve_next l = Some l' \<Longrightarrow> listener_step E l l'"
| handler: "ls_running l \<noteq> [] \<Longrightarrow> server_step E (ls_srv l) s' \<Longrightarrow> listener_step E l (l\<lparr>ls_srv := s'\<rparr>)"
| ended: "c \<in> set (ls_running l) \<Longrightarrow> listener_step E l (Serve_ended l c err)"
| close_call: "listener_step E l (Listener_Close l)"
| close_step: "Close_next l = Some l' \<Longrightarrow> listener_step E l l'"

inductive listener_reach :: "('d, 'x) env \<Rightarrow> ('d, 'x) Listener \<Rightarrow> ('d, 'x) Listener \<Rightarrow> bool" for E where
  listening: "listener_reach E l l"
| listened: "listener_reach E l l' \<Longrightarrow> listener_step E l' l'' \<Longrightarrow> listener_reach E l l''"

section \<open>Lemmas\<close>

text \<open>A connection that is closed stays closed.\<close>

lemma Stream_Write_closed: "tr_closed (fst (Stream_Write t b)) = tr_closed t"
  by (simp add: Stream_Write_def Let_def split: list.splits option.splits)

lemma WriteHeader_closed: "tr_closed (fst (WriteHeader Stream_Write t h buf)) = tr_closed t"
  by (simp add: WriteHeader_def Stream_Write_closed Let_def case_prod_unfold split: sum.splits)

lemma WriteMessage_closed: "tr_closed (fst (WriteMessage Stream_Write t h b buf)) = tr_closed t"
proof -
  let ?w = "WriteHeader Stream_Write t (h\<lparr>hLength := of_nat (length b)\<rparr>) buf"
  obtain t' buf' e where w: "?w = (t', buf', e)" by (metis prod_cases3)
  have "tr_closed t' = tr_closed t" using WriteHeader_closed [of t "h\<lparr>hLength := of_nat (length b)\<rparr>" buf] w by simp
  with w show ?thesis
    by (cases e) (simp_all add: WriteMessage_def Let_def case_prod_unfold Stream_Write_closed WriteHeader_closed)
qed

lemma writer_Write_closed:
  "tr_closed (io_streams (fst (writer_Write io w h b)) c) = tr_closed (io_streams io c)"
proof -
  have "tr_closed t' = tr_closed t" if "WriteMessage Stream_Write t h b buf = (t', r)" for t buf t' r
    using WriteMessage_closed [of t h b buf] that by simp
  then show ?thesis
    by (auto simp: writer_Write_def MessageWriter_Write_def Let_def split: prod.splits option.splits)
qed

interpretation shut: server_invariant "\<lambda>s. stream_closed s c" for c
proof (unfold_locales, goal_cases)
  case (6 s w h b)
  then show ?case by (simp add: stream_closed_def writer_Write_closed)
next
  case (10 s st t)
  then show ?case by (auto simp: stream_closed_def same_output_def)
qed (auto simp: stream_closed_def NewMessageWriter_def io_Close_def Stream_Close_def Let_def)

text \<open>The connections a call of \<open>Close\<close> has still to close.\<close>

fun to_close :: "close_pc \<Rightarrow> nat set" where
  "to_close (ClosingListener cs) = set cs"
| "to_close (ClosingConns cs) = set cs"
| "to_close _ = {}"

definition sweeping :: "nat set \<Rightarrow> ('d, 'x) Listener \<Rightarrow> bool" where
  "sweeping C l \<longleftrightarrow> ls_closed l \<and> ls_close l \<noteq> CloseIdle \<and> (\<forall>c \<in> C. stream_closed (ls_srv l) c \<or> c \<in> to_close (ls_close l)) \<and>
     ((\<exists>cs. ls_close l = ClosingListener cs) \<or> ls_lnClosed l)"

lemma track_sel [simp]:
  "ls_srv (Listener_track l c) = ls_srv l" "ls_closed (Listener_track l c) = ls_closed l"
  "ls_close (Listener_track l c) = ls_close l" "ls_lnClosed (Listener_track l c) = ls_lnClosed l"
  "ls_running (Listener_track l c) = ls_running l" "ls_conns (Listener_track l c) = List.insert c (ls_conns l)"
  by (simp_all add: Listener_track_def)

lemma ended_sel [simp]:
  "ls_srv (Serve_ended l c e) = ls_srv l" "ls_closed (Serve_ended l c e) = ls_closed l"
  "ls_close (Serve_ended l c e) = ls_close l" "ls_lnClosed (Serve_ended l c e) = ls_lnClosed l"
  "ls_accept (Serve_ended l c e) = ls_accept l" "ls_running (Serve_ended l c e) = remove1 c (ls_running l)"
  "ls_conns (Serve_ended l c e) = removeAll c (ls_conns l)"
  by (simp_all add: Serve_ended_def Listener_untrack_def Listener_report_def split: option.splits)

lemma accepted_sel [simp]:
  "ls_srv (Serve_accepted l ctx r) = ls_srv l" "ls_closed (Serve_accepted l ctx r) = ls_closed l"
  "ls_close (Serve_accepted l ctx r) = ls_close l" "ls_lnClosed (Serve_accepted l ctx r) = ls_lnClosed l"
  "ls_running (Serve_accepted l ctx r) = ls_running l" "ls_conns (Serve_accepted l ctx r) = ls_conns l"
  by (simp_all add: Serve_accepted_def split: sum.splits)

text \<open>The steps of the loop leave everything about closing alone.\<close>

lemma Serve_next_sel:
  assumes "Serve_next l = Some l'"
  shows "ls_srv l' = ls_srv l" "ls_closed l' = ls_closed l" "ls_close l' = ls_close l" "ls_lnClosed l' = ls_lnClosed l"
  using assms by (auto simp: Serve_next_def split: accept_pc.splits if_splits)

lemma sweeping_close:
  assumes "sweeping C l" "Close_next l = Some l'"
  shows "sweeping C l'"
proof (cases "ls_close l")
  case (ClosingConns cs)
  show ?thesis
  proof (cases cs)
    case Nil
    with ClosingConns assms show ?thesis by (auto simp: Close_next_def sweeping_def)
  next
    case (Cons d ds)
    have "stream_closed (close_stream (ls_srv l) d) c" if "stream_closed (ls_srv l) c" for c
      using shut.inv_close_stream [OF that] .
    with Cons ClosingConns assms show ?thesis by (auto simp: Close_next_def sweeping_def)
  qed
next
  case ClosingServer
  have "stream_closed (fst (Server_CloseAll (ls_srv l))) c" if "stream_closed (ls_srv l) c" for c
    using shut.inv_CloseAll [OF that] .
  with ClosingServer assms show ?thesis by (auto simp: Close_next_def sweeping_def)
qed (use assms in \<open>auto simp: Close_next_def sweeping_def\<close>)

lemma sweeping_step:
  assumes "listener_step E l l'" "sweeping C l"
  shows "sweeping C l'"
  using assms
proof (cases rule: listener_step.cases)
  case (handler s')
  have "stream_closed s' c" if "stream_closed (ls_srv l) c" for c
    using shut.inv_step [OF handler(3) that] .
  with handler assms(2) show ?thesis by (auto simp: sweeping_def)
next
  case close_call
  with assms(2) show ?thesis by (auto simp: sweeping_def Listener_Close_def)
next
  case close_step
  then show ?thesis using sweeping_close [OF assms(2)] by simp
next
  case loop
  then show ?thesis using assms(2) Serve_next_sel [of l l'] by (auto simp: sweeping_def)
qed (auto simp: sweeping_def)

lemma sweeping_reach: "listener_reach E l l' \<Longrightarrow> sweeping C l \<Longrightarrow> sweeping C l'"
  by (induction rule: listener_reach.induct) (auto intro: sweeping_step)

text \<open>\<open>Close\<close> waits for nobody: its own steps bring it to its end.\<close>

lemma close_finishes:
  assumes "listener_reach E l0 l" "ls_close l \<noteq> CloseIdle"
  shows "\<exists>l'. listener_reach E l0 l' \<and> ls_close l' = CloseDone"
proof -
  have server: "\<exists>l'. listener_reach E l0 l' \<and> ls_close l' = CloseDone"
    if "listener_reach E l0 l" "ls_close l = ClosingServer" for l
    using listened [OF that(1) close_step] that(2) by (fastforce simp: Close_next_def)
  have conns: "\<exists>l'. listener_reach E l0 l' \<and> ls_close l' = CloseDone"
    if "listener_reach E l0 l" "ls_close l = ClosingConns cs" for l cs
    using that
  proof (induction cs arbitrary: l)
    case Nil
    have "listener_reach E l0 (l\<lparr>ls_close := ClosingServer\<rparr>)"
      using listened [OF Nil(1) close_step] Nil(2) by (simp add: Close_next_def)
    then show ?case by (rule server) simp
  next
    case (Cons c cs)
    have "listener_reach E l0 (l\<lparr>ls_srv := close_stream (ls_srv l) c, ls_close := ClosingConns cs\<rparr>)"
      using listened [OF Cons.prems(1) close_step] Cons.prems(2) by (simp add: Close_next_def)
    then show ?case by (rule Cons.IH) simp
  qed
  show ?thesis
  proof (cases "ls_close l")
    case (ClosingListener cs)
    have "listener_reach E l0 (l\<lparr>ls_lnClosed := True, ls_close := ClosingConns cs\<rparr>)"
      using listened [OF assms(1) close_step] ClosingListener by (simp add: Close_next_def)
    then show ?thesis by (rule conns) simp
  qed (use assms conns server in blast)+
qed

text \<open>Every connection that is being served is tracked, and \<open>Serve\<close> returns without an error only
  when none is.\<close>

fun accept_ok :: "accept_pc \<Rightarrow> nat list \<Rightarrow> nat list \<Rightarrow> bool" where
  "accept_ok (Accepted c) conns running \<longleftrightarrow> c \<notin> set conns"
| "accept_ok (Tracked c) conns running \<longleftrightarrow> c \<in> set conns \<and> c \<notin> set running"
| "accept_ok (Returned None) conns running \<longleftrightarrow> running = []"
| "accept_ok _ conns running \<longleftrightarrow> True"

definition tracked_inv :: "('d, 'x) Listener \<Rightarrow> bool" where
  "tracked_inv l \<longleftrightarrow> distinct (ls_running l) \<and> set (ls_running l) \<subseteq> set (ls_conns l) \<and>
     accept_ok (ls_accept l) (ls_conns l) (ls_running l)"

lemma tracked_next:
  assumes "Serve_next l = Some l'" "tracked_inv l"
  shows "tracked_inv l'"
  using assms by (auto simp: Serve_next_def tracked_inv_def split: accept_pc.splits if_splits)

lemma tracked_step:
  assumes "listener_step E l l'" "tracked_inv l"
  shows "tracked_inv l'"
  using assms
proof (cases rule: listener_step.cases)
  case loop
  then show ?thesis using tracked_next assms(2) by blast
next
  case (ended c err)
  have "set (remove1 c (ls_running l)) = set (ls_running l) - {c}"
    using assms(2) by (simp add: tracked_inv_def)
  with ended assms(2) show ?thesis
    by (cases "(ls_accept l, ls_conns l, ls_running l)" rule: accept_ok.cases) (auto simp: tracked_inv_def)
next
  case close_step
  then have "ls_running l' = ls_running l" "ls_conns l' = ls_conns l" "ls_accept l' = ls_accept l"
    by (auto simp: Close_next_def split: close_pc.splits list.splits)
  then show ?thesis using assms(2) by (simp add: tracked_inv_def)
qed (auto simp: tracked_inv_def Serve_accepted_def Listener_Close_def)

lemma tracked_reach: "listener_reach E l l' \<Longrightarrow> tracked_inv l \<Longrightarrow> tracked_inv l'"
  by (induction rule: listener_reach.induct) (auto intro: tracked_step)

lemma Listen_initial:
  assumes "Listen net addr srv = Inr l"
  shows "tracked_inv l" "\<not> ls_closed l" "ls_accept l = Accepting" "srv = Some (ls_srv l)" "ls_conns l = []"
    "ls_running l = []" "ls_close l = CloseIdle" "\<not> ls_lnClosed l"
  using assms by (auto simp: Listen_def tracked_inv_def Let_def split: option.splits)

section \<open>Properties\<close>


text \<open>A listener with one connection and the steps of a shutdown.\<close>

lemma listener_path:
  "listener_reach E l l1 \<Longrightarrow> Serve_next l1 = Some l2 \<Longrightarrow> listener_reach E l l2"
  "listener_reach E l l1 \<Longrightarrow> Close_next l1 = Some l2 \<Longrightarrow> listener_reach E l l2"
  by (auto intro: listened loop close_step)

definition demo_listener :: "(testdevice, unit) Listener" where
  "demo_listener = \<lparr>ls_srv = demo_server [], ls_lnClosed = False, ls_closed = False, ls_conns = [],
     ls_running = [], ls_onError = False, ls_reports = [], ls_accept = Accepting, ls_close = CloseIdle\<rparr>"

lemma demo_listener_Listen: "Listen (\<lambda>_. None) [] (Some (demo_server [])) = Inr demo_listener"
  by (simp add: Listen_def demo_listener_def)

lemma demo_server_open: "\<not> stream_closed (demo_server []) c"
  by (simp add: stream_closed_def server_on_def empty_io_def quiet_transport_def)

lemma demo_accepted: "listener_reach E demo_listener (demo_listener\<lparr>ls_accept := Accepted c\<rparr>)"
proof -
  have "listener_step E demo_listener (Serve_accepted demo_listener False (Inr c))"
    by (rule accept) (simp_all add: demo_listener_def demo_server_open)
  then show ?thesis using listened [OF listening] by (simp add: Serve_accepted_def)
qed


text \<open>
  C29. A connection that arrives during the shutdown is not ended by it. One accepted before \<open>Close\<close> is called
  but tracked after it has collected the connections is served all the same: when \<open>Close\<close> is done the
  connection is open and being served, further calls of \<open>Close\<close> do nothing, and the accept loop waits for it.
\<close>
theorem listener_shutdown_misses_connection:
  "\<exists>l. listener_reach E demo_listener l \<and> ls_close l = CloseDone \<and> ls_running l = [c] \<and>
     \<not> stream_closed (ls_srv l) c \<and> Listener_Close l = l \<and> Close_next l = None \<and>
     ls_accept l = Draining \<and> Serve_next l = None"
proof -
  let ?s = "fst (Server_CloseAll (demo_server []))"
  have s: "?s = demo_server []" by (simp add: Server_CloseAll_def server_on_def)
  let ?l = "demo_listener\<lparr>ls_closed := True\<rparr>"
  have "listener_reach E demo_listener (?l\<lparr>ls_close := ClosingListener [], ls_accept := Accepted c\<rparr>)"
    using listened [OF demo_accepted close_call] by (simp add: Listener_Close_def demo_listener_def)
  from listener_path(2) [OF this]
  have "listener_reach E demo_listener (?l\<lparr>ls_lnClosed := True, ls_close := ClosingConns [], ls_accept := Accepted c\<rparr>)"
    by (simp add: Close_next_def demo_listener_def)
  from listener_path(2) [OF this]
  have "listener_reach E demo_listener (?l\<lparr>ls_lnClosed := True, ls_close := ClosingServer, ls_accept := Accepted c\<rparr>)"
    by (simp add: Close_next_def demo_listener_def)
  from listener_path(2) [OF this]
  have "listener_reach E demo_listener (?l\<lparr>ls_lnClosed := True, ls_close := CloseDone, ls_accept := Accepted c\<rparr>)"
    using s by (simp add: Close_next_def demo_listener_def)
  from listener_path(1) [OF this]
  have "listener_reach E demo_listener
      (?l\<lparr>ls_lnClosed := True, ls_conns := [c], ls_close := CloseDone, ls_accept := Tracked c\<rparr>)"
    by (simp add: Serve_next_def Listener_track_def demo_listener_def)
  from listener_path(1) [OF this]
  have "listener_reach E demo_listener
      (?l\<lparr>ls_lnClosed := True, ls_conns := [c], ls_running := [c], ls_close := CloseDone, ls_accept := Accepting\<rparr>)"
    by (simp add: Serve_next_def demo_listener_def)
  from listened [OF this accept_error [of _ E False ErrStreamClosed]]
  have "listener_reach E demo_listener
      (?l\<lparr>ls_lnClosed := True, ls_conns := [c], ls_running := [c], ls_close := CloseDone, ls_accept := Draining\<rparr>)"
    by (simp add: Serve_accepted_def demo_listener_def)
  then show ?thesis
    by (intro exI conjI, assumption)
      (simp_all add: demo_listener_def demo_server_open Listener_Close_def Close_next_def Serve_next_def)
qed

end
