(* ===== verification/Async_Channel.thy ===== *)
theory Async_Channel
  imports Connection Listener
begin

text \<open>
  The end of the asynchronous channel: \<open>serveAsyncChannel\<close> and \<open>runAsync\<close> of \<open>serve.go\<close>.

  The synchronous channel removes its session when it ends. The asynchronous channel has no such
  clean-up: whatever it is sent and however it ends, the session stays in the table, attached to the
  connection that was served.
\<close>

section \<open>A session with both channels\<close>

definition attached :: "(uint16 \<times> nat) list \<Rightarrow> nat \<Rightarrow> nat \<Rightarrow> ('d, 'x) Server \<Rightarrow> bool" where
  "attached table p st s \<longleftrightarrow> sv_sessions s = table \<and> session_ok (sv_heap s p) \<and> se_sync (sv_heap s p) \<noteq> None \<and>
     se_state (sv_heap s p) \<noteq> StatePairing \<and> se_async (sv_heap s p) = Some st \<and> \<not> stream_closed s st"

interpretation att: async_invariant "attached table p st" for table p st
  by unfold_locales (auto simp: attached_def serves_def evolves_def stream_closed_def writer_Write_closed)

lemma attached_state: "attached table p st s \<Longrightarrow> se_state (sv_heap s p) \<in> {StateReady, StateClearing}"
  by (cases "se_state (sv_heap s p)") (auto simp: attached_def session_ok_def)

lemma attached_refuses:
  assumes "attached table p st s" "map_of table (ucast (hParameter h)) = Some p"
  shows "\<exists>e. Server_AsyncInitialize s h st' = (s, Inl e)"
proof -
  obtain t r where r: "Server_AsyncInitialize s h st' = (t, r)" by fastforce
  have "r \<noteq> Inr (q, y)" for q y
    using r assms AsyncInitialize_iff [of s h st' t q y] by (auto simp: attached_def Server_Session_def)
  then obtain e where "r = Inl e" by (cases r) auto
  with r AsyncInitialize_refused [of s h st' t e] show ?thesis by simp
qed

lemma async_open_attached:
  assumes "registry_inv s" "sessions_ok s" "\<not> stream_closed s st" "serveAsync_open s st h = (s1, Inr p)"
  shows "attached (sv_sessions s) p st s1 \<and> map_of (sv_sessions s) (ucast (hParameter h)) = Some p"
proof -
  obtain sn w where w: "new_writer s st ChannelAsynchronous = (sn, w)" by fastforce
  then have nw: "sv_sessions sn = sv_sessions s" "sv_heap sn = sv_heap s"
    "io_streams (sv_io sn) = io_streams (sv_io s)"
    by (auto simp: new_writer_def NewMessageWriter_def Let_def)
  from assms(4) obtain t resp s2 where t: "Server_AsyncInitialize sn h st = (t, Inr (p, resp))"
    "send t w resp [] = (s2, None)" "s1 = upd s2 p (\<lambda>se. Session_setAsyncWriter se w)"
    by (auto simp: serveAsync_open_def w Let_def split: prod.splits sum.splits option.splits)
  have p: "map_of (sv_sessions s) (ucast (hParameter h)) = Some p" "se_state (sv_heap s p) = StatePairing"
    and eq: "t = upd sn p (\<lambda>se. se\<lparr>se_async := Some st, se_state := StateReady\<rparr>)"
    using t(1) nw unfolding AsyncInitialize_iff by (simp_all add: Server_Session_def)
  from p(1) assms(1) have "p < sv_nheap s" by (auto simp: registry_inv_def dest!: map_of_SomeD)
  with assms(2) have ok: "session_ok (sv_heap s p)" by (simp add: sessions_ok_def)
  have "attached (sv_sessions s) p st t"
    using assms(3) p(2) ok nw by (auto simp: attached_def eq session_ok_def stream_closed_def)
  from att.inv_send(1) [OF this, of w resp "[]"] t(2) have "attached (sv_sessions s) p st s2" by simp
  with t(3) p(1) show ?thesis by (simp add: attached_def stream_closed_def)
qed

text \<open>A client that gives up says so with a \<open>FatalError\<close>, which ends the loop.\<close>

lemma fatal_ends_loop:
  assumes "se_asyncW (sv_heap s p) \<noteq> None" "Version10 \<le> se_version (sv_heap s p)"
  shows "runAsync_loop E s p (arrived FatalError 0 [] False # iks) = Some (count_fatal s, Some ErrClientFatal)"
proof -
  let ?h = "zero_Header\<lparr>hType := FatalError, hParameter := 0\<rparr>"
  have "snd (Server_Accept s (Some p) ?h ChannelAsynchronous) = None"
    using assms(2)
    by (simp add: Server_Accept_def Version_Less_less message_lookup CheckLength_def zero_Header_def ClassOf_def Let_def)
  then obtain c where "Server_Accept s (Some p) ?h ChannelAsynchronous = (c, None)" by (metis prod.collapse)
  with assms(1) show ?thesis by (auto simp: arrived_def Server_handleAsync_def Let_def)
qed

section \<open>Properties\<close>

text \<open>
  C30. Once a connection has become the asynchronous channel of a session, serving it to its end changes
  neither the table nor the session's standing: whatever messages it carries and whether the loop ends
  because the connection did or with an error, the session is still in the table, ready or clearing, attached
  to that connection, which the server has not closed; and every later \<open>AsyncInitialize\<close> for it is refused, so the
  session cannot get another asynchronous channel.
\<close>
theorem async_channel_leaves_session:
  assumes "registry_inv s" "sessions_ok s" "\<not> stream_closed s st"
    "serveAsync_open s st h = (s1, Inr p)" "Server_serveAsyncChannel E s st h iks = Some (s', err)"
  shows "sv_sessions s' = sv_sessions s \<and> Server_Session s' (ucast (hParameter h)) = Some p \<and>
    se_state (sv_heap s' p) \<in> {StateReady, StateClearing} \<and> se_async (sv_heap s' p) = Some st \<and>
    \<not> stream_closed s' st \<and>
    (\<forall>st'. \<exists>e. Server_AsyncInitialize s' h st' = (s', Inl e))"
proof -
  note open' = async_open_attached [OF assms(1-4)]
  have "runAsync_loop E s1 p iks = Some (s', err)" using assms(4,5) by (simp add: Server_serveAsyncChannel_def)
  with att.inv_runAsync [of "sv_sessions s" p st s1 E p iks] open'
  have att: "attached (sv_sessions s) p st s'" by (simp add: att.inv_opt_def)
  with attached_state [OF att] attached_refuses [OF att] open' show ?thesis
    by (simp add: attached_def Server_Session_def)
qed

theorem async_channel_leaves_session_witness:
  "\<exists>s p s' st'. let h = zero_Header\<lparr>hType := AsyncInitialize, hParameter := ucast (se_id (sv_heap s p))\<rparr> in
     serveSync_open demo_fresh 1 (zero_Header\<lparr>hType := Initialize,
        hParameter := EncodeInitializeParameter Version20 (0, 0)\<rparr>) = Some (s, Inr p) \<and>
     Server_serveAsyncChannel \<lparr>en_dev = instrument_ops plain_float, en_pol = no_policy\<rparr> s 2 h
       [arrived FatalError 0 [] False] = Some (s', Some ErrClientFatal) \<and>
     Server_Session s' (se_id (sv_heap s p)) = Some p \<and> se_async (sv_heap s' p) = Some 2 \<and> \<not> stream_closed s' 2 \<and> (\<exists>e. Server_AsyncInitialize s' h st' = (s', Inl e))"
proof -
  let ?h = "zero_Header\<lparr>hType := Initialize, hParameter := EncodeInitializeParameter Version20 (0, 0)\<rparr>"
  let ?E = "\<lparr>en_dev = instrument_ops plain_float, en_pol = no_policy\<rparr>"
  obtain s p where s: "serveSync_open demo_fresh 1 ?h = Some (s, Inr p)" using demo_fresh_opens by blast
  let ?a = "zero_Header\<lparr>hType := AsyncInitialize, hParameter := ucast (se_id (sv_heap s p))\<rparr>"
  have "sessions_ok demo_fresh"
    using demo_fresh_facts(1) by (simp add: sessions_ok_def registry_inv_def) (simp add: demo_fresh_def server_on_def Let_def)
  then have inv: "registry_inv s" "sessions_ok s"
    using reg.inv_sync_open [OF demo_fresh_facts(1), of 1 ?h] ses.inv_sync_open [of demo_fresh 1 ?h] s
    by (simp_all add: reg.inv_opt_def ses.inv_opt_def)
  from sync_opened [OF demo_fresh_facts(1,2) s] obtain i v where
    se: "sv_heap s p = (newSession i v 1 (sv_cfg demo_fresh))\<lparr>se_policy := sv_newPolicy demo_fresh,
      se_syncW := Some (io_nwriters (sv_io demo_fresh))\<rparr>" "Version10 \<le> v" "Server_Session s i = Some p"
    "\<And>x. x \<noteq> 1 \<Longrightarrow> io_streams (sv_io s) x = io_streams (sv_io demo_fresh) x" by metis
  have "up (sv_io s) 2" using se(4) [of 2] demo_fresh_facts(2) [of 2] by (simp add: up_def)
  then have up: "up (sv_io s) 2" "\<not> stream_closed s 2" by (simp_all add: up_def stream_closed_def)
  obtain s1 where s1: "serveAsync_open s 2 ?a = (s1, Inr p)" "se_asyncW (sv_heap s1 p) \<noteq> None"
      "Version10 \<le> se_version (sv_heap s1 p)"
  proof (rule async_opened [of ?a s p 2])
    fix s' a assume "serveAsync_open s 2 ?a = (s', Inr p)" "sv_heap s' p = (sv_heap s p)\<lparr>se_async := Some 2,
      se_state := StateReady, se_asyncW := Some (io_nwriters (sv_io s))\<rparr>"
    then show thesis using se(1,2) by (intro that [of s']) (simp_all add: newSession_def)
  qed (use up(1) se(1,3) in \<open>simp_all add: newSession_def ucast_32_16\<close>)
  then have run: "Server_serveAsyncChannel ?E s 2 ?a [arrived FatalError 0 [] False] = Some (count_fatal s1, Some ErrClientFatal)"
    using fatal_ends_loop [of s1 p ?E] by (simp add: Server_serveAsyncChannel_def)
  from s run async_channel_leaves_session [OF inv up(2) s1(1) run] show ?thesis by (auto simp: Let_def ucast_32_16)
qed

end
