(* ===== verification/Pipeline.thy ===== *)
theory Pipeline
  imports Conversation
begin

text \<open>
  The reader and the synchronous loop together: from the bytes a client has sent, in whatever pieces the
  network delivers them and however the reading goroutine runs ahead of the handlers, to the bytes
  of the replies.
\<close>

section \<open>What the reader hands to the loop\<close>

lemma taken_arrivals:
  assumes "reader_reach (newReader c ch limit) (r, h, got)" "tr_content c = frames ws @ rest" "limit \<noteq> 0"
    "\<forall>x \<in> set ws. length (snd x) < 2 ^ 64" "length got \<le> length ws"
  shows "map seen got = map (arrival (unat limit)) (take (length got) ws)"
proof -
  from read_in_order_reach [OF assms(1-4)] consider k where "k \<le> length ws"
      "map seen (read_log (r, h, got)) = map (arrival (unat limit)) (take k ws)"
    | more where "map seen (read_log (r, h, got)) = map (arrival (unat limit)) ws @ more"
    unfolding read_in_order_def by blast
  then have "take (length got) (map seen (read_log (r, h, got))) = take (length got) (map (arrival (unat limit)) ws)"
  proof cases
    case 1
    have "length got \<le> k" using arg_cong [OF 1(2), of length] 1(1) by (simp add: read_log_def)
    with 1 show ?thesis by (simp add: take_map)
  qed (use assms(5) in simp)
  then show ?thesis by (simp add: read_log_def take_map)
qed

text \<open>A reader between two messages, and the steps that take the next one.\<close>

definition between :: "uint64 \<Rightarrow> reader \<Rightarrow> bool" where
  "between limit r \<longleftrightarrow> re_pc r = RunFree \<and> re_msgs r = [] \<and> re_free r \<noteq> [] \<and> (\<forall>b. length (re_bufs r b) = unat limit)"

lemma reader_round:
  assumes "reader_reach r0 (r, None, got)" "between limit r" "tr_content (re_stream r) = frame h p @ rest" "limit \<noteq> 0"
    "length p < 2 ^ 64"
  shows "\<exists>r' m. reader_reach r0 (r', None, got @ [m]) \<and> between limit r' \<and> tr_content (re_stream r') = rest"
proof -
  obtain b bs where b: "re_free r = b # bs" using assms(2) by (auto simp: between_def neq_Nil_conv)
  have l: "length (re_bufs r b) = unat limit" using assms(2) by (simp add: between_def)
  then have len: "re_bufs r b \<noteq> []" "length (re_bufs r b) < 2 ^ 64"
    using assms(4) unsigned_less [of limit] by (auto simp: unat_eq_0)
  obtain s1 buf m where ro: "readOne Stream_Read (re_stream r) b (re_bufs r b) = Some (s1, buf, m)"
    and m: "ms_err m = None \<or> ms_err m = Some ErrMessageTooLarge" "ms_buf m = b" "tr_content s1 = rest" "length buf = unat limit"
  proof -
    obtain s1 buf m where r: "readOne Stream_Read (re_stream r) b (re_bufs r b) = Some (s1, buf, m)"
      "seen m = arrival (length (re_bufs r b)) (h, p)" "ms_buf m = b" "tr_content s1 = rest" "length buf = length (re_bufs r b)"
      using tr.readOne_frame [OF assms(3) len assms(5), of b] by blast
    then have "ms_err m = None \<or> ms_err m = Some ErrMessageTooLarge"
      by (auto simp: seen_def arrival_def Let_def split: if_splits)
    with that r assms(2) show ?thesis by (simp add: between_def)
  qed
  let ?r1 = "r\<lparr>re_free := bs, re_pc := RunReading b\<rparr>"
  let ?r2 = "?r1\<lparr>re_stream := s1, re_bufs := (re_bufs ?r1)(b := buf), re_pc := RunSending m\<rparr>"
  let ?r3 = "?r2\<lparr>re_msgs := [m], re_pc := RunFree\<rparr>"
  have "reader_run_step r False = Some ?r1" using assms(2) b by (simp add: reader_run_step_def between_def)
  then have 1: "reader_reach r0 (?r1, None, got)" by (rule reader_reach.step [OF assms(1) reader_step.run])
  have "reader_run_step ?r1 False = Some ?r2" using ro by (simp add: reader_run_step_def)
  then have 2: "reader_reach r0 (?r2, None, got)" by (rule reader_reach.step [OF 1 reader_step.run])
  have "reader_run_step ?r2 False = Some ?r3"
    using m(1) assms(2) by (auto simp: reader_run_step_def between_def recoverable_def)
  then have 3: "reader_reach r0 (?r3, None, got)" by (rule reader_reach.step [OF 2 reader_step.run])
  have "reader_next ?r3 = Some (?r3\<lparr>re_msgs := []\<rparr>, Some m)" by (simp add: reader_next_def)
  then have "reader_reach r0 (?r3\<lparr>re_msgs := []\<rparr>, Some m, got @ [m])"
    by (rule reader_reach.step [OF 3 reader_step.next_message])
  from reader_reach.step [OF this reader_step.release_buffer]
  have "reader_reach r0 (reader_release (?r3\<lparr>re_msgs := []\<rparr>) b, None, got @ [m])" by (simp add: m(2))
  moreover have "between limit (reader_release (?r3\<lparr>re_msgs := []\<rparr>) b)"
    "tr_content (re_stream (reader_release (?r3\<lparr>re_msgs := []\<rparr>) b)) = rest"
    using assms(2) m(3,4) by (auto simp: between_def reader_release_def)
  ultimately show ?thesis by blast
qed

lemma reader_takes_all:
  assumes "tr_content c = frames ws @ rest" "limit \<noteq> 0" "\<forall>x \<in> set ws. length (snd x) < 2 ^ 64"
  shows "\<exists>r got. reader_reach (newReader c ch limit) (r, None, got) \<and> length got = length ws \<and> between limit r \<and>
    tr_content (re_stream r) = rest"
  using assms(1,3)
proof (induction ws arbitrary: rest rule: rev_induct)
  case Nil
  then show ?case
    by (intro exI [of _ "newReader c ch limit"] exI [of _ "[]"])
      (auto simp: frames_def between_def newReader_def numeral_2_eq_2 intro: reader_reach.start)
next
  case (snoc w ws)
  obtain h p where w: "w = (h, p)" by (cases w)
  have "tr_content c = frames ws @ frame h p @ rest" using snoc.prems(1) w by (simp add: frames_def)
  from snoc.IH [OF this] snoc.prems(2) obtain r got where
    "reader_reach (newReader c ch limit) (r, None, got)" "length got = length ws" "between limit r"
    "tr_content (re_stream r) = frame h p @ rest" by auto
  moreover from reader_round [OF this(1,3,4) assms(2)] snoc.prems(2) w obtain r' m where
    "reader_reach (newReader c ch limit) (r', None, got @ [m])" "between limit r'" "tr_content (re_stream r') = rest" by auto
  ultimately show ?case by (intro exI [of _ r'] exI [of _ "got @ [m]"]) simp
qed

section \<open>What the loop makes of it\<close>

definition handled :: "message \<Rightarrow> bool \<Rightarrow> loop_input" where
  "handled m queued = \<lparr>li_done = False, li_ctx = False, li_msg = m, li_queued = queued, li_lock = []\<rparr>"

definition on_wire :: "Header \<times> bytes \<Rightarrow> message" where
  "on_wire w = \<lparr>ms_header = fst w, ms_payload = snd w, ms_buf = 0, ms_err = None\<rparr>"

definition program_message :: "uint64 \<Rightarrow> Header \<times> bytes \<Rightarrow> bool" where
  "program_message limit w \<longleftrightarrow> (hType (fst w) = Data \<or> hType (fst w) = DataEnd) \<and> length (snd w) \<le> unat limit"

text \<open>The abstract machine sees the type, the identifier and the payload of a message.\<close>

definition alike :: "loop_input \<Rightarrow> loop_input \<Rightarrow> bool" where
  "alike i j \<longleftrightarrow> hType (ms_header (li_msg i)) = hType (ms_header (li_msg j)) \<and>
     Header_MessageID (ms_header (li_msg i)) = Header_MessageID (ms_header (li_msg j)) \<and>
     ms_payload (li_msg i) = ms_payload (li_msg j) \<and> li_queued i = li_queued j"

lemma alike_taken: "alike i j \<Longrightarrow> taken ops fl t i = taken ops fl t j"
  by (simp add: alike_def taken_def)

lemma alike_exchange: "alike i j \<Longrightarrow> exchange ops fl n t i = exchange ops fl n t j"
  using alike_taken [of i j ops fl t] by (cases "taken ops fl t j") (simp add: alike_def exchange_def Let_def)

lemma alike_exchanges: "list_all2 alike is js \<Longrightarrow> exchanges ops fl n t is = exchanges ops fl n t js"
  by (induction arbitrary: t rule: list_all2_induct) (simp_all add: alike_exchange case_prod_unfold Let_def)

lemma alike_fit: "list_all2 alike is js \<Longrightarrow> replies_fit ops fl n t is = replies_fit ops fl n t js"
  by (induction arbitrary: t rule: list_all2_induct) (simp_all add: alike_exchange alike_taken)

text \<open>A program message as it arrives.\<close>

lemma arrival_program:
  assumes "seen m = arrival (unat limit) w" "program_message limit w"
  shows "alike (handled m q) (handled (on_wire w) q)" "program_input limit (handled m q)"
proof -
  have "(of_nat (length (snd w)) :: uint64) \<le> limit"
    using assms(2) by (auto simp: program_message_def word_le_nat_alt unat_of_nat intro: order_trans [OF mod_less_eq_dividend])
  then show "alike (handled m q) (handled (on_wire w) q)" "program_input limit (handled m q)"
    using assms
    by (auto simp: seen_def arrival_def alike_def handled_def on_wire_def program_message_def program_input_def
        Header_MessageID_def Let_def)
qed

lemma arrivals_program:
  assumes "map seen got = map (arrival (unat limit)) ws" "list_all (program_message limit) ws" "length qs = length ws"
  shows "list_all2 alike (map2 handled got qs) (map2 handled (map on_wire ws) qs)"
    "list_all (program_input limit) (map2 handled got qs)"
proof -
  have len: "length got = length ws" using map_eq_imp_length_eq [OF assms(1)] .
  have "seen (got ! i) = arrival (unat limit) (ws ! i)" "program_message limit (ws ! i)" if "i < length ws" for i
    using arg_cong [OF assms(1), of "\<lambda>xs. xs ! i"] that len assms(2) by (simp_all add: list_all_length)
  note arr = arrival_program [OF this]
  show "list_all2 alike (map2 handled got qs) (map2 handled (map on_wire ws) qs)"
    "list_all (program_input limit) (map2 handled got qs)"
    using arr len assms(3) by (simp_all add: list_all2_conv_all_nth list_all_length)
qed

section \<open>Properties\<close>

text \<open>
  C3. From bytes to bytes. When the synchronous connection of a session in front of the simulated
  instrument carries whole program messages that the server's limit admits, in whatever pieces the network delivers them,
  the reading goroutine and the loop can always work through all of them; and however they
  have interleaved when they have, the loop has run without an error and written on both channels
  exactly what the abstract machine gives for the messages on the wire.
\<close>
theorem bytes_to_replies:
  assumes "attending s p st ast rx tx t" "en_dev E = instrument_ops fl" "0 < cf_MaxTxPayload (sv_cfg s)"
    "n = responseScratch (unat (cf_MaxTxPayload (sv_cfg s))) tx"
    "rx \<noteq> 0" "tr_content c = frames ws @ rest" "list_all (program_message rx) ws" "length qs = length ws"
    "replies_fit (en_pol E) fl n t (map2 handled (map on_wire ws) qs)"
    "exchanges (en_pol E) fl n t (map2 handled (map on_wire ws) qs) = (t', ms, ams)"
  shows "(\<exists>r got. reader_reach (newReader c ChannelSynchronous rx) (r, None, got) \<and> length got = length ws) \<and>
    (\<forall>r h got. reader_reach (newReader c ChannelSynchronous rx) (r, h, got) \<longrightarrow> length got = length ws \<longrightarrow>
      (\<exists>s'. Server_runSync E s p (map2 handled got qs) = Some (s', None) \<and> attending s' p st ast rx tx t' \<and>
         io_out (sv_io s') st = io_out (sv_io s) st @ wire ms \<and>
         io_out (sv_io s') ast = io_out (sv_io s) ast @ wire ams))"
proof -
  have "unat rx < 2 ^ 64" using unsigned_less [of rx] by simp
  then have small: "\<forall>x \<in> set ws. length (snd x) < 2 ^ 64"
    using assms(7) by (auto simp: list_all_iff program_message_def intro: order_le_less_trans)
  have "\<exists>s'. Server_runSync E s p (map2 handled got qs) = Some (s', None) \<and> attending s' p st ast rx tx t' \<and>
       io_out (sv_io s') st = io_out (sv_io s) st @ wire ms \<and> io_out (sv_io s') ast = io_out (sv_io s) ast @ wire ams"
    if "reader_reach (newReader c ChannelSynchronous rx) (r, h, got)" "length got = length ws" for r h got
  proof -
    have "map seen got = map (arrival (unat rx)) ws" using taken_arrivals [OF that(1) assms(6,5) small] that(2) by simp
    note prog = arrivals_program [OF this assms(7,8)]
    show ?thesis
      using runSync_exchanges [OF assms(1-4) prog(2)] assms(9,10)
      unfolding alike_fit [OF prog(1)] alike_exchanges [OF prog(1)] by blast
  qed
  then show ?thesis using reader_takes_all [OF assms(6,5) small] by blast
qed

definition demo_wire :: "(Header \<times> bytes) list" where
  "demo_wire = [(zero_Header\<lparr>hType := Data, hParameter := 2\<rparr>, ascii ''*id''), (zero_Header\<lparr>hType := DataEnd, hParameter := 4\<rparr>, ascii ''n?''),
     (zero_Header\<lparr>hType := DataEnd, hParameter := 6\<rparr>, ascii ''bogus''), (zero_Header\<lparr>hType := DataEnd, hParameter := 8\<rparr>, ascii ''*esr?''),
     (zero_Header\<lparr>hType := DataEnd, hParameter := 10\<rparr>, ascii ''*opc?'')]"

definition demo_stream :: transport where
  "demo_stream = \<lparr>tr_in = [take 5 (frames demo_wire), drop 5 (frames demo_wire)], tr_end = None, tr_out = [],
     tr_wfaults = [], tr_closed = False\<rparr>"

lemma demo_wire_inputs: "map2 handled (map on_wire demo_wire) [False, False, False, False, True] = demo_inputs"
  by (simp add: demo_wire_def demo_inputs_def handled_def on_wire_def arrived_def)

theorem bytes_to_replies_witness:
  "\<exists>r got s'. reader_reach (newReader demo_stream ChannelSynchronous 8192) (r, None, got) \<and>
     Server_runSync \<lparr>en_dev = instrument_ops plain_float, en_pol = no_policy\<rparr> demo_attending 0
       (map2 handled got [False, False, False, False, True]) = Some (s', None) \<and>
     io_out (sv_io s') 1 = frame (data_header 4) (ascii ''GoTMC,HiSLIP Sim'') @ frame (data_header 4) (ascii ''ulated Instrumen'') @
       frame (end_header 4) (ascii ''t,0,0.1.0'' @ [0x0A]) @ frame (end_header 8) (ascii ''32'' @ [0x0A]) @
       frame (zero_Header\<lparr>hType := Interrupted, hParameter := 10\<rparr>) []"
proof -
  let ?E = "\<lparr>en_dev = instrument_ops plain_float, en_pol = no_policy\<rparr>" and ?qs = "[False, False, False, False, True]"
  have c: "tr_content demo_stream = frames demo_wire @ []" by (simp add: demo_stream_def tr_content_def)
  have w: "list_all (program_message 8192) demo_wire" "length ?qs = length demo_wire"
    by (simp_all add: demo_wire_def program_message_def)
  note facts = demo_attending_facts
  from bytes_to_replies [of demo_attending 0 1 2 8192 _ _ ?E plain_float 16, OF facts(1) _ facts(3,2) _ c w]
    demo_exchanges demo_replies_fit
  obtain r got where r: "reader_reach (newReader demo_stream ChannelSynchronous 8192) (r, None, got)" "length got = length demo_wire"
    and "\<exists>s'. Server_runSync ?E demo_attending 0 (map2 handled got ?qs) = Some (s', None) \<and>
      io_out (sv_io s') 1 = io_out (sv_io demo_attending) 1 @ wire [(data_header 4, ascii ''GoTMC,HiSLIP Sim''),
         (data_header 4, ascii ''ulated Instrumen''), (end_header 4, ascii ''t,0,0.1.0'' @ [0x0A]), (end_header 8, ascii ''32'' @ [0x0A]),
         (zero_Header\<lparr>hType := Interrupted, hParameter := 10\<rparr>, [])]"
    unfolding demo_wire_inputs by (simp del: ascii_Cons wire_simps) blast
  with facts(4) show ?thesis by (auto simp del: ascii_Cons)
qed

end
