(* ===== verification/Programs.thy ===== *)
theory Programs
  imports Listener Instrument
begin

text \<open>
  The two programs of the repository: the example server (\<open>examples/server/main.go\<close>) around its
  instrument, and the build check (\<open>cmd/tinygocheck\<close>) with its stub of an instrument. What the example
  program logs is modelled as the texts it passes to the logger; parsing its flags and waiting for
  signals are not.
\<close>

section \<open>The build check\<close>

type_synonym stubDevice = unit

definition stubDevice_Write :: "stubDevice \<Rightarrow> bool \<Rightarrow> bytes \<Rightarrow> bool \<Rightarrow> stubDevice \<times> gerror option" where
  "stubDevice_Write d ctx p end' = (d, None)"

definition stubDevice_Read :: "stubDevice \<Rightarrow> bool \<Rightarrow> nat \<Rightarrow> stubDevice \<times> bytes \<times> bool \<times> gerror option" where
  "stubDevice_Read d ctx len = (d, [], True, None)"

definition stubDevice_Clear :: "stubDevice \<Rightarrow> bool \<Rightarrow> stubDevice \<times> gerror option" where
  "stubDevice_Clear d ctx = (d, None)"

definition stubDevice_Trigger :: "stubDevice \<Rightarrow> bool \<Rightarrow> stubDevice \<times> gerror option" where
  "stubDevice_Trigger d ctx = (d, None)"

definition stubDevice_ReadStatusByte :: "stubDevice \<Rightarrow> bool \<Rightarrow> stubDevice \<times> byte \<times> gerror option" where
  "stubDevice_ReadStatusByte d ctx = (d, 0, None)"

definition stubDevice_RemoteLocal :: "stubDevice \<Rightarrow> bool \<Rightarrow> RemoteLocalMode \<Rightarrow> stubDevice \<times> gerror option" where
  "stubDevice_RemoteLocal d ctx mode = (d, None)"

definition stubDevice_ops :: "stubDevice Device" where
  "stubDevice_ops = \<lparr>dev_Write = stubDevice_Write, dev_Read = stubDevice_Read, dev_Clear = stubDevice_Clear,
     dev_Trigger = stubDevice_Trigger, dev_ReadStatusByte = stubDevice_ReadStatusByte,
     dev_RemoteLocal = stubDevice_RemoteLocal\<rparr>"

text \<open>The value with which the program panics; \<open>None\<close> when it enters its endless loop.\<close>

definition tinygocheck_main :: "io \<Rightarrow> gerror option" where
  "tinygocheck_main io =
     (case New (Some ()) (zero_Config :: unit Config) io of Inl err \<Rightarrow> Some err | Inr _ \<Rightarrow> None)"

interpretation stb: responding_device stubDevice_Read "\<lambda>_. 0"
  by unfold_locales (simp_all add: stubDevice_Read_def)

lemma default_config: "Config_validate (Config_withDefaults (zero_Config :: 'x Config)) = None"
  by (simp add: validate_valid valid_Config_def zero_Config_def)

lemma tinygocheck_runs: "tinygocheck_main io = None"
  by (simp add: tinygocheck_main_def New_def default_config Let_def)

section \<open>The example server\<close>

text \<open>What the callback for errors of a connection logs.\<close>

definition main_onError :: "gerror \<Rightarrow> bytes list" where
  "main_onError err = (if errors_Is err ErrCanceled then [] else [ascii ''connection: '' @ Error_text err])"

text \<open>The summary of the counters.\<close>

definition main_summary :: "Counters \<Rightarrow> bytes" where
  "main_summary c =
     ascii ''sessions='' @ Itoa (unat (ct_SessionsOpened c)) @ ascii '' refused='' @ Itoa (unat (ct_SessionsRefused c)) @
     ascii '' fatal='' @ Itoa (unat (ct_FatalErrors c)) @ ascii '' nonfatal='' @ Itoa (unat (ct_NonFatalErrors c)) @
     ascii '' silent-interrupted='' @ Itoa (unat (ct_SilentInterrupted c)) @
     ascii '' interrupted-sent='' @ Itoa (unat (ct_InterruptedSent c)) @
     ascii '' no-answer='' @ Itoa (unat (ct_QueriesWithoutAnswer c)) @
     ascii '' clears='' @ Itoa (unat (ct_DeviceClears c)) @ ascii '' triggers='' @ Itoa (unat (ct_Triggers c)) @
     ascii '' polls='' @ Itoa (unat (ct_SerialPolls c))"

text \<open>The program up to the call of \<open>Serve\<close>: the text with which it ends, or the listener it serves.\<close>

definition main_listen ::
    "'f float_ops \<Rightarrow> (bytes \<Rightarrow> gerror option) \<Rightarrow> bytes \<Rightarrow> io \<Rightarrow> bytes + ('f instrument, unit) Listener" where
  "main_listen fl net_Listen addr io =
     (case New (Some (zero_instrument fl)) zero_Config io of
        Inl err \<Rightarrow> Inl (ascii ''creating server: '' @ Error_text err)
      | Inr srv \<Rightarrow>
          (case Listen net_Listen addr (Some srv) of
             Inl err \<Rightarrow> Inl (ascii ''listening on '' @ addr @ ascii '': '' @ Error_text err)
           | Inr l \<Rightarrow> Inr (Listener_OnError l True)))"

text \<open>What it logs in the end, once \<open>Serve\<close> has returned, and whether that is a fatal exit.\<close>

definition main_finish :: "('d, 'x) Listener \<Rightarrow> (bytes \<times> bool) option" where
  "main_finish l =
     (case ls_accept l of
        Returned (Some err) \<Rightarrow> Some (ascii ''serve: '' @ Error_text err, True)
      | Returned None \<Rightarrow> Some (main_summary (sv_counters (ls_srv l)), False)
      | _ \<Rightarrow> None)"

section \<open>Lemmas\<close>

lemma main_listen_iff:
  "(\<exists>l. main_listen fl net_Listen addr io = Inr l) \<longleftrightarrow>
     net_Listen (if addr = [] then ascii '':'' @ Itoa DefaultPort else addr) = None"
  by (simp add: main_listen_def New_def default_config Listen_def Let_def split: option.splits)

text \<open>The program never fails for its configuration, only for the address.\<close>

lemma main_listen_fails:
  assumes "main_listen fl net_Listen addr io = Inl text"
  shows "\<exists>e. text = ascii ''listening on '' @ addr @ ascii '': '' @ Error_text e"
  using assms by (auto simp: main_listen_def New_def default_config Listen_def Let_def split: option.splits sum.splits)

text \<open>When it ends without a fatal error, all its connections have ended.\<close>

lemma main_finish_clean:
  assumes "main_listen fl net_Listen addr io = Inr l" "listener_reach E l l'" "main_finish l' = Some (text, False)"
  shows "ls_running l' = [] \<and> text = main_summary (sv_counters (ls_srv l'))"
proof -
  have "tracked_inv l"
    using assms(1) by (auto simp: main_listen_def New_def default_config Listen_def Listener_OnError_def tracked_inv_def Let_def
        split: option.splits sum.splits)
  then have "tracked_inv l'" by (rule tracked_reach [OF assms(2)])
  with assms(3) show ?thesis
    by (auto simp: main_finish_def tracked_inv_def split: accept_pc.splits option.splits)
qed

end
