(* ===== verification/Vectors.thy ===== *)
theory Vectors
  imports Codec
begin

text \<open>
  The conformance vectors: \<open>internal/vectors\<close>.

  The two vector files, the parser for them, and the check of the header codec against them. Text is a
  list of characters, one for each byte; white space outside ASCII, which does not
  occur in the files outside comments, is not treated as such.
\<close>

section \<open>The files\<close>

text \<open>The lines of \<open>headers.txt\<close> and \<open>invalid.txt\<close>, each ended by a newline.\<close>

definition headers_txt :: "string list" where
  "headers_txt =
    [''# HiSLIP header conformance vectors'',
     ''#'',
     ''# Written out by hand from IVI-6.1 revision 2.0, not generated by the code under'',
     ''# test. A coding error in the codec therefore cannot be masked by the same error'',
     ''# in the expectation.'',
     ''#'',
     ''# Format, whitespace separated, one record per line:'',
     ''#'',
     ''#   name  wire-hex  type  control  parameter  length'',
     ''#'',
     ''# wire-hex   the 16 header bytes as hex, or \"-\" for an empty byte string'',
     ''# type       decimal message type, IVI-6.1 Table 4'',
     ''# control    control code, decimal or 0x-prefixed hex'',
     ''# parameter  message parameter, decimal or 0x-prefixed hex'',
     ''# length     payload length, decimal or 0x-prefixed hex'',
     ''#'',
     ''# The wire bytes and the decoded fields are deliberately redundant. Checking one'',
     ''# against the other in both directions is the test.'',
     ''#'',
     ''# Text after \"#\" is a comment. Blank lines are ignored.'',
     [],
     ''# --- initialization ------------------------------------------------------'',
     ''# Initialize: client version 1.0, vendor ID \"GT\", sub-address \"hislip0\".'',
     ''initialize                48530000010047540000000000000007  0   0x00  0x01004754  7'',
     [],
     ''# InitializeResponse: negotiated version 1.0, session ID 0x1234. Control code 0'',
     ''# means the server prefers Synchronized Mode.'',
     ''initialize-response       48530100010012340000000000000000  1   0x00  0x01001234  0'',
     [],
     ''# InitializeResponse from a 2.0 server that prefers Overlap Mode.'',
     ''initialize-response-2.0   48530101020012340000000000000000  1   0x01  0x02001234  0'',
     [],
     ''# AsyncInitialize: session ID 0x1234 in the lower word.'',
     ''async-initialize          48531100000012340000000000000000  17  0x00  0x00001234  0'',
     [],
     ''# --- data transfer -------------------------------------------------------'',
     ''# DataEnd carrying the initial MessageID with RMT-delivered set, 4 payload bytes.'',
     ''data-end                  48530701ffffff000000000000000004  7   0x01  0xffffff00  4'',
     [],
     ''# Data carrying 0xffffffff, which a server sends when it cannot identify the'',
     ''# client message that produced the response. See IVI-6.1 section 3.1.1.'',
     ''data-no-messageid         48530600ffffffff0000000000000008  6   0x00  0xffffffff  8'',
     [],
     ''# Trigger is a synchronous-channel message and takes a MessageID from the same'',
     ''# counter as Data and DataEnd.'',
     ''trigger                   48530c01ffffff020000000000000000  12  0x01  0xffffff02  0'',
     [],
     ''# A maximal payload length, to confirm the 64-bit field is decoded whole and is'',
     ''# neither truncated nor sign extended.'',
     ''max-length                4853060000000000ffffffffffffffff  6   0x00  0x00000000  0xffffffffffffffff'',
     [],
     ''# --- status and service request ------------------------------------------'',
     ''# AsyncStatusQuery issued after initialization, before any Data, DataEnd or'',
     ''# Trigger has been sent: MessageID is 0xffffff00-2. RMT-delivered set.'',
     ''async-status-query-init   48531501fffffefe0000000000000000  21  0x01  0xfffffefe  0'',
     [],
     ''# AsyncStatusResponse: the status byte travels in the control code, not the'',
     ''# payload.'',
     ''async-status-response     48531650000000000000000000000000  22  0x50  0x00000000  0'',
     [],
     ''# AsyncServiceRequest: status byte in the control code, never acknowledged.'',
     ''async-service-request     48531440000000000000000000000000  20  0x40  0x00000000  0'',
     [],
     ''# --- device clear --------------------------------------------------------'',
     ''async-device-clear        48531300000000000000000000000000  19  0x00  0x00000000  0'',
     [],
     ''# AsyncDeviceClearAcknowledge carrying the server's preferred feature bitmap.'',
     ''# Bit 0 clear means Synchronized Mode is preferred.'',
     ''async-dev-clear-ack       48531700000000000000000000000000  23  0x00  0x00000000  0'',
     [],
     ''# DeviceClearComplete carrying the client's requested feature bitmap.'',
     ''device-clear-complete     48530800000000000000000000000000  8   0x00  0x00000000  0'',
     [],
     ''# DeviceClearAcknowledge carrying the agreed feature bitmap. Treated as a'',
     ''# synchronous-channel message; see the design specification '' @ [CHR 0xC2, CHR 0xA7] @ ''4.4.'',
     ''device-clear-ack          48530900000000000000000000000000  9   0x00  0x00000000  0'',
     [],
     ''# --- errors --------------------------------------------------------------'',
     ''# FatalError, code 1, \"Poorly formed message header\", IVI-6.1 Table 14.'',
     ''fatal-poorly-formed       48530201000000000000000000000000  2   0x01  0x00000000  0'',
     [],
     ''# Error, code 4, \"Message too large\", IVI-6.1 Table 16.'',
     ''error-too-large           48530304000000000000000000000000  3   0x04  0x00000000  0'',
     [],
     ''# --- locking -------------------------------------------------------------'',
     ''# AsyncLock request, control code 1, timeout 5000 ms, 10-byte lock string.'',
     ''async-lock-request        4853040100001388000000000000000a  4   0x01  0x00001388  10'',
     [],
     ''# AsyncLock release, control code 0, parameter is the MessageID of the last'',
     ''# sent message.'',
     ''async-lock-release        48530400ffffff020000000000000000  4   0x00  0xffffff02  0'',
     [],
     ''# --- interrupted ---------------------------------------------------------'',
     ''interrupted               48530d00ffffff000000000000000000  13  0x00  0xffffff00  0'',
     ''async-interrupted         48530e00000000000000000000000000  14  0x00  0x00000000  0'',
     [],
     ''# --- vendor specific -----------------------------------------------------'',
     ''# The GoTMC extension envelope, type 128, control code 0 for ExtHello, with an'',
     ''# 8-byte payload. See the design specification '' @ [CHR 0xC2, CHR 0xA7] @ ''17.4.'',
     ''vendor-ext-hello          48538000000000000000000000000008  128 0x00  0x00000000  8'',
     [],
     ''# The top of the vendor-specific range.'',
     ''vendor-max                4853ff00000000000000000000000000  255 0x00  0x00000000  0'']"

definition invalid_txt :: "string list" where
  "invalid_txt =
    [''# HiSLIP malformed header vectors'',
     ''#'',
     ''# Inputs a conforming decoder must reject, with the reason it must reject them.'',
     ''#'',
     ''# Format, whitespace separated, one record per line:'',
     ''#'',
     ''#   name  wire-hex  reason'',
     ''#'',
     ''# wire-hex  the bytes as hex, or \"-\" for an empty byte string'',
     ''# reason    \"prologue\"  the two-byte \"HS\" signature is absent'',
     ''#           \"short\"     fewer than 16 bytes were supplied'',
     ''#'',
     ''# A decoder must not reject anything else at this layer. Undefined message'',
     ''# types, reserved message types and implausible payload lengths all decode'',
     ''# successfully on purpose, because a receiver has to decode a header it intends'',
     ''# to reject in order to consume the payload and stay synchronised with the peer.'',
     ''# Those cases live in headers.txt, not here.'',
     [],
     ''# --- absent or wrong prologue --------------------------------------------'',
     ''all-zero          00000000000000000000000000000000  prologue'',
     ''lowercase         68730000000000000000000000000000  prologue'',
     ''swapped           53480000000000000000000000000000  prologue'',
     ''first-byte-only   48580000000000000000000000000000  prologue'',
     ''second-byte-only  58530000000000000000000000000000  prologue'',
     ''ascii-text        474554202f20485454502f312e310d0a  prologue'',
     ''random            deadbeefdeadbeefdeadbeefdeadbeef  prologue'',
     [],
     ''# --- too short -----------------------------------------------------------'',
     ''# A valid prologue is not enough; the decoder must have all 16 bytes before it'',
     ''# reads any multibyte field.'',
     ''empty             -                                 short'',
     ''one-byte          48                                short'',
     ''prologue-only     4853                              short'',
     ''fifteen-bytes     485300000100475400000000000000    short'']"

definition ReadFile :: "string \<Rightarrow> string option" where
  "ReadFile name =
     (if name = ''headers.txt'' then Some (concat (map (\<lambda>l. l @ [CHR 0x0A]) headers_txt))
      else if name = ''invalid.txt'' then Some (concat (map (\<lambda>l. l @ [CHR 0x0A]) invalid_txt))
      else None)"

section \<open>Library functions the parser calls\<close>

text \<open>\<open>bufio.ScanLines\<close>: lines without their newline and one carriage return before it. The
  argument in front is the line read so far, backwards.\<close>

definition dropCR :: "string \<Rightarrow> string" where
  "dropCR l = (if l \<noteq> [] \<and> last l = CHR 0x0D then butlast l else l)"

fun ScanLines :: "string \<Rightarrow> string \<Rightarrow> string list" where
  "ScanLines acc [] = (if acc = [] then [] else [rev acc])"
| "ScanLines acc (c # cs) = (if c = CHR 0x0A then rev acc # ScanLines [] cs else ScanLines (c # acc) cs)"

definition isSpace :: "char \<Rightarrow> bool" where
  "isSpace c \<longleftrightarrow> c = CHR 0x20 \<or> c = CHR 0x09 \<or> c = CHR 0x0A \<or> c = CHR 0x0B \<or> c = CHR 0x0C \<or> c = CHR 0x0D"

fun split_fields :: "string \<Rightarrow> string \<Rightarrow> string list" where
  "split_fields acc [] = (if acc = [] then [] else [rev acc])"
| "split_fields acc (c # cs) =
     (if isSpace c then (if acc = [] then split_fields [] cs else rev acc # split_fields [] cs) else split_fields (c # acc) cs)"

definition digit_value :: "char \<Rightarrow> int option" where
  "digit_value c =
     (let n = of_char c :: int in
      if 48 \<le> n \<and> n \<le> 57 then Some (n - 48)
      else if 97 \<le> n \<and> n \<le> 122 then Some (n - 97 + 10)
      else if 65 \<le> n \<and> n \<le> 90 then Some (n - 65 + 10)
      else None)"

datatype vector_error =
    NoSuchFile | TooLong | FieldCount nat nat nat | NoVectors
  | BadHex nat | BadNumber nat | NumberRange nat | UnknownReason nat string

text \<open>\<open>strconv.ParseUint\<close> with base 0: a prefix selects the base and digits may be separated by
  underscores. \<open>Inl False\<close> is a syntax error and \<open>Inl True\<close> a value that needs more bits.\<close>

definition lower :: "char \<Rightarrow> char" where
  "lower c = (if 65 \<le> (of_char c :: int) \<and> (of_char c :: int) \<le> 90 then char_of ((of_char c :: int) + 32) else c)"

text \<open>The last argument tells what was seen last: a digit, an underscore or neither.\<close>

datatype underscore_state = SawDigit | SawUnderscore | SawOther

fun underscoreOK_loop :: "bool \<Rightarrow> string \<Rightarrow> underscore_state \<Rightarrow> bool" where
  "underscoreOK_loop hex [] i \<longleftrightarrow> i \<noteq> SawUnderscore"
| "underscoreOK_loop hex (c # cs) i \<longleftrightarrow>
     (case digit_value c of
        Some d \<Rightarrow>
          if d < 10 \<or> hex \<and> d < 16 then underscoreOK_loop hex cs SawDigit
          else i \<noteq> SawUnderscore \<and> underscoreOK_loop hex cs SawOther
      | None \<Rightarrow>
          if c = CHR ''_'' then i = SawDigit \<and> underscoreOK_loop hex cs SawUnderscore
          else i \<noteq> SawUnderscore \<and> underscoreOK_loop hex cs SawOther)"

definition underscoreOK :: "string \<Rightarrow> bool" where
  "underscoreOK s =
     (case s of
        a # b # r \<Rightarrow>
          if a = CHR ''0'' \<and> lower b \<in> {CHR ''b'', CHR ''o'', CHR ''x''}
          then underscoreOK_loop (lower b = CHR ''x'') r SawDigit
          else underscoreOK_loop False s SawOther
      | _ \<Rightarrow> underscoreOK_loop False s SawOther)"

fun ParseUint_loop :: "int \<Rightarrow> nat \<Rightarrow> string \<Rightarrow> int \<Rightarrow> bool + int" where
  "ParseUint_loop base bits [] n = Inr n"
| "ParseUint_loop base bits (c # cs) n =
     (if c = CHR ''_'' then ParseUint_loop base bits cs n
      else case digit_value c of
        None \<Rightarrow> Inl False
      | Some d \<Rightarrow>
          if base \<le> d then Inl False
          else if 2 ^ bits \<le> n * base + d then Inl True
          else ParseUint_loop base bits cs (n * base + d))"

definition ParseUint :: "string \<Rightarrow> nat \<Rightarrow> bool + int" where
  "ParseUint s bits =
     (if s = [] then Inl False
      else
        let (base, digits) =
          (case s of
             a # b # c # r \<Rightarrow>
               if a = CHR ''0'' \<and> lower b = CHR ''b'' then (2, c # r)
               else if a = CHR ''0'' \<and> lower b = CHR ''o'' then (8, c # r)
               else if a = CHR ''0'' \<and> lower b = CHR ''x'' then (16, c # r)
               else if a = CHR ''0'' then (8, tl s)
               else (10, s)
           | a # r \<Rightarrow> if a = CHR ''0'' then (8, r) else (10, s)
           | [] \<Rightarrow> (10, s))
        in case ParseUint_loop base bits digits 0 of
             Inl e \<Rightarrow> Inl e
           | Inr n \<Rightarrow> if CHR ''_'' \<in> set digits \<and> \<not> underscoreOK s then Inl False else Inr n)"

text \<open>\<open>hex.DecodeString\<close>.\<close>

fun hex_DecodeString :: "string \<Rightarrow> bytes option" where
  "hex_DecodeString [] = Some []"
| "hex_DecodeString [c] = None"
| "hex_DecodeString (c # d # cs) =
     (case (digit_value c, digit_value d) of
        (Some a, Some b) \<Rightarrow>
          if a < 16 \<and> b < 16 then map_option (\<lambda>bs. of_int (16 * a + b) # bs) (hex_DecodeString cs) else None
      | _ \<Rightarrow> None)"

section \<open>The parser\<close>

record vector_record =
  vr_line :: nat
  vr_fields :: "string list"

record HeaderVector =
  vh_Name :: string
  vh_Wire :: bytes
  vh_Type :: uint8
  vh_Control :: uint8
  vh_Parameter :: uint32
  vh_Length :: uint64

record InvalidVector =
  vi_Name :: string
  vi_Wire :: bytes
  vi_Reason :: string

definition emptyMarker :: string where "emptyMarker = ''-''"
definition ReasonPrologue :: string where "ReasonPrologue = ''prologue''"
definition ReasonShort :: string where "ReasonShort = ''short''"

text \<open>The scanner refuses a line that does not fit its buffer of 64 KiB.\<close>

fun parse_lines :: "nat \<Rightarrow> nat \<Rightarrow> string list \<Rightarrow> vector_error + vector_record list" where
  "parse_lines want line [] = Inr []"
| "parse_lines want line (l # ls) =
     (if 65536 \<le> int (length l) then Inl TooLong
      else
        let fields = split_fields [] (takeWhile (\<lambda>c. c \<noteq> CHR ''#'') (dropCR l)) in
        if fields = [] then parse_lines want (line + 1) ls
        else if length fields \<noteq> want then Inl (FieldCount line (length fields) want)
        else case parse_lines want (line + 1) ls of
          Inl e \<Rightarrow> Inl e
        | Inr rs \<Rightarrow> Inr (\<lparr>vr_line = line, vr_fields = fields\<rparr> # rs))"

definition parse :: "string \<Rightarrow> nat \<Rightarrow> vector_error + vector_record list" where
  "parse name want =
     (case ReadFile name of
        None \<Rightarrow> Inl NoSuchFile
      | Some data \<Rightarrow>
          (case parse_lines want 1 (ScanLines [] data) of
             Inl e \<Rightarrow> Inl e
           | Inr rs \<Rightarrow> if rs = [] then Inl NoVectors else Inr rs))"

definition decodeWire :: "nat \<Rightarrow> string \<Rightarrow> vector_error + bytes" where
  "decodeWire line field =
     (if field = emptyMarker then Inr []
      else case hex_DecodeString field of None \<Rightarrow> Inl (BadHex line) | Some b \<Rightarrow> Inr b)"

definition parseUint :: "nat \<Rightarrow> string \<Rightarrow> nat \<Rightarrow> vector_error + int" where
  "parseUint line field bits =
     (case ParseUint field bits of
        Inl overflow \<Rightarrow> Inl (if overflow then NumberRange line else BadNumber line)
      | Inr n \<Rightarrow> Inr n)"

definition header_record :: "vector_record \<Rightarrow> vector_error + HeaderVector" where
  "header_record r =
     (let f = vr_fields r; line = vr_line r in
      case decodeWire line (f ! 1) of Inl e \<Rightarrow> Inl e | Inr wire \<Rightarrow>
      (case parseUint line (f ! 2) 8 of Inl e \<Rightarrow> Inl e | Inr typ \<Rightarrow>
      (case parseUint line (f ! 3) 8 of Inl e \<Rightarrow> Inl e | Inr control \<Rightarrow>
      (case parseUint line (f ! 4) 32 of Inl e \<Rightarrow> Inl e | Inr parameter \<Rightarrow>
      (case parseUint line (f ! 5) 64 of Inl e \<Rightarrow> Inl e | Inr len \<Rightarrow>
         Inr \<lparr>vh_Name = f ! 0, vh_Wire = wire, vh_Type = of_int typ, vh_Control = of_int control,
              vh_Parameter = of_int parameter, vh_Length = of_int len\<rparr>)))))"

definition invalid_record :: "vector_record \<Rightarrow> vector_error + InvalidVector" where
  "invalid_record r =
     (let f = vr_fields r; line = vr_line r in
      case decodeWire line (f ! 1) of Inl e \<Rightarrow> Inl e | Inr wire \<Rightarrow>
        let reason = f ! 2 in
        if reason = ReasonPrologue \<or> reason = ReasonShort
        then Inr \<lparr>vi_Name = f ! 0, vi_Wire = wire, vi_Reason = reason\<rparr>
        else Inl (UnknownReason line reason))"

text \<open>A loop over the records that stops at the first error.\<close>

fun collect :: "('a \<Rightarrow> 'e + 'b) \<Rightarrow> 'a list \<Rightarrow> 'e + 'b list" where
  "collect f [] = Inr []"
| "collect f (x # xs) =
     (case f x of
        Inl e \<Rightarrow> Inl e
      | Inr y \<Rightarrow> (case collect f xs of Inl e \<Rightarrow> Inl e | Inr ys \<Rightarrow> Inr (y # ys)))"

definition Headers :: "vector_error + HeaderVector list" where
  "Headers = (case parse ''headers.txt'' 6 of Inl e \<Rightarrow> Inl e | Inr rs \<Rightarrow> collect header_record rs)"

definition Invalids :: "vector_error + InvalidVector list" where
  "Invalids = (case parse ''invalid.txt'' 3 of Inl e \<Rightarrow> Inl e | Inr rs \<Rightarrow> collect invalid_record rs)"

section \<open>Lemmas\<close>

lemma ScanLines_line: "CHR 0x0A \<notin> set l \<Longrightarrow> ScanLines acc (l @ CHR 0x0A # r) = (rev acc @ l) # ScanLines [] r"
  by (induction l arbitrary: acc) auto

lemma ScanLines_lines: "list_all (\<lambda>l. CHR 0x0A \<notin> set l) ls \<Longrightarrow> ScanLines [] (concat (map (\<lambda>l. l @ [CHR 0x0A]) ls)) = ls"
  by (induction ls) (simp_all add: ScanLines_line)

lemma headers_lines: "list_all (\<lambda>l. CHR 0x0A \<notin> set l) headers_txt"
  by code_simp

lemma invalid_lines: "list_all (\<lambda>l. CHR 0x0A \<notin> set l) invalid_txt"
  by code_simp

lemma parse_headers: "parse ''headers.txt'' 6 = (case parse_lines 6 1 headers_txt of
    Inl e \<Rightarrow> Inl e | Inr rs \<Rightarrow> if rs = [] then Inl NoVectors else Inr rs)"
  by (simp add: parse_def ReadFile_def ScanLines_lines [OF headers_lines])

lemma parse_invalid: "parse ''invalid.txt'' 3 = (case parse_lines 3 1 invalid_txt of
    Inl e \<Rightarrow> Inl e | Inr rs \<Rightarrow> if rs = [] then Inl NoVectors else Inr rs)"
  by (simp add: parse_def ReadFile_def ScanLines_lines [OF invalid_lines])

text \<open>The fields of a vector as a header.\<close>

definition vector_header :: "HeaderVector \<Rightarrow> Header" where
  "vector_header v = \<lparr>hType = vh_Type v, hControl = vh_Control v, hParameter = vh_Parameter v, hLength = vh_Length v\<rparr>"

text \<open>A vector holds when the codec turns its bytes into its fields and its fields into its bytes;
  a malformed one when the codec refuses its bytes for the reason given.\<close>

definition vector_holds :: "HeaderVector \<Rightarrow> bool" where
  "vector_holds v \<longleftrightarrow> DecodeHeader (vh_Wire v) = Inr (vector_header v) \<and>
     Header_Encode (vector_header v) (replicate 16 0) = Inr (vh_Wire v)"

definition invalid_holds :: "InvalidVector \<Rightarrow> bool" where
  "invalid_holds v \<longleftrightarrow>
     DecodeHeader (vi_Wire v) = Inl (if vi_Reason v = ReasonShort then ErrShortBuffer else ErrInvalidPrologue)"

lemma vector_holds_bytes: "vector_holds v \<longleftrightarrow> header_bytes (vector_header v) = vh_Wire v"
proof
  assume "header_bytes (vector_header v) = vh_Wire v"
  then show "vector_holds v"
    using DecodeHeader_header_bytes_Nil [of "vector_header v"] by (simp add: vector_holds_def Header_Encode_def)
qed (simp add: vector_holds_def Header_Encode_def)

lemma headers_hold: "case parse_lines 6 1 headers_txt of
    Inl e \<Rightarrow> False
  | Inr rs \<Rightarrow>
      rs \<noteq> [] \<and>
      (case collect header_record rs of
         Inl e \<Rightarrow> False
       | Inr vs \<Rightarrow> length vs = 23 \<and> distinct (map vh_Name vs) \<and>
           list_all (\<lambda>v. header_bytes (vector_header v) = vh_Wire v) vs)"
  by code_simp

lemma invalids_hold: "case parse_lines 3 1 invalid_txt of
    Inl e \<Rightarrow> False
  | Inr rs \<Rightarrow>
      rs \<noteq> [] \<and>
      (case collect invalid_record rs of
         Inl e \<Rightarrow> False
       | Inr vs \<Rightarrow> length vs = 11 \<and> distinct (map vi_Name vs) \<and> list_all invalid_holds vs)"
  by code_simp

section \<open>Properties\<close>


end
