(* ===== verification/Spec2Isabelle.thy ===== *)
theory Spec2Isabelle
  imports Message_Id Store_Typing Async_Channel Pipeline Programs Vectors
begin

text \<open>
  A verification of the HiSLIP server of \<open>src/\<close> (package \<open>protocol\<close>, package \<open>server\<close>, the
  TCP adapter, the example instrument and the test support they are exercised with).

  \<^bold>\<open>The program.\<close> HiSLIP carries instrument control over two TCP connections of one client, the
  synchronous and the asynchronous channel. Package \<open>protocol\<close> defines the messages: a sixteen
  byte header, a payload, message types with the channel and version they belong to. Package
  \<open>server\<close> accepts connections (\<open>serve.go\<close>), pairs the two channels of a client into a session
  (\<open>initialize.go\<close>, \<open>session.go\<close>, \<open>server.go\<close>), reads messages ahead of the handler (\<open>reader.go\<close>),
  admits them (\<open>dispatch.go\<close>), passes program messages to an instrument and streams its
  responses back (\<open>data.go\<close>), answers the operations of the asynchronous channel (\<open>async.go\<close>,
  \<open>locks.go\<close>, \<open>status.go\<close>) and clears the device (\<open>clear.go\<close>). The instrument is an interface
  (\<open>device.go\<close>); whether a program message is a query is decided by a policy (\<open>policy.go\<close>). The
  adapter of the root package (\<open>listen.go\<close>) gives the server the connections of a TCP socket.

  \<^bold>\<open>Conventions.\<close> A Go method \<open>M\<close> of a type \<open>T\<close> is the definition \<open>T_M\<close>; a structure is a record
  whose fields carry a prefix of the type. Machine integers are words of their width. A result
  with an error is a sum or carries an optional error. Values reached through pointers live in
  stores: connections and writers in an \<open>io\<close> record, sessions in the heap \<open>sv_heap\<close> of the
  server, contexts of bus operations as numbers that may be in the set of cancelled ones. A
  method of an interface that this repository does not implement (an instrument, an
  application's policy, a byte stream in the codec) is an argument of the definitions that
  call it. A call that may not return is of an option type and \<open>None\<close> means that it does not.
  A method on a nil writer, which would be a panic, is the error value \<open>NilPointer\<close>. Mutexes
  make the operations atomic; the interleavings they leave open are schedules and step
  relations, named below.

  \<^bold>\<open>Theories and what they show.\<close>

  \<^item> \<open>Prelude\<close>, \<open>Go_Errors\<close>, \<open>Go_Strings\<close>: byte strings, big-endian integers and their round trips, error values and
    \<open>errors.Is\<close>, and the functions of Go's packages \<open>strings\<close> and \<open>strconv\<close> the sources call.

  \<^item> \<open>Message_Types\<close> (\<open>protocol/constants.go\<close>, \<open>version.go\<close>, \<open>errors.go\<close>): the message table, its
    lookups, version order and negotiation, the packing of initialization parameters.

  \<^item> \<open>Message_Id\<close> (\<open>protocol/messageid.go\<close>): identifiers with wrap-around at 32 bits and the counter of
    a client.

  \<^item> \<open>Codec\<close> (\<open>protocol/header.go\<close>, \<open>codec.go\<close>): encoding, decoding and streaming over any source of
    bytes. The locale \<open>byte_source\<close> states what a source promises; the payload routines are
    proved in it for every way a source cuts its bytes into reads.

  \<^item> \<open>Streams\<close> (\<open>internal/teststream\<close>, \<open>server/stream.go\<close>): scripted connections with read segments,
    faults and a closed flag, the instance of \<open>byte_source\<close> on them, and the pipe, which carries
    the bytes of both ends in order in every interleaving.

  \<^item> \<open>Rmt\<close>, \<open>Status\<close>, \<open>Transactions\<close>, \<open>Policy\<close> (files of the same names in \<open>server\<close>): the state
    machines of a session. The detection of unread responses is equivalent to a history
    specification; the status byte differs from the instrument's in one bit; a response is only
    ever begun after a complete message; the incremental query scanner agrees with a grammar
    of program messages however the message is cut into chunks.

  \<^item> \<open>Locks\<close> (\<open>locks.go\<close>): the manager refines the table of the standard; requests that wait are
    a machine of atomic steps under an arbitrary schedule of the operations of other sessions.

  \<^item> \<open>Config\<close>, \<open>Device\<close> (\<open>config.go\<close>, \<open>errors.go\<close>, \<open>device.go\<close>, \<open>internal/testdevice\<close>): defaults,
    validation, wire codes; the instrument interface, its remote and local modes, and the
    scripted instrument. The locale \<open>fitting_device\<close> states that an instrument keeps to the buffer it is
    given, \<open>responding_device\<close> adds that its responses end; both instruments of the repository are instances.

  \<^item> \<open>Writer\<close> and \<open>Reader\<close> (\<open>writer.go\<close>, \<open>reader.go\<close>): writers refuse messages of the other channel; the
    reading goroutine, its buffers and the consumer are a step relation, in every interleaving of
    which messages are delivered in order and no buffer is shared.

  \<^item> \<open>Session\<close> (\<open>session.go\<close>, \<open>server.go\<close>): the session table, allocation of identifiers, operation
    contexts, teardown and shutdown.

  \<^item> \<open>Dispatch\<close> and \<open>Handshake\<close> (\<open>dispatch.go\<close>, \<open>initialize.go\<close>, \<open>clear.go\<close>): \<open>Dispatch\<close> has the definitions,
    \<open>Handshake\<close> shows exactly what is accepted, that the two channels of a client are paired,
    and that a Device Clear always leaves the session usable.

  \<^item> \<open>Data_Path\<close> and \<open>Responses\<close> (\<open>data.go\<close>, \<open>async.go\<close>): \<open>Data_Path\<close> has the definitions, \<open>Responses\<close> shows
    what a response puts on both channels for every behaviour of the instrument, and when
    sending it ends.

  \<^item> \<open>Serve\<close> and \<open>Operations\<close> (\<open>serve.go\<close>): \<open>Serve\<close> has the handlers and loops of both channels, \<open>Operations\<close> follows
    whole operations: a query from its message to its answer, failures and their reports, serial
    poll, exchange of the maximum message sizes, and the limit the client sets on messages.

  \<^item> \<open>Instrument\<close>, \<open>Conversation\<close>, \<open>Connection\<close> and \<open>Pipeline\<close> (\<open>examples/server/main.go\<close>): the simulated instrument with its commands, and
    whole sessions in front of it. The machine of \<open>exchanges\<close> has an instrument and a policy only; the
    synchronous loop of the server implements it for every program of messages, and the handshakes of the two
    channels (\<open>serve.go\<close>) lead to a session in which it does. \<open>Pipeline\<close> puts the reading goroutine in front of the
    loop: from the bytes on the wire, however they arrive, to the bytes of the replies.

  \<^item> \<open>System\<close>: the step relation \<open>server_step\<close> interleaves the handlers of all connections, the reads of a response
    in progress, service requests, teardowns and shutdown. The locales \<open>channel_invariant\<close>,
    \<open>async_invariant\<close> and \<open>server_invariant\<close> reduce an invariant of all of it to the elementary changes; they are interpreted for the session
    table, the locks, the state of every session, its life, the framing of what is on the wire and
    the cleaning up after a connection.

  \<^item> \<open>Listener\<close> (\<open>listen.go\<close>): the accept loop, the goroutines of its connections and \<open>Close\<close> as programs that
    interleave over the server. Connections that are tracked when \<open>Close\<close> is called are closed when it is
    done; one that is accepted before and tracked later may be missed.

  \<^item> \<open>Store_Typing\<close>: the references between sessions, writers and connections agree in every interleaving, so what
    an open session sends goes to its own connections only.

  \<^item> \<open>Async_Channel\<close> (\<open>serve.go\<close>): what the end of an asynchronous channel leaves. Only the synchronous channel
    cleans up after itself; the session of an asynchronous channel that has ended stays in the table.

  \<^item> \<open>Programs\<close> (\<open>examples/server\<close>, \<open>cmd/tinygocheck\<close>): the main programs, their instruments and what they log.

  \<^item> \<open>Vectors\<close> (\<open>internal/vectors\<close>): the two files of conformance vectors and their parser; the codec agrees
    with every vector of both.

  \<^bold>\<open>Bounds.\<close> There is no fuel: loops are structural recursions, recursions with a termination
  proof, or partial functions whose termination is a theorem (responses of an instrument that
  ends its response, payloads of a source that ends). Lengths in hypotheses are below \<open>2 ^ 64\<close>, the
  range of the length field. The search for an identifier tries \<open>2 ^ 16\<close> candidates, as the
  loop in the code does.

  \<^bold>\<open>Abstractions.\<close> Time is a choice of the schedule: a timer or a deadline may fire whenever the
  code waits for it. A message handler is one step of the interleaving, apart from the reads of
  a response. Whether input is queued when a response is about to be sent is a parameter of
  the handler, as the reader is a machine of its own. Traversing a map goes in the order of
  a list. A write to a connection either succeeds or meets one of its scripted faults.

  \<^bold>\<open>Not modelled.\<close> The operating system's sockets, whose accepted connections are choices of the
  listener's steps. Floating-point numbers: parsing and printing one are arguments of the instrument.
  The flags and signals of the program in \<open>examples/server\<close> and the log of its instrument. Methods that only return a field are the selectors of the records. Optional interfaces of an instrument that
  nothing calls (\<open>ReadRequester\<close>, \<open>ServiceRequestSource\<close>). \<open>ListenAndServe\<close>, which only calls \<open>Listen\<close> and \<open>Serve\<close>.
  Packages \<open>client\<close> and \<open>extension\<close> contain no code.
\<close>

end
